(* ===== verification/JS_Prelude.thy ===== *)
theory JS_Prelude
  imports Main "HOL-Library.Multiset"
begin

text \<open>
  Shared vocabulary of the development: the ECMAScript built-ins that
  \<^verbatim>\<open>src/script.js\<close> calls on strings and arrays (\<^verbatim>\<open>split\<close>, \<^verbatim>\<open>join\<close>,
  \<^verbatim>\<open>trim\<close>, \<^verbatim>\<open>substring\<close>, \<^verbatim>\<open>slice\<close>, \<^verbatim>\<open>parseInt\<close>, number-to-string
  conversion), the generic list lemmas the component theories share, and the
  named collections that carry their proofs.

  A JavaScript string is modelled as a \<^typ>\<open>string\<close>: one \<^typ>\<open>char\<close> per UTF-16
  code unit, which covers the code units \<open>0x00 .. 0xFF\<close>. \<^verbatim>\<open>length\<close> is
  \<^const>\<open>length\<close>. Array indices and lengths are \<^typ>\<open>nat\<close>; JavaScript numbers
  that the script reads from its documents are \<^typ>\<open>int\<close>.
\<close>

section \<open>Collections\<close>

named_theorems js_defs \<open>definitions of the modelled ECMAScript built-ins\<close>
named_theorems dom_defs \<open>definitions of the element updates of the page model\<close>
named_theorems inv_defs \<open>definitions of the invariants of the page model\<close>

type_synonym jstring = string

section \<open>Characters\<close>

abbreviation SP :: char where "SP \<equiv> CHR '' ''"
abbreviation NL :: char where "NL \<equiv> CHR 0x0A"

definition is_ws :: "char \<Rightarrow> bool" where
  "is_ws c \<longleftrightarrow> (of_char c :: nat) \<in> set [9, 10, 11, 12, 13, 32, 160]"

lemma is_ws_SP [simp]: "is_ws SP"
  by (simp add: is_ws_def)

lemma is_ws_NL [simp]: "is_ws NL"
  by (simp add: is_ws_def)

section \<open>Splitting and joining\<close>

fun split_on :: "'a \<Rightarrow> 'a list \<Rightarrow> 'a list list" where
  "split_on c [] = [[]]"
| "split_on c (x # xs) =
     (let ws = split_on c xs
      in if x = c then [] # ws else (x # hd ws) # tl ws)"

fun js_join :: "'a list \<Rightarrow> 'a list list \<Rightarrow> 'a list" where
  "js_join sep [] = []"
| "js_join sep [w] = w"
| "js_join sep (w # v # ws) = w @ sep @ js_join sep (v # ws)"

lemma split_on_nonempty [simp]: "split_on c xs \<noteq> []"
  by (induction xs) (auto simp: Let_def)

lemma split_on_hd_tl: "hd (split_on c xs) # tl (split_on c xs) = split_on c xs"
  by simp

lemma length_split_on: "length (split_on c xs) = Suc (count_list xs c)"
proof (induction xs)
  case Nil
  show ?case by simp
next
  case (Cons x xs)
  have "length (tl (split_on c xs)) = count_list xs c"
    using Cons.IH by simp
  with Cons.IH show ?case by (simp add: Let_def)
qed

lemma split_on_single_iff: "length (split_on c xs) = 1 \<longleftrightarrow> c \<notin> set xs"
  by (simp add: length_split_on count_list_0_iff)

lemma split_on_no_sep: "c \<notin> set xs \<Longrightarrow> split_on c xs = [xs]"
  by (induction xs) (auto simp: Let_def)

lemma split_on_words_no_sep: "w \<in> set (split_on c xs) \<Longrightarrow> c \<notin> set w"
proof (induction xs arbitrary: w)
  case Nil
  then show ?case by simp
next
  case (Cons x xs)
  show ?case
  proof (cases "x = c")
    case True
    with Cons show ?thesis by (auto simp: Let_def)
  next
    case False
    from Cons.prems False have "w = x # hd (split_on c xs) \<or> w \<in> set (tl (split_on c xs))"
      by (simp add: Let_def)
    moreover have "hd (split_on c xs) \<in> set (split_on c xs)"
      by simp
    moreover have "set (tl (split_on c xs)) \<subseteq> set (split_on c xs)"
      by (metis list.set_sel(2) split_on_nonempty subsetI)
    ultimately show ?thesis
      using Cons.IH False by auto
  qed
qed

lemma split_on_chars: "w \<in> set (split_on c xs) \<Longrightarrow> set w \<subseteq> set xs"
proof (induction xs arbitrary: w)
  case Nil
  then show ?case by simp
next
  case (Cons x xs)
  obtain v vs where vs: "split_on c xs = v # vs"
    by (cases "split_on c xs") simp_all
  with Cons.IH have "set v \<subseteq> set xs" and "\<forall>u \<in> set vs. set u \<subseteq> set xs"
    by simp_all
  with Cons.prems vs show ?case
    by (auto simp: Let_def split: if_splits)
qed

lemma js_join_Cons: "ws \<noteq> [] \<Longrightarrow> js_join sep (w # ws) = w @ sep @ js_join sep ws"
  by (cases ws) simp_all

lemma js_join_split_on: "js_join [c] (split_on c xs) = xs"
proof (induction xs)
  case Nil
  show ?case by simp
next
  case (Cons x xs)
  obtain w ws where ws: "split_on c xs = w # ws"
    by (cases "split_on c xs") simp_all
  with Cons.IH have IH: "js_join [c] (w # ws) = xs" by simp
  show ?case
  proof (cases "x = c")
    case True
    then show ?thesis using ws IH by (simp add: Let_def)
  next
    case False
    then show ?thesis using ws IH by (cases ws) (auto simp: Let_def)
  qed
qed

lemma split_on_append_sep:
  "c \<notin> set w \<Longrightarrow> split_on c (w @ c # xs) = w # split_on c xs"
  by (induction w) (auto simp: Let_def)

lemma split_on_js_join:
  "ws \<noteq> [] \<Longrightarrow> \<forall>w \<in> set ws. c \<notin> set w \<Longrightarrow> split_on c (js_join [c] ws) = ws"
proof (induction ws)
  case Nil
  then show ?case by simp
next
  case (Cons w ws)
  show ?case
  proof (cases "ws = []")
    case True
    with Cons.prems show ?thesis by (simp add: split_on_no_sep)
  next
    case False
    with Cons show ?thesis by (simp add: js_join_Cons split_on_append_sep)
  qed
qed

lemma set_js_join: "set (js_join sep ws) \<subseteq> set sep \<union> \<Union> (set ` set ws)"
  by (induction sep ws rule: js_join.induct) auto

lemma js_join_append:
  "us \<noteq> [] \<Longrightarrow> vs \<noteq> [] \<Longrightarrow> js_join sep (us @ vs) = js_join sep us @ sep @ js_join sep vs"
proof (induction sep us rule: js_join.induct)
  case (1 sep)
  then show ?case by simp
next
  case (2 sep w)
  then show ?case by (simp add: js_join_Cons)
next
  case (3 sep w v ws)
  then show ?case by simp
qed

section \<open>Trimming and substrings\<close>

definition js_trim :: "jstring \<Rightarrow> jstring" where
  "js_trim s = rev (dropWhile is_ws (rev (dropWhile is_ws s)))"

definition js_substring :: "'a list \<Rightarrow> nat \<Rightarrow> nat \<Rightarrow> 'a list" where
  "js_substring s a b =
     (let a' = min a (length s); b' = min b (length s);
          lo = min a' b'; hi = max a' b'
      in take (hi - lo) (drop lo s))"

definition js_substring_from :: "'a list \<Rightarrow> nat \<Rightarrow> 'a list" where
  "js_substring_from s a = drop (min a (length s)) s"

definition js_slice :: "'a list \<Rightarrow> nat \<Rightarrow> nat \<Rightarrow> 'a list" where
  "js_slice xs a b = take (min b (length xs) - min a (length xs)) (drop (min a (length xs)) xs)"

declare js_trim_def [js_defs] js_substring_def [js_defs] js_substring_from_def [js_defs]
  js_slice_def [js_defs]

definition trimmed :: "jstring \<Rightarrow> bool" where
  "trimmed s \<longleftrightarrow> (s = [] \<or> (\<not> is_ws (hd s) \<and> \<not> is_ws (last s)))"

lemma js_trim_Nil [simp]: "js_trim [] = []"
  by (simp add: js_trim_def)

lemma dropWhile_rev_trimmed:
  "s \<noteq> [] \<Longrightarrow> \<not> is_ws (last s) \<Longrightarrow> dropWhile is_ws (rev s) = rev s"
  by (cases s rule: rev_cases) simp_all

lemma js_trim_trimmed: "trimmed s \<Longrightarrow> js_trim s = s"
proof (cases s)
  case Nil
  then show ?thesis by simp
next
  case (Cons c cs)
  assume "trimmed s"
  with Cons have h: "\<not> is_ws c" and l: "\<not> is_ws (last s)"
    by (simp_all add: trimmed_def)
  from h Cons have "dropWhile is_ws s = s" by simp
  moreover from l Cons have "dropWhile is_ws (rev s) = rev s"
    by (intro dropWhile_rev_trimmed) simp_all
  ultimately show ?thesis by (simp add: js_trim_def)
qed

lemma trimmed_js_trim: "trimmed (js_trim s)"
proof -
  let ?t = "dropWhile is_ws (rev (dropWhile is_ws s))"
  show ?thesis
  proof (cases "?t = []")
    case True
    then show ?thesis by (simp add: js_trim_def trimmed_def)
  next
    case False
    then have "\<not> is_ws (hd ?t)" by (rule hd_dropWhile)
    with False have l: "\<not> is_ws (last (rev ?t))" by (simp add: last_rev)
    obtain u where u: "rev (dropWhile is_ws s) = u @ ?t"
      by (metis takeWhile_dropWhile_id)
    then have "dropWhile is_ws s = rev ?t @ rev u"
      by (metis rev_append rev_rev_ident)
    moreover from False have "dropWhile is_ws s \<noteq> []"
      by (cases "dropWhile is_ws s") simp_all
    ultimately have "hd (rev ?t) = hd (dropWhile is_ws s)"
      using False by (metis hd_append2 rev_is_Nil_conv)
    moreover have "\<not> is_ws (hd (dropWhile is_ws s))"
      using \<open>dropWhile is_ws s \<noteq> []\<close> by (rule hd_dropWhile)
    ultimately show ?thesis using l False by (simp add: js_trim_def trimmed_def)
  qed
qed

lemma js_trim_idem [simp]: "js_trim (js_trim s) = js_trim s"
  by (rule js_trim_trimmed) (rule trimmed_js_trim)

lemma length_js_trim: "length (js_trim s) \<le> length s"
proof -
  have "length (dropWhile is_ws (rev (dropWhile is_ws s))) \<le> length (rev (dropWhile is_ws s))"
    by (rule length_dropWhile_le)
  also have "\<dots> \<le> length s" by (simp add: length_dropWhile_le)
  finally show ?thesis by (simp add: js_trim_def)
qed

lemma set_js_trim: "set (js_trim s) \<subseteq> set s"
proof -
  have "set (dropWhile is_ws (rev (dropWhile is_ws s))) \<subseteq> set (rev (dropWhile is_ws s))"
    by (rule set_dropWhileD [THEN subsetI])
  also have "\<dots> \<subseteq> set s" by (auto dest: set_dropWhileD)
  finally show ?thesis by (simp add: js_trim_def)
qed

lemma js_substring_take: "b \<le> length s \<Longrightarrow> js_substring s 0 b = take b s"
  by (simp add: js_substring_def)

lemma js_substring_from_drop: "js_substring_from s a = drop a s"
  by (simp add: js_substring_from_def min_def)

lemma js_substring_split:
  "js_substring s 0 m @ js_substring_from s m = s"
  by (simp add: js_substring_def js_substring_from_def Let_def min_def)

lemma js_slice_take: "js_slice xs 0 b = take b xs"
  by (simp add: js_slice_def min_def)

lemma length_js_slice_le: "length (js_slice xs 0 b) \<le> b"
  by (simp add: js_slice_take)

section \<open>Numbers and strings\<close>

definition digit_val :: "nat \<Rightarrow> char \<Rightarrow> nat option" where
  "digit_val r c =
     (let n = (of_char c :: nat);
          v = (if 48 \<le> n \<and> n \<le> 57 then Some (n - 48)
               else if 97 \<le> n \<and> n \<le> 122 then Some (n - 87)
               else if 65 \<le> n \<and> n \<le> 90 then Some (n - 55)
               else None)
      in case v of None \<Rightarrow> None | Some d \<Rightarrow> if d < r then Some d else None)"

fun digit_prefix :: "nat \<Rightarrow> jstring \<Rightarrow> nat list" where
  "digit_prefix r [] = []"
| "digit_prefix r (c # cs) =
     (case digit_val r c of None \<Rightarrow> [] | Some d \<Rightarrow> d # digit_prefix r cs)"

definition radix_value :: "nat \<Rightarrow> nat list \<Rightarrow> nat" where
  "radix_value r ds = foldl (\<lambda>acc d. acc * r + d) 0 ds"

definition strip_sign :: "jstring \<Rightarrow> int \<times> jstring" where
  "strip_sign s =
     (case s of
        [] \<Rightarrow> (1, [])
      | c # rest \<Rightarrow>
          if c = CHR ''-'' then (- 1, rest)
          else if c = CHR ''+'' then (1, rest)
          else (1, s))"

definition strip_radix :: "jstring \<Rightarrow> nat \<times> jstring" where
  "strip_radix s =
     (case s of
        a # b # rest \<Rightarrow>
          if a = CHR ''0'' \<and> (b = CHR ''x'' \<or> b = CHR ''X'') then (16, rest) else (10, s)
      | _ \<Rightarrow> (10, s))"

definition parseInt :: "jstring \<Rightarrow> int option" where
  "parseInt input =
     (let (sign, s1) = strip_sign (dropWhile is_ws input);
          (r, s2) = strip_radix s1;
          ds = digit_prefix r s2
      in if ds = [] then None else Some (sign * int (radix_value r ds)))"

definition digit_char :: "nat \<Rightarrow> char" where
  "digit_char d = char_of (48 + d)"

fun nat_to_string :: "nat \<Rightarrow> jstring" where
  "nat_to_string n =
     (if n < 10 then [digit_char n]
      else nat_to_string (n div 10) @ [digit_char (n mod 10)])"

declare nat_to_string.simps [simp del]

definition js_to_string :: "int \<Rightarrow> jstring" where
  "js_to_string i =
     (if i < 0 then CHR ''-'' # nat_to_string (nat (- i)) else nat_to_string (nat i))"

declare digit_val_def [js_defs] strip_sign_def [js_defs] strip_radix_def [js_defs]
  parseInt_def [js_defs] radix_value_def [js_defs] js_to_string_def [js_defs]

lemma digit_char_simps [simp]:
  "digit_char 0 = CHR ''0''" "digit_char 1 = CHR ''1''" "digit_char 2 = CHR ''2''"
  "digit_char 3 = CHR ''3''" "digit_char 4 = CHR ''4''" "digit_char 5 = CHR ''5''"
  "digit_char 6 = CHR ''6''" "digit_char 7 = CHR ''7''" "digit_char 8 = CHR ''8''"
  "digit_char 9 = CHR ''9''"
  by code_simp+

definition is_dec_digit :: "char \<Rightarrow> bool" where
  "is_dec_digit c \<longleftrightarrow> 48 \<le> (of_char c :: nat) \<and> (of_char c :: nat) \<le> 57"

lemma is_dec_digit_char [simp]: "d < 10 \<Longrightarrow> is_dec_digit (digit_char d)"
  by (simp add: is_dec_digit_def digit_char_def)

lemma digit_val_digit_char [simp]: "d < 10 \<Longrightarrow> digit_val 10 (digit_char d) = Some d"
  by (simp add: digit_val_def digit_char_def Let_def)

lemma digit_val_dec: "is_dec_digit c \<Longrightarrow> digit_val 10 c = Some (of_char c - 48)"
  by (auto simp: digit_val_def is_dec_digit_def Let_def)

lemma is_dec_digit_not_ws: "is_dec_digit c \<Longrightarrow> \<not> is_ws c"
  by (auto simp: is_dec_digit_def is_ws_def)

lemma is_dec_digit_not_sign: "is_dec_digit c \<Longrightarrow> c \<noteq> CHR ''-'' \<and> c \<noteq> CHR ''+''"
  by (auto simp: is_dec_digit_def)

lemma is_dec_digit_not_x: "is_dec_digit c \<Longrightarrow> c \<noteq> CHR ''x'' \<and> c \<noteq> CHR ''X''"
  by (auto simp: is_dec_digit_def)

lemma radix_value_snoc: "radix_value r (ds @ [d]) = radix_value r ds * r + d"
  by (simp add: radix_value_def)

lemma digit_prefix_append:
  "list_all is_dec_digit s \<Longrightarrow> digit_prefix 10 (s @ t) = digit_prefix 10 s @ digit_prefix 10 t"
  by (induction s) (simp_all add: digit_val_dec)

lemma digit_prefix_nonempty:
  "list_all is_dec_digit s \<Longrightarrow> s \<noteq> [] \<Longrightarrow> digit_prefix 10 s \<noteq> []"
  by (cases s) (simp_all add: digit_val_dec)

lemma nat_to_string_digits: "list_all is_dec_digit (nat_to_string n)"
proof (induction n rule: nat_to_string.induct)
  case (1 n)
  then show ?case by (subst nat_to_string.simps) simp
qed

lemma nat_to_string_nonempty [simp]: "nat_to_string n \<noteq> []"
  by (subst nat_to_string.simps) simp

lemma radix_value_nat_to_string:
  "radix_value 10 (digit_prefix 10 (nat_to_string n)) = n"
proof (induction n rule: nat_to_string.induct)
  case (1 n)
  show ?case
  proof (cases "n < 10")
    case True
    then show ?thesis
      by (subst nat_to_string.simps) (simp add: radix_value_def)
  next
    case False
    with "1.IH" have "radix_value 10 (digit_prefix 10 (nat_to_string (n div 10))) = n div 10"
      by simp
    with False show ?thesis
      by (subst nat_to_string.simps)
        (simp add: digit_prefix_append nat_to_string_digits radix_value_snoc)
  qed
qed

lemma strip_radix_digits:
  "list_all is_dec_digit s \<Longrightarrow> strip_radix s = (10, s)"
  by (auto simp: strip_radix_def split: list.splits dest: is_dec_digit_not_x)

lemma parseInt_digits:
  assumes "list_all is_dec_digit s" and "s \<noteq> []"
  shows "parseInt s = Some (int (radix_value 10 (digit_prefix 10 s)))"
proof -
  obtain c cs where s: "s = c # cs" using assms(2) by (cases s) simp_all
  with assms(1) have c: "is_dec_digit c" by simp
  then have "dropWhile is_ws s = s"
    using s by (simp add: is_dec_digit_not_ws)
  moreover have "strip_sign s = (1, s)"
    using c s by (simp add: strip_sign_def is_dec_digit_not_sign)
  ultimately show ?thesis
    using assms by (simp add: parseInt_def strip_radix_digits digit_prefix_nonempty)
qed

lemma parseInt_minus_digits:
  assumes "list_all is_dec_digit s" and "s \<noteq> []"
  shows "parseInt (CHR ''-'' # s) = Some (- int (radix_value 10 (digit_prefix 10 s)))"
proof -
  have "\<not> is_ws CHR ''-''" by (simp add: is_ws_def)
  then have "strip_sign (dropWhile is_ws (CHR ''-'' # s)) = (- 1, s)"
    by (simp add: strip_sign_def)
  then show ?thesis
    using assms by (simp add: parseInt_def strip_radix_digits digit_prefix_nonempty)
qed

lemma parseInt_js_to_string: "parseInt (js_to_string i) = Some i"
proof (cases "i < 0")
  case True
  then show ?thesis
    by (simp add: js_to_string_def parseInt_minus_digits nat_to_string_digits
        radix_value_nat_to_string)
next
  case False
  then show ?thesis
    by (simp add: js_to_string_def parseInt_digits nat_to_string_digits
        radix_value_nat_to_string)
qed

lemma js_to_string_inj: "js_to_string i = js_to_string j \<Longrightarrow> i = j"
  by (metis parseInt_js_to_string option.inject)

section \<open>Flag lists\<close>

text \<open>
  Lists of flags with at most one flag set: the shape of the \<^verbatim>\<open>active\<close> classes of
  an accordion.
\<close>

lemma count_True_update_False:
  "count_list (bs[i := False]) True \<le> count_list bs True"
proof (induction bs arbitrary: i)
  case Nil
  show ?case by simp
next
  case (Cons b bs)
  show ?case
  proof (cases i)
    case 0
    then show ?thesis by simp
  next
    case (Suc j)
    with Cons.IH [of j] show ?thesis by simp
  qed
qed

lemma count_True_none: "count_list (map (\<lambda>j. False) xs) True = 0"
  by (induction xs) simp_all

lemma count_True_single:
  "i < n \<Longrightarrow> count_list (map (\<lambda>j. j = i) [0..<n]) True = 1"
proof (induction n)
  case 0
  then show ?case by simp
next
  case (Suc n)
  show ?case
  proof (cases "i = n")
    case True
    have "map (\<lambda>j. j = n) [0..<n] = map (\<lambda>j. False) [0..<n]"
      by (intro map_cong) auto
    with True show ?thesis by (simp add: count_True_none)
  next
    case False
    with Suc show ?thesis by simp
  qed
qed

lemma count_True_pos: "k < length bs \<Longrightarrow> bs ! k \<Longrightarrow> 0 < count_list bs True"
  using count_list_0_iff [of bs True] by (fastforce simp: in_set_conv_nth)

lemma count_True_le_one_unique:
  assumes "count_list bs True \<le> 1" and "i < length bs" and "j < length bs"
    and "bs ! i" and "bs ! j"
  shows "i = j"
  using assms
proof (induction bs arbitrary: i j)
  case Nil
  then show ?case by simp
next
  case (Cons b bs)
  show ?case
  proof (cases b)
    case True
    with Cons.prems(1) have "\<not> bs ! k" if "k < length bs" for k
      using count_True_pos [OF that] by fastforce
    with Cons.prems show ?thesis by (cases i; cases j) auto
  next
    case False
    with Cons.prems Cons.IH show ?thesis by (cases i; cases j) auto
  qed
qed

lemma list_all_update: "list_all P xs \<Longrightarrow> P y \<Longrightarrow> list_all P (xs[i := y])"
  by (auto simp: list_all_iff dest!: set_update_subset_insert [THEN subsetD])

end
