(* ===== verification/Data_Loader.thy ===== *)
theory Data_Loader
  imports JS_Prelude
begin

text \<open>
  The data loader: the \<^verbatim>\<open>try\<close> block that fetches \<^verbatim>\<open>content.json\<close> and
  \<^verbatim>\<open>llm-interpretation.json\<close> and sorts the events (\<^verbatim>\<open>src/script.js\<close>, lines
  5-31), and the merge of each event with the interpretation of its year (lines
  37-45).

  The two documents are typed values: an event is a \<open>content_item\<close>, the
  interpretations are a map from the year key to an \<open>llm_interpretation\<close>. What the
  network and the JSON parser did is an input, a \<open>fetch_result\<close>: the promise of
  \<^verbatim>\<open>fetch\<close> was rejected, or it resolved to a response with its \<^verbatim>\<open>ok\<close> flag, its
  status text and the outcome of \<^verbatim>\<open>json()\<close>. Every \<^verbatim>\<open>throw\<close> and every rejected
  \<^verbatim>\<open>await\<close> of the block is an \<open>Inl\<close> with the message that the \<^verbatim>\<open>catch\<close> clause
  shows. \<open>load_data\<close> also returns the requests it issued, in order, so that
  the sequencing of the two fetches can be stated.

  \<^verbatim>\<open>Array.prototype.sort\<close> with a comparator is modelled by \<open>js_sort\<close>, an
  insertion sort that moves each element to the left while the comparator puts
  its neighbour after it; a comparator result of \<^verbatim>\<open>NaN\<close> (\<open>None\<close>) counts as 0, as
  the standard prescribes. The standard fixes the result only for a consistent
  comparator: there \<open>js_sort\<close> is proved equal to the library's stable
  \<^const>\<open>sort_key\<close>, so any conforming engine computes the same list. Years are
  compared as integers, which is exact for the numbers below \<open>2^53\<close> that
  JavaScript represents exactly.

  The interpretations are looked up in a map from keys to values: properties
  that a JavaScript object inherits from its prototype (a year spelled
  \<^verbatim>\<open>constructor\<close>) are outside the model, and so are documents that do not have
  the shape of the two record types.

  Limits of the typed documents. A year is a string or an integral number;
  \<open>YearNum n\<close> stands for a JSON number that is an integer below \<open>10^21\<close> in
  absolute value, where \<^verbatim>\<open>String(n)\<close> is the decimal numeral (from \<open>10^21\<close> on it is
  in exponent form, which \<open>js_to_string\<close> does not produce), and a fractional year
  is not representable. \<^verbatim>\<open>parseInt\<close> returns a double: two years that differ only
  beyond \<open>2^53\<close> compare equal in an engine and differ here. An object of the
  document (\<open>skills_matrix\<close>) is the list of its own properties in the order in
  which the engine enumerates them, so its keys are distinct and integer-like
  keys come first; \<^verbatim>\<open>Object.keys\<close> and \<^verbatim>\<open>Object.values\<close> read this list off.
\<close>

section \<open>Documents\<close>

datatype year_key = YearStr jstring | YearNum int

fun year_string :: "year_key \<Rightarrow> jstring" where
  "year_string (YearStr s) = s"
| "year_string (YearNum n) = js_to_string n"

record career_match =
  role :: jstring
  match_percentage :: int

record llm_interpretation =
  skills_matrix :: "(jstring \<times> int) list"
  top_career_matches :: "career_match list"
  analysis_summary :: jstring

record content_item =
  year :: year_key
  title :: jstring
  description :: jstring
  images :: "jstring list"

record year_record = content_item +
  skills :: "(jstring \<times> int) list"
  matches :: "career_match list"
  aiSummary :: jstring

type_synonym llm_data = "jstring \<rightharpoonup> llm_interpretation"

section \<open>Fetching\<close>

datatype 'a response = Response (ok: bool) (statusText: jstring) (json_body: "jstring + 'a")

datatype 'a fetch_result = Rejected jstring | Resolved "'a response"

record network =
  content_json :: "content_item list fetch_result"
  llm_json :: "llm_data fetch_result"

definition load_document :: "jstring \<Rightarrow> 'a fetch_result \<Rightarrow> jstring + 'a" where
  "load_document name r =
     (case r of
        Rejected msg \<Rightarrow> Inl msg
      | Resolved resp \<Rightarrow>
          if \<not> ok resp then Inl (''Failed to load '' @ name @ '': '' @ statusText resp)
          else json_body resp)"

section \<open>Sorting by year\<close>

definition sort_compare :: "('a \<Rightarrow> 'a \<Rightarrow> int option) \<Rightarrow> 'a \<Rightarrow> 'a \<Rightarrow> int" where
  "sort_compare cmp x y = (case cmp x y of None \<Rightarrow> 0 | Some v \<Rightarrow> v)"

fun sort_insert :: "('a \<Rightarrow> 'a \<Rightarrow> int option) \<Rightarrow> 'a \<Rightarrow> 'a list \<Rightarrow> 'a list" where
  "sort_insert cmp x [] = [x]"
| "sort_insert cmp x (y # ys) =
     (if 0 < sort_compare cmp y x then y # sort_insert cmp x ys else x # y # ys)"

fun insertion_pass :: "('a \<Rightarrow> 'a \<Rightarrow> int option) \<Rightarrow> 'a list \<Rightarrow> 'a list \<Rightarrow> 'a list" where
  "insertion_pass cmp acc [] = rev acc"
| "insertion_pass cmp acc (x # xs) = insertion_pass cmp (sort_insert cmp x acc) xs"

definition js_sort :: "('a \<Rightarrow> 'a \<Rightarrow> int option) \<Rightarrow> 'a list \<Rightarrow> 'a list" where
  "js_sort cmp xs = insertion_pass cmp [] xs"

definition year_cmp :: "content_item \<Rightarrow> content_item \<Rightarrow> int option" where
  "year_cmp a b =
     (case (parseInt (year_string (year a)), parseInt (year_string (year b))) of
        (Some x, Some y) \<Rightarrow> Some (x - y)
      | _ \<Rightarrow> None)"

definition load_data ::
  "network \<Rightarrow> (jstring + content_item list \<times> llm_data) \<times> jstring list" where
  "load_data net =
     (case load_document ''content.json'' (content_json net) of
        Inl msg \<Rightarrow> (Inl msg, [''content.json''])
      | Inr contentData \<Rightarrow>
          (case load_document ''llm-interpretation.json'' (llm_json net) of
             Inl msg \<Rightarrow> (Inl msg, [''content.json'', ''llm-interpretation.json''])
           | Inr llmData \<Rightarrow>
               (Inr (js_sort year_cmp contentData, llmData),
                [''content.json'', ''llm-interpretation.json''])))"

definition error_html :: "jstring \<Rightarrow> jstring" where
  "error_html msg =
     ''<div style=\"padding: 20px; color: red;\">Error loading data: '' @ msg
       @ ''. Please ensure content.json and llm-interpretation.json exist.</div>''"

section \<open>Merging\<close>

definition merge_item :: "llm_data \<Rightarrow> content_item \<Rightarrow> year_record" where
  "merge_item llmData item =
     (let interpretation = llmData (year_string (year item))
      in \<lparr> year = year item, title = title item, description = description item,
           images = images item,
           skills = (case interpretation of Some i \<Rightarrow> skills_matrix i | None \<Rightarrow> []),
           matches = (case interpretation of Some i \<Rightarrow> top_career_matches i | None \<Rightarrow> []),
           aiSummary = (case interpretation of Some i \<Rightarrow> analysis_summary i
                        | None \<Rightarrow> ''No analysis available.'') \<rparr>)"

definition merge_data :: "llm_data \<Rightarrow> content_item list \<Rightarrow> year_record list" where
  "merge_data llmData contentData = map (merge_item llmData) contentData"

text \<open>
  The numeric reading of a year, and the documents whose years all have one.
\<close>

definition year_num :: "'a content_item_scheme \<Rightarrow> int" where
  "year_num e = (case parseInt (year_string (year e)) of Some n \<Rightarrow> n | None \<Rightarrow> 0)"

definition numeric_years :: "content_item list \<Rightarrow> bool" where
  "numeric_years xs \<longleftrightarrow> list_all (\<lambda>e. parseInt (year_string (year e)) \<noteq> None) xs"

definition key_consistent :: "('a \<Rightarrow> int) \<Rightarrow> ('a \<Rightarrow> 'a \<Rightarrow> int option) \<Rightarrow> 'a set \<Rightarrow> bool" where
  "key_consistent f cmp A \<longleftrightarrow> (\<forall>x \<in> A. \<forall>y \<in> A. sort_compare cmp x y = f x - f y)"

section \<open>The sort is a permutation\<close>

lemma mset_sort_insert [simp]: "mset (sort_insert cmp x acc) = add_mset x (mset acc)"
  by (induction acc) simp_all

lemma set_sort_insert [simp]: "set (sort_insert cmp x acc) = insert x (set acc)"
  by (induction acc) auto

lemma mset_insertion_pass: "mset (insertion_pass cmp acc xs) = mset acc + mset xs"
  by (induction xs arbitrary: acc) simp_all

lemma mset_js_sort [simp]: "mset (js_sort cmp xs) = mset xs"
  by (simp add: js_sort_def mset_insertion_pass)

lemma set_js_sort [simp]: "set (js_sort cmp xs) = set xs"
  by (metis mset_js_sort set_mset_mset)

lemma length_js_sort [simp]: "length (js_sort cmp xs) = length xs"
  by (metis mset_js_sort size_mset)

section \<open>A consistent comparator sorts, stably\<close>

abbreviation descending :: "('a \<Rightarrow> int) \<Rightarrow> 'a list \<Rightarrow> bool" where
  "descending f acc \<equiv> sorted_wrt (\<lambda>a b. f b \<le> f a) acc"

lemma key_consistent_mono: "key_consistent f cmp A \<Longrightarrow> B \<subseteq> A \<Longrightarrow> key_consistent f cmp B"
  by (auto simp: key_consistent_def)

lemma key_consistent_gt:
  "key_consistent f cmp A \<Longrightarrow> x \<in> A \<Longrightarrow> y \<in> A \<Longrightarrow> 0 < sort_compare cmp y x \<longleftrightarrow> f x < f y"
  by (auto simp: key_consistent_def)

lemma descending_sort_insert:
  assumes "key_consistent f cmp (insert x (set acc))" and "descending f acc"
  shows "descending f (sort_insert cmp x acc)"
  using assms
proof (induction acc)
  case Nil
  then show ?case by simp
next
  case (Cons y ys)
  from Cons.prems(1) have gt: "0 < sort_compare cmp y x \<longleftrightarrow> f x < f y"
    by (intro key_consistent_gt [of f cmp "insert x (set (y # ys))"]) simp_all
  from Cons.prems(1) have "key_consistent f cmp (insert x (set ys))"
    by (rule key_consistent_mono) auto
  with Cons have "descending f (sort_insert cmp x ys)" by simp
  with Cons.prems(2) gt show ?case by auto
qed

lemma filter_sort_insert:
  assumes "key_consistent f cmp (insert x (set acc))"
  shows "filter (\<lambda>y. f y = k) (sort_insert cmp x acc)
    = (if f x = k then x # filter (\<lambda>y. f y = k) acc else filter (\<lambda>y. f y = k) acc)"
  using assms
proof (induction acc)
  case Nil
  then show ?case by simp
next
  case (Cons y ys)
  from Cons.prems have gt: "0 < sort_compare cmp y x \<longleftrightarrow> f x < f y"
    by (intro key_consistent_gt [of f cmp "insert x (set (y # ys))"]) simp_all
  from Cons.prems have "key_consistent f cmp (insert x (set ys))"
    by (rule key_consistent_mono) auto
  with Cons.IH gt show ?case by auto
qed

lemma insertion_pass_sorted:
  assumes "key_consistent f cmp (set acc \<union> set xs)" and "descending f acc"
  shows "sorted (map f (insertion_pass cmp acc xs))"
  using assms
proof (induction xs arbitrary: acc)
  case Nil
  then show ?case by (simp add: sorted_map sorted_wrt_rev)
next
  case (Cons x xs)
  from Cons.prems(1) have "key_consistent f cmp (insert x (set acc))"
    by (rule key_consistent_mono) auto
  then have "descending f (sort_insert cmp x acc)"
    using Cons.prems(2) by (rule descending_sort_insert)
  moreover from Cons.prems(1) have "key_consistent f cmp (set (sort_insert cmp x acc) \<union> set xs)"
    by (rule key_consistent_mono) auto
  ultimately show ?case using Cons.IH by simp
qed

lemma insertion_pass_stable:
  assumes "key_consistent f cmp (set acc \<union> set xs)"
  shows "filter (\<lambda>y. f y = k) (insertion_pass cmp acc xs)
    = filter (\<lambda>y. f y = k) (rev acc) @ filter (\<lambda>y. f y = k) xs"
  using assms
proof (induction xs arbitrary: acc)
  case Nil
  then show ?case by simp
next
  case (Cons x xs)
  from Cons.prems have c: "key_consistent f cmp (insert x (set acc))"
    by (rule key_consistent_mono) auto
  from Cons.prems have "key_consistent f cmp (set (sort_insert cmp x acc) \<union> set xs)"
    by (rule key_consistent_mono) auto
  from Cons.IH [OF this] show ?case
    by (simp add: filter_sort_insert [OF c] flip: rev_filter)
qed

lemma js_sort_sorted:
  "key_consistent f cmp (set xs) \<Longrightarrow> sorted (map f (js_sort cmp xs))"
  by (simp add: js_sort_def insertion_pass_sorted)

lemma js_sort_stable:
  "key_consistent f cmp (set xs) \<Longrightarrow>
     filter (\<lambda>y. f y = k) (js_sort cmp xs) = filter (\<lambda>y. f y = k) xs"
  by (simp add: js_sort_def insertion_pass_stable)

lemma js_sort_eq_sort_key:
  assumes "key_consistent f cmp (set xs)"
  shows "js_sort cmp xs = sort_key f xs"
proof (rule properties_for_sort_key [symmetric])
  show "mset (js_sort cmp xs) = mset xs" by simp
  show "sorted (map f (js_sort cmp xs))" using assms by (rule js_sort_sorted)
  fix k
  have "filter (\<lambda>x. f x = f k) (js_sort cmp xs) = filter (\<lambda>x. f x = f k) xs"
    using assms by (rule js_sort_stable)
  then show "filter (\<lambda>x. f k = f x) (js_sort cmp xs) = filter (\<lambda>x. f k = f x) xs"
    by (simp add: eq_commute)
qed

section \<open>The year comparator\<close>

lemma year_cmp_consistent:
  assumes "numeric_years xs"
  shows "key_consistent year_num year_cmp (set xs)"
  unfolding key_consistent_def
proof (intro ballI)
  fix x y
  assume "x \<in> set xs" and "y \<in> set xs"
  with assms obtain a b where "parseInt (year_string (year x)) = Some a"
    and "parseInt (year_string (year y)) = Some b"
    unfolding numeric_years_def list_all_iff by blast
  then show "sort_compare year_cmp x y = year_num x - year_num y"
    by (simp add: sort_compare_def year_cmp_def year_num_def)
qed

section \<open>The branches of the loader\<close>

lemma load_document_simps [simp]:
  "load_document name (Rejected msg) = Inl msg"
  "\<not> b \<Longrightarrow> load_document name (Resolved (Response b st body))
     = Inl (''Failed to load '' @ name @ '': '' @ st)"
  "load_document name (Resolved (Response True st body)) = body"
  by (simp_all add: load_document_def)

lemma load_document_Inr_iff:
  "load_document name r = Inr v \<longleftrightarrow> (\<exists>st. r = Resolved (Response True st (Inr v)))"
proof (cases r)
  case (Rejected msg)
  then show ?thesis by simp
next
  case (Resolved resp)
  then show ?thesis by (cases resp) (auto simp: load_document_def)
qed

lemma load_data_Inr_iff:
  "fst (load_data net) = Inr (c, l) \<longleftrightarrow>
     (\<exists>c0. load_document ''content.json'' (content_json net) = Inr c0
        \<and> load_document ''llm-interpretation.json'' (llm_json net) = Inr l
        \<and> c = js_sort year_cmp c0)"
  by (auto simp: load_data_def split: sum.splits)

lemma merge_item_fields [simp]:
  "year (merge_item l e) = year e" "title (merge_item l e) = title e"
  "description (merge_item l e) = description e" "images (merge_item l e) = images e"
  by (simp_all add: merge_item_def Let_def)

lemma length_merge_data [simp]: "length (merge_data l c) = length c"
  by (simp add: merge_data_def)

lemma merge_data_nth:
  "i < length c \<Longrightarrow> merge_data l c ! i = merge_item l (c ! i)"
  by (simp add: merge_data_def)

section \<open>Sample documents\<close>

text \<open>
  Two small documents on which the witnesses of the development evaluate: three
  events out of order, and an interpretation for one of the three years.
\<close>

definition sample_item :: "jstring \<Rightarrow> content_item" where
  "sample_item y =
     \<lparr> year = YearStr y, title = ''Year '' @ y, description = ''What happened in '' @ y,
       images = [''img/'' @ y @ ''.jpg''] \<rparr>"

definition sample_content :: "content_item list" where
  "sample_content = [sample_item ''2021'', sample_item ''2019'', sample_item ''2020'']"

definition sample_llm :: llm_data where
  "sample_llm =
     [''2021'' \<mapsto>
        \<lparr> skills_matrix = [(''Python'', 80), (''Design'', 55)],
          top_career_matches =
            [\<lparr>role = ''Senior Backend Engineer'', match_percentage = 90\<rparr>,
             \<lparr>role = ''CEO'', match_percentage = 12\<rparr>],
          analysis_summary = ''A strong year.'' \<rparr>]"

definition sample_network :: network where
  "sample_network =
     \<lparr> content_json = Resolved (Response True ''OK'' (Inr sample_content)),
       llm_json = Resolved (Response True ''OK'' (Inr sample_llm)) \<rparr>"

definition sample_records :: "year_record list" where
  "sample_records = merge_data sample_llm (js_sort year_cmp sample_content)"

lemma length_sample_records [simp]: "length sample_records = 3"
  by (simp add: sample_records_def sample_content_def)

lemma year_num_merge_item [simp]: "year_num (merge_item l e) = year_num e"
  by (simp add: year_num_def)

lemma numeric_years_sample: "numeric_years sample_content"
  by code_simp

section \<open>Properties\<close>

text \<open>
  C9: when every year of the events document has a numeric reading, the merged
  records are in ascending order of the numeric year.
\<close>

theorem merged_sorted_by_year:
  assumes "numeric_years contentData"
  shows "sorted (map year_num (merge_data llmData (js_sort year_cmp contentData)))"
proof -
  have "map year_num (merge_data llmData (js_sort year_cmp contentData))
      = map year_num (js_sort year_cmp contentData)"
    by (simp add: merge_data_def comp_def)
  with assms show ?thesis
    by (simp add: js_sort_sorted year_cmp_consistent)
qed

theorem merged_sorted_by_year_witness:
  "numeric_years sample_content
   \<and> sorted (map year_num (merge_data sample_llm (js_sort year_cmp sample_content)))
   \<and> map year_num (merge_data sample_llm (js_sort year_cmp sample_content)) = [2019, 2020, 2021]"
proof -
  have "map year_num (merge_data sample_llm (js_sort year_cmp sample_content)) = [2019, 2020, 2021]"
    by code_simp
  with merged_sorted_by_year [OF numeric_years_sample, of sample_llm] numeric_years_sample
  show ?thesis by simp
qed

text \<open>
  C12: on events whose years are all numeric the comparator sort of the script
  is the stable sort by numeric year: the events are in ascending order of the
  year and events of the same year keep the order of the document.
\<close>

theorem sort_by_year_is_stable_sort:
  assumes "numeric_years contentData"
  shows "js_sort year_cmp contentData = sort_key year_num contentData"
  using assms by (intro js_sort_eq_sort_key year_cmp_consistent)

theorem sort_by_year_is_stable_sort_witness:
  "numeric_years sample_content
   \<and> js_sort year_cmp sample_content = sort_key year_num sample_content"
  using sort_by_year_is_stable_sort [OF numeric_years_sample] numeric_years_sample by simp

text \<open>
  C16: when the response for \<^verbatim>\<open>content.json\<close> is not successful, loading fails with
  a message that holds the status text of that response, and the second
  document is never requested.
\<close>

theorem load_content_failure:
  assumes "content_json net = Resolved (Response False st body)"
  shows "load_data net = (Inl (''Failed to load content.json: '' @ st), [''content.json''])"
  using assms by (simp add: load_data_def)

theorem load_content_failure_witness:
  "content_json (sample_network\<lparr>content_json := Resolved (Response False ''Not Found'' (Inl []))\<rparr>)
     = Resolved (Response False ''Not Found'' (Inl []))
   \<and> load_data (sample_network\<lparr>content_json := Resolved (Response False ''Not Found'' (Inl []))\<rparr>)
     = (Inl ''Failed to load content.json: Not Found'', [''content.json''])"
  using load_content_failure
    [of "sample_network\<lparr>content_json := Resolved (Response False ''Not Found'' (Inl []))\<rparr>"
      "''Not Found''" "Inl []"]
  by simp

text \<open>
  C17: loading fails exactly when the first document fails, or the first
  succeeds and the second fails; the message is the one of the failing step
  (the rejection reason of the fetch, the status text, or the parse error).
\<close>

theorem load_error_iff:
  "fst (load_data net) = Inl msg \<longleftrightarrow>
     load_document ''content.json'' (content_json net) = Inl msg
     \<or> ((\<exists>c. load_document ''content.json'' (content_json net) = Inr c)
        \<and> load_document ''llm-interpretation.json'' (llm_json net) = Inl msg)"
  by (auto simp: load_data_def split: sum.splits)

theorem load_error_iff_witness:
  "fst (load_data (sample_network\<lparr>llm_json := Rejected ''Failed to fetch''\<rparr>))
     = Inl ''Failed to fetch''
   \<and> load_document ''content.json'' (content_json sample_network) = Inr sample_content
   \<and> load_document ''llm-interpretation.json'' (Rejected ''Failed to fetch'' :: llm_data fetch_result)
       = Inl ''Failed to fetch''"
  using load_error_iff [of "sample_network\<lparr>llm_json := Rejected ''Failed to fetch''\<rparr>"
      "''Failed to fetch''"]
  by (simp add: sample_network_def)

text \<open>
  C18: an event whose year has no interpretation is merged with the defaults: no
  skills, no career matches and the placeholder summary; its own fields are
  kept.
\<close>

theorem merge_without_interpretation:
  assumes "llmData (year_string (year e)) = None"
  shows "merge_item llmData e
    = \<lparr> year = year e, title = title e, description = description e, images = images e,
        skills = [], matches = [], aiSummary = ''No analysis available.'' \<rparr>"
  using assms by (simp add: merge_item_def)

theorem merge_without_interpretation_witness:
  "Map.empty (year_string (year (sample_item ''2020''))) = (None :: llm_interpretation option)
   \<and> merge_item Map.empty (sample_item ''2020'')
     = \<lparr> year = YearStr ''2020'', title = ''Year 2020'',
         description = ''What happened in 2020'', images = [''img/2020.jpg''],
         skills = [], matches = [], aiSummary = ''No analysis available.'' \<rparr>"
  using merge_without_interpretation [of Map.empty "sample_item ''2020''"]
  by (simp add: sample_item_def)

text \<open>
  C38: a year that is not a number compares equal to every year. When the year of
  an event does not start with a number, \<^verbatim>\<open>parseInt\<close> gives \<^verbatim>\<open>NaN\<close>, the comparator
  returns \<^verbatim>\<open>NaN\<close> in both directions and the sort treats the event as equal to any
  other. (On the document of the witness the events 2021 and 2019 on the two
  sides of such an event stay in the wrong order.)
\<close>

theorem unparsable_year_compares_equal:
  assumes "parseInt (year_string (year b)) = None"
  shows "sort_compare year_cmp a b = 0 \<and> sort_compare year_cmp b a = 0"
  using assms by (simp add: sort_compare_def year_cmp_def split: option.splits)

theorem unparsable_year_compares_equal_witness:
  "parseInt (year_string (year (sample_item ''n/a''))) = None
   \<and> sort_compare year_cmp (sample_item ''2021'') (sample_item ''n/a'') = 0
   \<and> sort_compare year_cmp (sample_item ''n/a'') (sample_item ''2019'') = 0
   \<and> 0 < sort_compare year_cmp (sample_item ''2021'') (sample_item ''2019'')
   \<and> map year (js_sort year_cmp [sample_item ''2021'', sample_item ''n/a'', sample_item ''2019''])
     = [YearStr ''2021'', YearStr ''n/a'', YearStr ''2019'']"
proof -
  have h: "parseInt (year_string (year (sample_item ''n/a''))) = None" by code_simp
  have c: "0 < sort_compare year_cmp (sample_item ''2021'') (sample_item ''2019'')"
    by code_simp
  have s: "map year (js_sort year_cmp
      [sample_item ''2021'', sample_item ''n/a'', sample_item ''2019''])
    = [YearStr ''2021'', YearStr ''n/a'', YearStr ''2019'']"
    by code_simp
  from unparsable_year_compares_equal [OF h, of "sample_item ''2021''"]
    unparsable_year_compares_equal [OF h, of "sample_item ''2019''"] h c s
  show ?thesis by simp
qed

end
