(* ===== verification/Label_Wrap.thy ===== *)
theory Label_Wrap
  imports JS_Prelude
begin

text \<open>
  The label wrapping heuristic of the per-item radar chart: the closure
  \<^verbatim>\<open>wrapLabel\<close> inside \<^verbatim>\<open>toggleGraphView\<close> (\<^verbatim>\<open>src/script.js\<close>, lines 263-294).
  \<open>wrap_loop\<close> is its \<^verbatim>\<open>for\<close> loop, with the list of words not yet visited as
  the loop variable; \<open>wrapLabel\<close> is the whole function with the line width as
  an explicit argument, \<open>wrapLabel18\<close> the call with the default width.
  The lemmas give the result on every branch, bound the first line, show that
  a well-spaced label is cut at the last word boundary that fits, and that the
  result has at most one line break.
\<close>

section \<open>Definitions\<close>

fun wrap_loop :: "nat \<Rightarrow> jstring \<Rightarrow> jstring list \<Rightarrow> jstring \<times> jstring" where
  "wrap_loop targetLength firstLine [] = (firstLine, [])"
| "wrap_loop targetLength firstLine (w # ws) =
     (let testLine = js_trim (firstLine @ [SP] @ w)
      in if length testLine \<le> targetLength + 5
         then wrap_loop targetLength testLine ws
         else (firstLine, js_join [SP] (w # ws)))"

definition wrapLabel :: "jstring \<Rightarrow> nat \<Rightarrow> jstring" where
  "wrapLabel label maxCharsPerLine =
     (if length label \<le> maxCharsPerLine then label
      else
        let words = split_on SP label in
        if length words = 1 then
          (let mid = length label div 2
           in js_substring label 0 mid @ [NL] @ js_substring_from label mid)
        else
          (let targetLength = length label div 2;
               (firstLine, secondLine) = wrap_loop targetLength [] words
           in if secondLine \<noteq> [] then firstLine @ [NL] @ secondLine else label))"

definition wrapLabel18 :: "jstring \<Rightarrow> jstring" where
  "wrapLabel18 label = wrapLabel label 18"

text \<open>
  A word is \<open>solid\<close> when it is not empty and holds no white space; a label is
  \<open>well_spaced\<close> when all the words between its spaces are solid, that is when
  it has no leading, trailing or doubled space and no other white space.
\<close>

definition solid :: "jstring \<Rightarrow> bool" where
  "solid w \<longleftrightarrow> w \<noteq> [] \<and> list_all (\<lambda>c. \<not> is_ws c) w"

definition well_spaced :: "jstring \<Rightarrow> bool" where
  "well_spaced label \<longleftrightarrow> list_all solid (split_on SP label)"

section \<open>The branches of wrapLabel\<close>

lemma wrapLabel_short: "length label \<le> m \<Longrightarrow> wrapLabel label m = label"
  by (simp add: wrapLabel_def)

lemma wrapLabel_single:
  assumes "m < length label" and "SP \<notin> set label"
  shows "wrapLabel label m =
    take (length label div 2) label @ [NL] @ drop (length label div 2) label"
  using assms
  by (simp add: wrapLabel_def split_on_no_sep js_substring_take js_substring_from_drop Let_def)

lemma wrapLabel_multi:
  assumes "m < length label" and "SP \<in> set label"
  shows "wrapLabel label m =
    (case wrap_loop (length label div 2) [] (split_on SP label) of
       (firstLine, secondLine) \<Rightarrow>
         if secondLine \<noteq> [] then firstLine @ [NL] @ secondLine else label)"
proof -
  from assms(2) have "length (split_on SP label) \<noteq> 1"
    using split_on_single_iff [of SP label] by simp
  with assms(1) show ?thesis
    by (simp add: wrapLabel_def Let_def)
qed

section \<open>The loop\<close>

lemma wrap_loop_first_bound:
  "length f \<le> t + 5 \<Longrightarrow> length (fst (wrap_loop t f ws)) \<le> t + 5"
  by (induction ws arbitrary: f) (simp_all add: Let_def)

lemma wrap_loop_chars:
  "set (fst (wrap_loop t f ws)) \<union> set (snd (wrap_loop t f ws))
     \<subseteq> set f \<union> {SP} \<union> \<Union> (set ` set ws)"
proof (induction ws arbitrary: f)
  case Nil
  show ?case by auto
next
  case (Cons w ws)
  let ?test = "js_trim (f @ [SP] @ w)"
  show ?case
  proof (cases "length ?test \<le> t + 5")
    case True
    have "set ?test \<subseteq> set f \<union> {SP} \<union> set w"
      using set_js_trim [of "f @ [SP] @ w"] by auto
    with Cons.IH [of ?test] True show ?thesis by (auto simp: Let_def)
  next
    case False
    have "set (js_join [SP] (w # ws)) \<subseteq> {SP} \<union> \<Union> (set ` set (w # ws))"
      using set_js_join [of "[SP]" "w # ws"] by simp
    with False show ?thesis by (auto simp: Let_def)
  qed
qed

lemma solid_trimmed: "solid w \<Longrightarrow> trimmed w"
  by (cases w rule: rev_cases) (auto simp: solid_def trimmed_def hd_append list_all_iff)

lemma solid_hd: "solid w \<Longrightarrow> \<not> is_ws (hd w)"
  by (cases w) (simp_all add: solid_def)

lemma solid_last: "solid w \<Longrightarrow> \<not> is_ws (last w)"
  by (cases w rule: rev_cases) (simp_all add: solid_def)

lemma solid_nonempty: "solid w \<Longrightarrow> w \<noteq> []"
  by (simp add: solid_def)

lemma js_join_solid_hd:
  "us \<noteq> [] \<Longrightarrow> list_all solid us \<Longrightarrow>
     js_join [SP] us \<noteq> [] \<and> \<not> is_ws (hd (js_join [SP] us))"
  by (induction "[SP]" us rule: js_join.induct)
    (auto simp: hd_append dest: solid_hd solid_nonempty)

lemma js_trim_snoc_word:
  assumes "list_all solid us" and "solid w"
  shows "js_trim (js_join [SP] us @ [SP] @ w) = js_join [SP] (us @ [w])"
proof (cases "us = []")
  case True
  have "dropWhile is_ws (SP # w) = w"
    using assms(2) by (cases w) (simp_all add: solid_def)
  then have "js_trim (SP # w) = js_trim w"
    by (simp add: js_trim_def)
  with True assms(2) show ?thesis
    by (simp add: js_trim_trimmed solid_trimmed)
next
  case False
  let ?s = "js_join [SP] us @ [SP] @ w"
  from False assms(1) have "js_join [SP] us \<noteq> []" and "\<not> is_ws (hd (js_join [SP] us))"
    using js_join_solid_hd by blast+
  then have "\<not> is_ws (hd ?s)" by (simp add: hd_append)
  moreover have "\<not> is_ws (last ?s)"
    using assms(2) by (simp add: solid_last solid_def)
  ultimately have "trimmed ?s" by (simp add: trimmed_def)
  then have "js_trim ?s = ?s" by (rule js_trim_trimmed)
  with False show ?thesis by (simp add: js_join_append)
qed

text \<open>
  On solid words the loop cuts the word list at an index \<open>k\<close>: the first line is
  the join of the first \<open>k\<close> words and fits the bound, and when words are left the
  next word would not have fitted.
\<close>

lemma wrap_loop_solid:
  assumes "list_all solid us" and "list_all solid ws"
  shows "\<exists>k \<le> length ws.
    wrap_loop t (js_join [SP] us) ws
      = (js_join [SP] (us @ take k ws), js_join [SP] (drop k ws))
    \<and> (k < length ws \<longrightarrow> t + 5 < length (js_join [SP] (us @ take (Suc k) ws)))"
  using assms
proof (induction ws arbitrary: us)
  case Nil
  then show ?case by simp
next
  case (Cons w ws)
  from Cons.prems have w: "solid w" and ws: "list_all solid ws" by simp_all
  have test: "js_trim (js_join [SP] us @ [SP] @ w) = js_join [SP] (us @ [w])"
    using Cons.prems(1) w by (rule js_trim_snoc_word)
  show ?case
  proof (cases "length (js_join [SP] (us @ [w])) \<le> t + 5")
    case True
    from Cons.prems(1) w have "list_all solid (us @ [w])" by simp
    from Cons.IH [OF this ws] obtain k where k: "k \<le> length ws"
      "wrap_loop t (js_join [SP] (us @ [w])) ws
         = (js_join [SP] ((us @ [w]) @ take k ws), js_join [SP] (drop k ws))"
      "k < length ws \<longrightarrow> t + 5 < length (js_join [SP] ((us @ [w]) @ take (Suc k) ws))"
      by blast
    with True test show ?thesis
      by (intro exI [of _ "Suc k"]) (simp add: Let_def)
  next
    case False
    with test show ?thesis
      by (intro exI [of _ 0]) (simp add: Let_def)
  qed
qed

lemma js_join_solid_nonempty:
  "ws \<noteq> [] \<Longrightarrow> list_all solid ws \<Longrightarrow> js_join [SP] ws \<noteq> []"
  using js_join_solid_hd by blast

lemma solid_no_NL: "solid w \<Longrightarrow> NL \<notin> set w"
  by (auto simp: solid_def list_all_iff)

lemma js_join_solid_no_NL: "list_all solid ws \<Longrightarrow> NL \<notin> set (js_join [SP] ws)"
  using set_js_join [of "[SP]" ws] by (auto simp: list_all_iff dest: solid_no_NL)

lemma list_all_take_drop:
  "list_all P xs \<Longrightarrow> list_all P (take k xs) \<and> list_all P (drop k xs)"
  by (metis append_take_drop_id list_all_append)

text \<open>
  The cut of a long well-spaced label: the index \<open>k\<close> of \<open>wrap_loop_solid\<close>
  is smaller than the number of words as soon as the width is at least 10, since
  the whole label is then longer than half its length plus five.
\<close>

lemma wrapLabel_cut:
  assumes ws: "well_spaced label" and sp: "SP \<in> set label"
    and m: "10 \<le> m" "m < length label"
  shows "\<exists>k < length (split_on SP label).
    wrapLabel label m
      = js_join [SP] (take k (split_on SP label)) @ [NL]
          @ js_join [SP] (drop k (split_on SP label))
    \<and> length (js_join [SP] (take k (split_on SP label))) \<le> length label div 2 + 5
    \<and> length label div 2 + 5 < length (js_join [SP] (take (Suc k) (split_on SP label)))"
proof -
  let ?ws = "split_on SP label" and ?t = "length label div 2"
  from ws have solid: "list_all solid ?ws" by (simp add: well_spaced_def)
  from wrap_loop_solid [of "[]" ?ws ?t] solid obtain k where k: "k \<le> length ?ws"
    and loop: "wrap_loop ?t [] ?ws = (js_join [SP] (take k ?ws), js_join [SP] (drop k ?ws))"
    and stop: "k < length ?ws \<longrightarrow> ?t + 5 < length (js_join [SP] (take (Suc k) ?ws))"
    by auto
  have fit: "length (js_join [SP] (take k ?ws)) \<le> ?t + 5"
    using wrap_loop_first_bound [of "[]" ?t ?ws] loop by simp
  have "k \<noteq> length ?ws"
  proof
    assume "k = length ?ws"
    with fit have "length label \<le> ?t + 5" by (simp add: js_join_split_on)
    with m show False by linarith
  qed
  with k have lt: "k < length ?ws" by simp
  then have "drop k ?ws \<noteq> []" by simp
  with solid have "js_join [SP] (drop k ?ws) \<noteq> []"
    by (intro js_join_solid_nonempty) (simp_all add: list_all_take_drop)
  with loop m sp have "wrapLabel label m
      = js_join [SP] (take k ?ws) @ [NL] @ js_join [SP] (drop k ?ws)"
    by (simp add: wrapLabel_multi)
  with lt fit stop show ?thesis by blast
qed

section \<open>Properties\<close>

text \<open>
  C27: a label longer than the width and without a space is cut at the character
  midpoint \<open>floor (length / 2)\<close>: the first line is the first half, the second line
  the rest, also in the middle of a word.
\<close>

theorem wrapLabel_single_word:
  assumes "m < length label" and "SP \<notin> set label"
  shows "wrapLabel label m
    = take (length label div 2) label @ [NL] @ drop (length label div 2) label"
  using assms by (rule wrapLabel_single)

theorem wrapLabel_single_word_witness:
  "18 < length ''Supercalifragilisticexpialidocious''
   \<and> SP \<notin> set ''Supercalifragilisticexpialidocious''
   \<and> wrapLabel ''Supercalifragilisticexpialidocious'' 18
       = ''Supercalifragilis'' @ [NL] @ ''ticexpialidocious''"
  using wrapLabel_single_word [of 18 "''Supercalifragilisticexpialidocious''"] by simp

text \<open>
  C25: a well-spaced label of several words that is longer than the width (of at
  least 10) is always cut, and it is cut at a word boundary: the first line is
  the longest run of leading words that fits into half the label's length plus
  five, the second line is all the remaining words.
\<close>

theorem wrapLabel_word_boundary:
  assumes "well_spaced label" and "SP \<in> set label" and "10 \<le> m" and "m < length label"
  shows "\<exists>k < length (split_on SP label).
    wrapLabel label m
      = js_join [SP] (take k (split_on SP label)) @ [NL]
          @ js_join [SP] (drop k (split_on SP label))
    \<and> length (js_join [SP] (take k (split_on SP label))) \<le> length label div 2 + 5
    \<and> length label div 2 + 5 < length (js_join [SP] (take (Suc k) (split_on SP label)))"
  using assms by (rule wrapLabel_cut)

theorem wrapLabel_word_boundary_witness:
  "well_spaced ''Senior Backend Engineer'' \<and> SP \<in> set ''Senior Backend Engineer''
   \<and> (10::nat) \<le> 18 \<and> 18 < length ''Senior Backend Engineer''
   \<and> (\<exists>k < length (split_on SP ''Senior Backend Engineer'').
        wrapLabel ''Senior Backend Engineer'' 18
          = js_join [SP] (take k (split_on SP ''Senior Backend Engineer'')) @ [NL]
              @ js_join [SP] (drop k (split_on SP ''Senior Backend Engineer''))
        \<and> length (js_join [SP] (take k (split_on SP ''Senior Backend Engineer'')))
            \<le> length ''Senior Backend Engineer'' div 2 + 5
        \<and> length ''Senior Backend Engineer'' div 2 + 5
            < length (js_join [SP] (take (Suc k) (split_on SP ''Senior Backend Engineer''))))
   \<and> wrapLabel ''Senior Backend Engineer'' 18 = ''Senior Backend'' @ [NL] @ ''Engineer''"
proof -
  have ws: "well_spaced ''Senior Backend Engineer''"
    by (simp add: well_spaced_def solid_def is_ws_def Let_def)
  have "wrapLabel ''Senior Backend Engineer'' 18 = ''Senior Backend'' @ [NL] @ ''Engineer''"
    by (simp add: wrapLabel_def js_trim_def is_ws_def Let_def)
  with ws wrapLabel_word_boundary [OF ws, of 18] show ?thesis by simp
qed

text \<open>
  C26: undoing the wrap of a well-spaced label of several words, by turning the
  line break back into a space, gives the label back, or the label behind an
  extra space when the first line is empty: no character of the label is lost
  or reordered.
\<close>

theorem wrapLabel_unwrap:
  assumes "well_spaced label" and "SP \<in> set label" and "10 \<le> m" and "m < length label"
  shows "map (\<lambda>c. if c = NL then SP else c) (wrapLabel label m) \<in> {label, SP # label}"
proof -
  let ?ws = "split_on SP label" and ?un = "map (\<lambda>c. if c = NL then SP else c)"
  from assms(1) have solid: "list_all solid ?ws" by (simp add: well_spaced_def)
  from wrapLabel_cut [OF assms] obtain k where k: "k < length ?ws"
    and w: "wrapLabel label m = js_join [SP] (take k ?ws) @ [NL] @ js_join [SP] (drop k ?ws)"
    by blast
  have keep: "?un (js_join [SP] us) = js_join [SP] us" if "list_all solid us" for us
    using js_join_solid_no_NL [OF that] by (intro map_idI) auto
  have un: "?un (wrapLabel label m)
      = js_join [SP] (take k ?ws) @ [SP] @ js_join [SP] (drop k ?ws)"
    using solid by (simp add: w keep list_all_take_drop)
  show ?thesis
  proof (cases "k = 0")
    case True
    with un show ?thesis by (simp add: js_join_split_on)
  next
    case False
    with k have "take k ?ws \<noteq> []" and "drop k ?ws \<noteq> []" by auto
    then have "js_join [SP] (take k ?ws) @ [SP] @ js_join [SP] (drop k ?ws)
        = js_join [SP] ?ws"
      using js_join_append [of "take k ?ws" "drop k ?ws" "[SP]"] by simp
    with un show ?thesis by (simp add: js_join_split_on)
  qed
qed

theorem wrapLabel_unwrap_witness:
  "well_spaced ''Machine Learning Engineer'' \<and> SP \<in> set ''Machine Learning Engineer''
   \<and> (10::nat) \<le> 18 \<and> 18 < length ''Machine Learning Engineer''
   \<and> map (\<lambda>c. if c = NL then SP else c) (wrapLabel ''Machine Learning Engineer'' 18)
       \<in> {''Machine Learning Engineer'', SP # ''Machine Learning Engineer''}"
proof -
  have ws: "well_spaced ''Machine Learning Engineer''"
    by (simp add: well_spaced_def solid_def is_ws_def Let_def)
  with wrapLabel_unwrap [OF ws, of 18] show ?thesis by simp
qed

text \<open>
  C28: whenever a label of several words is changed by the wrap, its first line
  is at most half the label's length plus five characters long, whatever the
  spacing of the label.
\<close>

theorem wrapLabel_first_line_bound:
  assumes "SP \<in> set label" and "m < length label" and "NL \<notin> set label"
  shows "wrapLabel label m = label
    \<or> length (takeWhile (\<lambda>c. c \<noteq> NL) (wrapLabel label m)) \<le> length label div 2 + 5"
proof -
  let ?ws = "split_on SP label" and ?t = "length label div 2"
  obtain f s where loop: "wrap_loop ?t [] ?ws = (f, s)" by (cases "wrap_loop ?t [] ?ws")
  have "length f \<le> ?t + 5"
    using wrap_loop_first_bound [of "[]" ?t ?ws] loop by simp
  moreover have "set f \<subseteq> {SP} \<union> \<Union> (set ` set ?ws)"
    using wrap_loop_chars [of ?t "[]" ?ws] loop by auto
  then have "NL \<notin> set f"
    using assms(3) split_on_chars [of _ SP label] by fastforce
  then have "takeWhile (\<lambda>c. c \<noteq> NL) (f @ [NL] @ s) = f"
    by (auto simp: takeWhile_append)
  ultimately show ?thesis
    using assms(1,2) loop by (simp add: wrapLabel_multi)
qed

theorem wrapLabel_first_line_bound_witness:
  "SP \<in> set ''Data Platform Architect'' \<and> 18 < length ''Data Platform Architect''
   \<and> NL \<notin> set ''Data Platform Architect''
   \<and> (wrapLabel ''Data Platform Architect'' 18 = ''Data Platform Architect''
      \<or> length (takeWhile (\<lambda>c. c \<noteq> NL) (wrapLabel ''Data Platform Architect'' 18))
          \<le> length ''Data Platform Architect'' div 2 + 5)"
  using wrapLabel_first_line_bound [of "''Data Platform Architect''" 18] by simp

section \<open>Line breaks\<close>

lemma wrap_loop_no_NL:
  assumes "NL \<notin> set label"
  shows "NL \<notin> set (fst (wrap_loop t [] (split_on SP label)))"
    and "NL \<notin> set (snd (wrap_loop t [] (split_on SP label)))"
proof -
  have "\<Union> (set ` set (split_on SP label)) \<subseteq> set label"
    using split_on_chars [of _ SP label] by auto
  with wrap_loop_chars [of t "[]" "split_on SP label"]
  have "set (fst (wrap_loop t [] (split_on SP label)))
      \<union> set (snd (wrap_loop t [] (split_on SP label))) \<subseteq> insert SP (set label)"
    by (simp only: list.set Un_empty_left Un_insert_left) blast
  moreover have "NL \<noteq> SP" by simp
  ultimately show "NL \<notin> set (fst (wrap_loop t [] (split_on SP label)))"
    and "NL \<notin> set (snd (wrap_loop t [] (split_on SP label)))"
    using assms by blast+
qed

lemma wrap_loop_long_first_word:
  assumes "solid w" and "t + 5 < length w"
  shows "wrap_loop t [] (w # ws) = ([], js_join [SP] (w # ws))"
proof -
  have "js_trim ([] @ [SP] @ w) = w"
    using js_trim_snoc_word [of "[]" w] assms(1) by simp
  with assms(2) show ?thesis by simp
qed

text \<open>
  C29: a label gets at most one line break. For a label without a line break,
  the result of \<^verbatim>\<open>wrapLabel\<close> contains at most one: the label is shown on one or
  two lines, whatever its length and the limit.
\<close>

theorem wrapLabel_one_break:
  assumes "NL \<notin> set label"
  shows "count_list (wrapLabel label m) NL \<le> 1"
proof (cases "length label \<le> m")
  case True
  with assms show ?thesis by (simp add: wrapLabel_short)
next
  case long: False
  show ?thesis
  proof (cases "SP \<in> set label")
    case False
    from assms have "NL \<notin> set (take k label)" "NL \<notin> set (drop k label)" for k
      by (auto dest: in_set_takeD in_set_dropD)
    with long False show ?thesis by (simp add: wrapLabel_single)
  next
    case True
    obtain f s where fs: "wrap_loop (length label div 2) [] (split_on SP label) = (f, s)"
      by (cases "wrap_loop (length label div 2) [] (split_on SP label)")
    with wrap_loop_no_NL [OF assms, of "length label div 2"]
    have "NL \<notin> set f" "NL \<notin> set s" by simp_all
    with long True fs assms show ?thesis by (simp add: wrapLabel_multi)
  qed
qed

theorem wrapLabel_one_break_witness:
  "NL \<notin> set ''Senior Backend Engineer''
   \<and> count_list (wrapLabel ''Senior Backend Engineer'' 18) NL = 1"
proof -
  have h: "NL \<notin> set ''Senior Backend Engineer''" by simp
  have "NL \<in> set (wrapLabel ''Senior Backend Engineer'' 18)" by code_simp
  then have "count_list (wrapLabel ''Senior Backend Engineer'' 18) NL \<noteq> 0"
    by (simp only: count_list_0_iff) simp
  with wrapLabel_one_break [OF h, of 18] h show ?thesis by simp
qed

text \<open>
  C37: a long first word gives an empty first line. When the label has a space
  and its first word alone is longer than half the label plus 5, the loop stops
  at the first word with nothing on the first line, and the result is a line
  break followed by the whole label: the label is not split at a space.
\<close>

theorem wrapLabel_long_first_word:
  assumes "m < length label" and "SP \<in> set label"
    and "solid (hd (split_on SP label))"
    and "length label div 2 + 5 < length (hd (split_on SP label))"
  shows "wrapLabel label m = NL # label"
proof -
  obtain w ws where ws: "split_on SP label = w # ws"
    by (cases "split_on SP label") simp_all
  with assms(3,4) have "wrap_loop (length label div 2) [] (split_on SP label)
    = ([], js_join [SP] (split_on SP label))"
    by (simp only: wrap_loop_long_first_word list.sel)
  moreover from assms(2) have "label \<noteq> []" by auto
  ultimately show ?thesis
    using assms(1,2) by (simp add: wrapLabel_multi js_join_split_on)
qed

theorem wrapLabel_long_first_word_witness:
  "18 < length ''Supercalifragilistic engineer''
   \<and> SP \<in> set ''Supercalifragilistic engineer''
   \<and> solid (hd (split_on SP ''Supercalifragilistic engineer''))
   \<and> length ''Supercalifragilistic engineer'' div 2 + 5
       < length (hd (split_on SP ''Supercalifragilistic engineer''))
   \<and> wrapLabel ''Supercalifragilistic engineer'' 18 = NL # ''Supercalifragilistic engineer''"
proof -
  have h: "18 < length ''Supercalifragilistic engineer''"
    "SP \<in> set ''Supercalifragilistic engineer''"
    "solid (hd (split_on SP ''Supercalifragilistic engineer''))"
    "length ''Supercalifragilistic engineer'' div 2 + 5
       < length (hd (split_on SP ''Supercalifragilistic engineer''))"
    by code_simp+
  from wrapLabel_long_first_word [OF h] h show ?thesis by simp
qed

end
