(* ===== verification/Chart_Adapter.thy ===== *)
theory Chart_Adapter
  imports Data_Loader Label_Wrap
begin

text \<open>
  The chart configurations the script hands to the charting library: the two
  hero charts of \<^verbatim>\<open>initHeroCharts\<close> (\<^verbatim>\<open>src/script.js\<close>, lines 58-104) and the
  per-item radar chart that \<^verbatim>\<open>toggleGraphView\<close> builds on first use (lines
  253-348). A \<open>chart\<close> is the argument pair of one \<^verbatim>\<open>new Chart(ctx, config)\<close>
  call: the canvas it is drawn on and the fields of the configuration object.
  The library itself is not modelled: a chart is what it was created with.
  The record holds the fields that depend on the data or differ between the
  charts; an option a call does not set is \<open>None\<close> (for \<^verbatim>\<open>fill\<close> and the legend, the
  library's default). The constant layout options (aspect ratio, padding, font
  size, tick display, the index axis of the bar chart) are left out, and so is
  the colour of the angle lines, which is the grid colour.

  \<open>object_keys\<close> and \<open>object_values\<close> are \<^verbatim>\<open>Object.keys\<close> and \<^verbatim>\<open>Object.values\<close> on an
  object given as the list of its own properties in enumeration order (distinct
  keys, integer-like keys first), the representation \<open>Data_Loader\<close> fixes for the
  objects of the documents.

  A canvas is named by its element id: \<open>HeroSkillChart\<close> and \<open>HeroCareerChart\<close>
  are \<^verbatim>\<open>heroSkillChart\<close> and \<^verbatim>\<open>heroCareerChart\<close>, \<open>ItemChart i\<close> is the canvas
  \<^verbatim>\<open>chart-i\<close> of the item with index \<open>i\<close>.
\<close>

section \<open>Configurations\<close>

datatype canvas = HeroSkillChart | HeroCareerChart | ItemChart nat

datatype chart_kind = Radar | Bar

datatype axis = SuggestedRange int int | FixedRange int int

record chart =
  canvas :: canvas
  kind :: chart_kind
  labels :: "jstring list"
  dataset_label :: jstring
  dataset_data :: "int list"
  fill :: bool
  backgroundColor :: jstring
  borderColor :: jstring
  pointBackgroundColor :: "jstring option"
  borderWidth :: "nat option"
  value_axis :: axis
  gridColor :: "jstring option"
  pointLabelColor :: "jstring option"
  legend_display :: bool

definition object_keys :: "('k \<times> 'v) list \<Rightarrow> 'k list" where
  "object_keys obj = map fst obj"

definition object_values :: "('k \<times> 'v) list \<Rightarrow> 'v list" where
  "object_values obj = map snd obj"

definition hero_skill_chart :: "year_record \<Rightarrow> chart" where
  "hero_skill_chart data =
     \<lparr> canvas = HeroSkillChart, kind = Radar,
       labels = object_keys (skills data),
       dataset_label = ''Current Skills'',
       dataset_data = object_values (skills data),
       fill = True,
       backgroundColor = ''rgba(42, 161, 152, 0.2)'',
       borderColor = ''#2aa198'',
       pointBackgroundColor = Some ''#2aa198'',
       borderWidth = None,
       value_axis = SuggestedRange 0 100,
       gridColor = Some ''rgba(100,100,100,0.1)'',
       pointLabelColor = None,
       legend_display = True \<rparr>"

definition hero_career_chart :: "year_record \<Rightarrow> chart" where
  "hero_career_chart data =
     (let top10Matches = js_slice (matches data) 0 10
      in \<lparr> canvas = HeroCareerChart, kind = Bar,
           labels = map role top10Matches,
           dataset_label = ''Match Probability (%)'',
           dataset_data = map match_percentage top10Matches,
           fill = False,
           backgroundColor = ''rgba(255, 99, 132, 0.5)'',
           borderColor = ''rgba(255, 99, 132, 1)'',
           pointBackgroundColor = None,
           borderWidth = Some 1,
           value_axis = FixedRange 0 100,
           gridColor = None,
           pointLabelColor = None,
           legend_display = True \<rparr>)"

definition initHeroCharts :: "year_record \<Rightarrow> chart list" where
  "initHeroCharts data = [hero_skill_chart data, hero_career_chart data]"

definition item_chart :: "nat \<Rightarrow> year_record \<Rightarrow> bool \<Rightarrow> chart" where
  "item_chart index item isFuture =
     (let textColor = (if isFuture then ''#fff'' else ''#000'');
          gridColor = (if isFuture then ''rgba(255,255,255,0.1)'' else ''rgba(0,0,0,0.1)'');
          chartColor = (if isFuture then ''rgba(42, 161, 152, 0.5)''
                        else ''rgba(181, 137, 0, 0.5)'');
          borderColor = (if isFuture then ''#2aa198'' else ''#b58900'');
          top5 = js_slice (matches item) 0 5;
          chartLabels = map (\<lambda>m. wrapLabel18 (role m)) top5
      in \<lparr> canvas = ItemChart index, kind = Radar,
           labels = chartLabels,
           dataset_label = ''Career Fit %'',
           dataset_data = map match_percentage top5,
           fill = True,
           backgroundColor = chartColor,
           borderColor = borderColor,
           pointBackgroundColor = Some borderColor,
           borderWidth = None,
           value_axis = FixedRange 0 100,
           gridColor = Some gridColor,
           pointLabelColor = Some textColor,
           legend_display = False \<rparr>)"

definition tooltip_label :: "jstring \<Rightarrow> int \<Rightarrow> jstring" where
  "tooltip_label datasetLabel r = datasetLabel @ '': '' @ js_to_string r @ ''%''"

declare object_keys_def [js_defs] object_values_def [js_defs]

section \<open>Shape of the charts\<close>

definition aligned :: "chart \<Rightarrow> bool" where
  "aligned c \<longleftrightarrow> length (labels c) = length (dataset_data c)"

lemma canvas_simps [simp]:
  "canvas (hero_skill_chart d) = HeroSkillChart"
  "canvas (hero_career_chart d) = HeroCareerChart"
  "canvas (item_chart i r f) = ItemChart i"
  by (simp_all add: hero_skill_chart_def hero_career_chart_def item_chart_def Let_def)

lemma aligned_hero_skill: "aligned (hero_skill_chart d)"
  by (simp add: aligned_def hero_skill_chart_def js_defs)

lemma aligned_hero_career: "aligned (hero_career_chart d)"
  by (simp add: aligned_def hero_career_chart_def Let_def)

lemma aligned_item_chart: "aligned (item_chart i r f)"
  by (simp add: aligned_def item_chart_def Let_def)

lemma length_hero_career_labels: "length (labels (hero_career_chart d)) = min 10 (length (matches d))"
  by (simp add: hero_career_chart_def Let_def js_slice_take min.commute)

lemma length_item_chart_labels: "length (labels (item_chart i r f)) = min 5 (length (matches r))"
  by (simp add: item_chart_def Let_def js_slice_take min.commute)

lemma item_chart_labels:
  "labels (item_chart i r f) = map (\<lambda>m. wrapLabel (role m) 18) (take 5 (matches r))"
  by (simp add: item_chart_def Let_def js_slice_take wrapLabel18_def)

lemma item_chart_data:
  "dataset_data (item_chart i r f) = map match_percentage (take 5 (matches r))"
  by (simp add: item_chart_def Let_def js_slice_take)

lemma item_chart_inj: "item_chart i r f = item_chart j r' f' \<Longrightarrow> i = j"
  by (metis canvas.inject canvas_simps(3))

text \<open>
  C34: every chart is well formed and bounded. In each of the three charts the
  labels and the values correspond one to one; the career bar chart shows the
  first ten matches of the record in order, and the radar chart of an item the
  first five, so there are at most ten bars and at most five points.
\<close>

theorem charts_aligned_and_bounded:
  "aligned (hero_skill_chart d) \<and> aligned (hero_career_chart d) \<and> aligned (item_chart i d f)
   \<and> labels (hero_career_chart d) = map role (take 10 (matches d))
   \<and> dataset_data (hero_career_chart d) = map match_percentage (take 10 (matches d))
   \<and> dataset_data (item_chart i d f) = map match_percentage (take 5 (matches d))
   \<and> length (labels (hero_career_chart d)) \<le> 10 \<and> length (labels (item_chart i d f)) \<le> 5"
  by (simp add: aligned_hero_skill aligned_hero_career aligned_item_chart item_chart_data
      length_item_chart_labels)
    (simp add: hero_career_chart_def Let_def js_slice_take)

end
