(* ===== verification/Timeline.thy ===== *)
theory Timeline
  imports Chart_Adapter "HOL-Library.AList"
begin

text \<open>
  The accordion controller: \<^verbatim>\<open>buildTimeline\<close> with the closures
  \<^verbatim>\<open>closeAccordion\<close> and \<^verbatim>\<open>openAccordion\<close> and the four click listeners of an item
  (\<^verbatim>\<open>src/script.js\<close>, lines 107-234), and \<^verbatim>\<open>toggleGraphView\<close> (lines 237-357).

  The state the script keeps in the document is a record. An \<open>item_view\<close> is one
  \<^verbatim>\<open>.timeline-item\<close> element with what its handlers read and write: the classes
  \<^verbatim>\<open>active\<close> and \<^verbatim>\<open>future-mode\<close>, the inline \<^verbatim>\<open>display\<close> of its two buttons and
  two panes, the text of the toggle button, and the two variables its closures
  capture (\<^verbatim>\<open>viewState.isGraphView\<close> and \<^verbatim>\<open>item\<close>). A \<open>timeline\<close> holds the items in
  document order, the object \<^verbatim>\<open>chartInstances\<close> as the list of its properties, a log of every \<^verbatim>\<open>new Chart\<close> call
  made by \<^verbatim>\<open>toggleGraphView\<close> (oldest first), and \<open>app_offset\<close>, the number of
  element children the mount \<^verbatim>\<open>#timeline-app\<close> had before the items were appended:
  \<^verbatim>\<open>openAccordion\<close> computes the index it passes to \<^verbatim>\<open>closeAccordion\<close> as the
  position among the mount's children, which is the item's index only when that
  number is 0.

  An element lookup (\<^verbatim>\<open>querySelector\<close> by \<^verbatim>\<open>data-index\<close>, \<^verbatim>\<open>getElementById\<close>)
  finds the element of the item with that index when there is one; \<open>upd_item\<close>
  is the guarded write \<^verbatim>\<open>if (el) el.prop = v\<close>. A click is delivered only to an
  element that exists, which is the guard of \<open>handle\<close>. \<^verbatim>\<open>toggleGraphView\<close> writes
  to its two panes and reads its canvas without a guard: these are \<open>set_item\<close> and
  \<open>deref\<close>, which throw a \<^verbatim>\<open>TypeError\<close> where the element is missing, and the function
  returns an \<open>outcome\<close>. A listener that throws leaves the page as it was at the
  \<^verbatim>\<open>throw\<close>, which is what \<open>handle\<close> returns.

  \<^verbatim>\<open>openAccordion\<close> closes the other items in a loop over all elements of class
  \<^verbatim>\<open>timeline-item\<close> in the document: the model takes these to be the items of the
  mount, and the mount's other element children to come before them.
\<close>

section \<open>State\<close>

datatype display = Unset | DNone | DBlock | DFlex

datatype button_text = ShowStats | ShowText

record item_view =
  active :: bool
  future_mode :: bool
  toggle_display :: display
  toggle_text :: button_text
  close_display :: display
  text_display :: display
  graph_display :: display
  isGraphView :: bool
  item :: year_record

record timeline =
  items :: "item_view list"
  chartInstances :: "(nat \<times> chart) list"
  charts_created :: "chart list"
  app_offset :: nat

datatype click = BubbleClick nat | CloseClick nat | ToggleClick nat | ContentClick nat

section \<open>Building the items\<close>

definition new_item :: "nat \<Rightarrow> nat \<Rightarrow> year_record \<Rightarrow> item_view" where
  "new_item n index it =
     \<lparr> active = False, future_mode = (n < 2 * index),
       toggle_display = DNone, toggle_text = ShowStats, close_display = DNone,
       text_display = Unset, graph_display = Unset,
       isGraphView = False, item = it \<rparr>"

definition buildTimeline :: "nat \<Rightarrow> year_record list \<Rightarrow> timeline" where
  "buildTimeline offset data =
     \<lparr> items = map (\<lambda>(index, it). new_item (length data) index it) (enumerate 0 data),
       chartInstances = [], charts_created = [], app_offset = offset \<rparr>"

section \<open>Operations\<close>

definition upd_item :: "nat \<Rightarrow> (item_view \<Rightarrow> item_view) \<Rightarrow> timeline \<Rightarrow> timeline" where
  "upd_item i f s =
     (if i < length (items s) then s\<lparr>items := (items s)[i := f (items s ! i)]\<rparr> else s)"

text \<open>
  An unguarded write \<^verbatim>\<open>el.prop = v\<close> on a looked-up element. \<open>deref\<close> is the property
  access on the result of the lookup: a \<^verbatim>\<open>TypeError\<close> when the lookup returned
  \<^verbatim>\<open>null\<close>. An \<open>outcome\<close> is the page after a function returned (\<open>Inr\<close>), or the
  error it threw with the page as it was at the \<^verbatim>\<open>throw\<close> (\<open>Inl\<close>); \<open>and_then\<close> is
  the sequencing of statements, which stops at the first error, and \<open>state_after\<close>
  is the page that is left in either case.
\<close>

datatype js_error = TypeError

type_synonym outcome = "js_error \<times> timeline + timeline"

definition deref :: "nat \<Rightarrow> timeline \<Rightarrow> outcome" where
  "deref i s = (if i < length (items s) then Inr s else Inl (TypeError, s))"

definition and_then :: "outcome \<Rightarrow> (timeline \<Rightarrow> outcome) \<Rightarrow> outcome" where
  "and_then r f = (case r of Inl e \<Rightarrow> Inl e | Inr s \<Rightarrow> f s)"

definition set_item :: "nat \<Rightarrow> (item_view \<Rightarrow> item_view) \<Rightarrow> timeline \<Rightarrow> outcome" where
  "set_item i f s =
     and_then (deref i s) (\<lambda>s. Inr (s\<lparr>items := (items s)[i := f (items s ! i)]\<rparr>))"

definition state_after :: "outcome \<Rightarrow> timeline" where
  "state_after r = (case r of Inl (e, s) \<Rightarrow> s | Inr s \<Rightarrow> s)"

definition closeAccordion :: "nat \<Rightarrow> nat \<Rightarrow> timeline \<Rightarrow> timeline" where
  "closeAccordion itemDiv itemIndex s =
     (let s1 = upd_item itemDiv (\<lambda>d. d\<lparr>active := False\<rparr>) s;
          s2 = upd_item itemIndex (\<lambda>d. d\<lparr>toggle_display := DNone\<rparr>) s1;
          s3 = upd_item itemIndex (\<lambda>d. d\<lparr>close_display := DNone\<rparr>) s2
      in upd_item itemIndex
           (\<lambda>d. d\<lparr>text_display := DBlock, graph_display := DNone, toggle_text := ShowStats\<rparr>) s3)"

definition close_others :: "nat \<Rightarrow> timeline \<Rightarrow> timeline" where
  "close_others index s =
     fold (\<lambda>i s'. if i \<noteq> index then closeAccordion i (i + app_offset s') s' else s')
       [0..<length (items s)] s"

definition openAccordion :: "nat \<Rightarrow> timeline \<Rightarrow> timeline" where
  "openAccordion index s =
     (let s1 = close_others index s;
          s2 = upd_item index (\<lambda>d. d\<lparr>active := True\<rparr>) s1;
          s3 = upd_item index (\<lambda>d. d\<lparr>toggle_display := DFlex\<rparr>) s2;
          s4 = upd_item index (\<lambda>d. d\<lparr>close_display := DBlock\<rparr>) s3;
          s5 = upd_item index (\<lambda>d. d\<lparr>isGraphView := False\<rparr>) s4
      in upd_item index
           (\<lambda>d. d\<lparr>text_display := DBlock, graph_display := DNone, toggle_text := ShowStats\<rparr>) s5)"

definition toggleGraphView :: "nat \<Rightarrow> year_record \<Rightarrow> bool \<Rightarrow> bool \<Rightarrow> timeline \<Rightarrow> outcome" where
  "toggleGraphView index it isFuture showGraph s =
     (if showGraph then
        and_then (set_item index (\<lambda>d. d\<lparr>text_display := DNone\<rparr>) s) (\<lambda>s1.
        and_then (set_item index (\<lambda>d. d\<lparr>graph_display := DBlock\<rparr>) s1) (\<lambda>s2.
          (let s3 = upd_item index (\<lambda>d. d\<lparr>toggle_text := ShowText\<rparr>) s2
           in if map_of (chartInstances s3) index = None then
                and_then (deref index s3) (\<lambda>s4.
                  (let c = item_chart index it isFuture
                   in Inr (s4\<lparr>chartInstances := AList.update index c (chartInstances s4),
                              charts_created := charts_created s4 @ [c]\<rparr>)))
              else Inr s3)))
      else
        and_then (set_item index (\<lambda>d. d\<lparr>graph_display := DNone\<rparr>) s) (\<lambda>s1.
        and_then (set_item index (\<lambda>d. d\<lparr>text_display := DBlock\<rparr>) s1) (\<lambda>s2.
          Inr (upd_item index (\<lambda>d. d\<lparr>toggle_text := ShowStats\<rparr>) s2))))"

section \<open>Click listeners\<close>

definition bubble_click :: "nat \<Rightarrow> timeline \<Rightarrow> timeline" where
  "bubble_click index s =
     (if active (items s ! index) then closeAccordion index index s else openAccordion index s)"

definition close_click :: "nat \<Rightarrow> timeline \<Rightarrow> timeline" where
  "close_click index s = closeAccordion index index s"

definition content_click :: "nat \<Rightarrow> timeline \<Rightarrow> timeline" where
  "content_click index s = s"

definition toggle_click :: "nat \<Rightarrow> timeline \<Rightarrow> outcome" where
  "toggle_click index s =
     (let s1 = (if \<not> active (items s ! index) then openAccordion index s else s);
          s2 = upd_item index (\<lambda>d. d\<lparr>isGraphView := \<not> isGraphView d\<rparr>) s1;
          d = items s2 ! index
      in toggleGraphView index (item d) (future_mode d) (isGraphView d) s2)"

fun click_target :: "click \<Rightarrow> nat" where
  "click_target (BubbleClick i) = i"
| "click_target (CloseClick i) = i"
| "click_target (ToggleClick i) = i"
| "click_target (ContentClick i) = i"

fun dispatch :: "click \<Rightarrow> timeline \<Rightarrow> outcome" where
  "dispatch (BubbleClick i) s = Inr (bubble_click i s)"
| "dispatch (CloseClick i) s = Inr (close_click i s)"
| "dispatch (ToggleClick i) s = toggle_click i s"
| "dispatch (ContentClick i) s = Inr (content_click i s)"

definition handle :: "click \<Rightarrow> timeline \<Rightarrow> timeline" where
  "handle c s = (if click_target c < length (items s) then state_after (dispatch c s) else s)"

definition run :: "click list \<Rightarrow> timeline \<Rightarrow> timeline" where
  "run cs s = fold handle cs s"

inductive reachable :: "year_record list \<Rightarrow> timeline \<Rightarrow> bool" for data where
  built: "reachable data (buildTimeline 0 data)"
| click: "reachable data s \<Longrightarrow> reachable data (handle c s)"

section \<open>What is shown\<close>

datatype item_state = Closed | OpenText | OpenGraph

definition item_state :: "item_view \<Rightarrow> item_state" where
  "item_state d =
     (if \<not> active d then Closed else if graph_display d = DBlock then OpenGraph else OpenText)"

definition state_of :: "timeline \<Rightarrow> nat \<Rightarrow> item_state" where
  "state_of s i = item_state (items s ! i)"

section \<open>Invariant\<close>

definition item_inv :: "item_view \<Rightarrow> bool" where
  "item_inv d \<longleftrightarrow>
     (if active d then
        toggle_display d = DFlex \<and> close_display d = DBlock
        \<and> (if isGraphView d
            then text_display d = DNone \<and> graph_display d = DBlock \<and> toggle_text d = ShowText
            else text_display d = DBlock \<and> graph_display d = DNone \<and> toggle_text d = ShowStats)
      else
        toggle_display d = DNone \<and> close_display d = DNone \<and> toggle_text d = ShowStats
        \<and> graph_display d \<noteq> DBlock \<and> text_display d \<noteq> DNone)"

definition single_open :: "timeline \<Rightarrow> bool" where
  "single_open s \<longleftrightarrow> count_list (map active (items s)) True \<le> 1"

definition chart_inv :: "timeline \<Rightarrow> nat \<Rightarrow> bool" where
  "chart_inv s i \<longleftrightarrow>
     (case map_of (chartInstances s) i of
        None \<Rightarrow> ItemChart i \<notin> set (map canvas (charts_created s))
                \<and> \<not> (active (items s ! i) \<and> isGraphView (items s ! i))
      | Some c \<Rightarrow> c = item_chart i (item (items s ! i)) (future_mode (items s ! i))
                  \<and> c \<in> set (charts_created s))"

definition charts_inv :: "timeline \<Rightarrow> bool" where
  "charts_inv s \<longleftrightarrow>
     distinct (map canvas (charts_created s))
     \<and> list_all (\<lambda>c. canvas c \<in> ItemChart ` {..<length (items s)}) (charts_created s)
     \<and> list_all (\<lambda>i. i < length (items s)) (map fst (chartInstances s))
     \<and> (\<forall>i < length (items s). chart_inv s i)"

definition tl_inv :: "timeline \<Rightarrow> bool" where
  "tl_inv s \<longleftrightarrow>
     app_offset s = 0 \<and> list_all item_inv (items s) \<and> single_open s \<and> charts_inv s"

declare upd_item_def [dom_defs] closeAccordion_def [dom_defs] openAccordion_def [dom_defs]
  toggleGraphView_def [dom_defs]

declare item_inv_def [inv_defs] single_open_def [inv_defs] chart_inv_def [inv_defs]
  charts_inv_def [inv_defs] tl_inv_def [inv_defs]

section \<open>Guarded element updates\<close>

lemma upd_item_frame [simp]:
  "length (items (upd_item i f s)) = length (items s)"
  "chartInstances (upd_item i f s) = chartInstances s"
  "charts_created (upd_item i f s) = charts_created s"
  "app_offset (upd_item i f s) = app_offset s"
  by (simp_all add: upd_item_def)

lemma upd_item_absent: "length (items s) \<le> i \<Longrightarrow> upd_item i f s = s"
  by (simp add: upd_item_def)

lemma upd_item_present:
  "i < length (items s) \<Longrightarrow> upd_item i f s = s\<lparr>items := (items s)[i := f (items s ! i)]\<rparr>"
  by (simp add: upd_item_def)

lemma items_upd_item_nth:
  "j < length (items s) \<Longrightarrow>
     items (upd_item i f s) ! j = (if j = i then f (items s ! j) else items s ! j)"
  by (simp add: upd_item_def)

lemma upd_item_twice: "upd_item i f (upd_item i g s) = upd_item i (f \<circ> g) s"
  by (simp add: upd_item_def)

lemma state_after_simps [simp]:
  "state_after (Inr s) = s" "state_after (Inl (e, s)) = s"
  by (simp_all add: state_after_def)

lemma and_then_simps [simp]:
  "and_then (Inr s) f = f s" "and_then (Inl e) f = Inl e"
  by (simp_all add: and_then_def)

lemma deref_simps:
  "i < length (items s) \<Longrightarrow> deref i s = Inr s"
  "length (items s) \<le> i \<Longrightarrow> deref i s = Inl (TypeError, s)"
  by (simp_all add: deref_def)

text \<open>
  Where the element exists the unguarded and the guarded write agree; where it
  does not, the one throws and the other does nothing.
\<close>

lemma set_item_present: "i < length (items s) \<Longrightarrow> set_item i f s = Inr (upd_item i f s)"
  by (simp add: set_item_def deref_def upd_item_def)

lemma set_item_absent: "length (items s) \<le> i \<Longrightarrow> set_item i f s = Inl (TypeError, s)"
  by (simp add: set_item_def deref_def)

lemma upd_item_set_item: "upd_item i f s = state_after (set_item i f s)"
  by (simp add: set_item_def deref_def upd_item_def)

text \<open>
  The writes of one call of \<^verbatim>\<open>closeAccordion\<close> and \<^verbatim>\<open>openAccordion\<close>, collected per
  element.
\<close>

definition deactivate :: "item_view \<Rightarrow> item_view" where
  "deactivate = (\<lambda>d. d\<lparr>active := False\<rparr>)"

definition reset_controls :: "item_view \<Rightarrow> item_view" where
  "reset_controls =
     (\<lambda>d. d\<lparr>toggle_display := DNone, close_display := DNone,
       text_display := DBlock, graph_display := DNone, toggle_text := ShowStats\<rparr>)"

definition close_item :: "item_view \<Rightarrow> item_view" where
  "close_item = (\<lambda>d. reset_controls (deactivate d))"

definition open_item :: "item_view \<Rightarrow> item_view" where
  "open_item =
     (\<lambda>d. d\<lparr>active := True, toggle_display := DFlex, close_display := DBlock,
       isGraphView := False,
       text_display := DBlock, graph_display := DNone, toggle_text := ShowStats\<rparr>)"

definition show_graph :: "item_view \<Rightarrow> item_view" where
  "show_graph =
     (\<lambda>d. d\<lparr>text_display := DNone, graph_display := DBlock, toggle_text := ShowText\<rparr>)"

definition show_text :: "item_view \<Rightarrow> item_view" where
  "show_text =
     (\<lambda>d. d\<lparr>graph_display := DNone, text_display := DBlock, toggle_text := ShowStats\<rparr>)"

lemmas item_writes = deactivate_def reset_controls_def close_item_def open_item_def
  show_graph_def show_text_def

lemma closeAccordion_eq:
  "closeAccordion a b s = upd_item b reset_controls (upd_item a deactivate s)"
  by (simp add: closeAccordion_def Let_def upd_item_twice comp_def item_writes)

lemma closeAccordion_same: "closeAccordion i i s = upd_item i close_item s"
  by (simp add: closeAccordion_eq upd_item_twice comp_def close_item_def)

lemma closeAccordion_frame [simp]:
  "length (items (closeAccordion a b s)) = length (items s)"
  "chartInstances (closeAccordion a b s) = chartInstances s"
  "charts_created (closeAccordion a b s) = charts_created s"
  "app_offset (closeAccordion a b s) = app_offset s"
  by (simp_all add: closeAccordion_eq)

lemma fold_close_prefix:
  assumes "app_offset s = 0" and "m \<le> length (items s)"
  shows "fold (\<lambda>i s'. if i \<noteq> k then closeAccordion i (i + app_offset s') s' else s') [0..<m] s
    = s\<lparr>items := map (\<lambda>j. if j < m \<and> j \<noteq> k then close_item (items s ! j) else items s ! j)
          [0..<length (items s)]\<rparr>"
  using assms(2)
proof (induction m)
  case 0
  then show ?case by (simp add: map_nth)
next
  case (Suc m)
  let ?L = "\<lambda>m. map (\<lambda>j. if j < m \<and> j \<noteq> k then close_item (items s ! j) else items s ! j)
    [0..<length (items s)]"
  from Suc.prems have m: "m < length (items s)" by simp
  have step: "(?L m)[m := close_item (items s ! m)] = ?L (Suc m)" if "m \<noteq> k"
    using m that by (intro nth_equalityI) (auto simp: nth_list_update less_Suc_eq)
  have same: "?L m = ?L (Suc m)" if "m = k"
    using that by (intro nth_equalityI) (auto simp: less_Suc_eq)
  from Suc m assms(1) show ?case
    by (cases "m = k") (simp_all add: closeAccordion_same upd_item_present step same)
qed

lemma close_others_eq:
  assumes "app_offset s = 0"
  shows "close_others k s
    = s\<lparr>items := map (\<lambda>j. if j \<noteq> k then close_item (items s ! j) else items s ! j)
          [0..<length (items s)]\<rparr>"
proof -
  have "map (\<lambda>j. if j < length (items s) \<and> j \<noteq> k then close_item (items s ! j) else items s ! j)
      [0..<length (items s)]
    = map (\<lambda>j. if j \<noteq> k then close_item (items s ! j) else items s ! j) [0..<length (items s)]"
    by (intro map_cong) auto
  with fold_close_prefix [OF assms order_refl, of k] show ?thesis
    by (simp add: close_others_def)
qed

lemma openAccordion_eq:
  assumes "app_offset s = 0" and "k < length (items s)"
  shows "openAccordion k s
    = s\<lparr>items := map (\<lambda>j. if j = k then open_item (items s ! j) else close_item (items s ! j))
          [0..<length (items s)]\<rparr>"
proof -
  let ?L = "map (\<lambda>j. if j \<noteq> k then close_item (items s ! j) else items s ! j)
    [0..<length (items s)]"
  have "?L[k := open_item (?L ! k)]
    = map (\<lambda>j. if j = k then open_item (items s ! j) else close_item (items s ! j))
        [0..<length (items s)]"
    using assms(2) by (intro nth_equalityI) (auto simp: nth_list_update)
  moreover have "openAccordion k s = upd_item k open_item (close_others k s)"
    by (simp add: openAccordion_def Let_def upd_item_twice comp_def open_item_def)
  ultimately show ?thesis
    using assms by (simp add: close_others_eq upd_item_present)
qed

lemma toggleGraphView_eq:
  assumes "k < length (items s)"
  shows "toggleGraphView k it fut g s =
     Inr (if g then
            (if map_of (chartInstances s) k = None
             then (upd_item k show_graph s)
                    \<lparr>chartInstances := AList.update k (item_chart k it fut) (chartInstances s),
                     charts_created := charts_created s @ [item_chart k it fut]\<rparr>
             else upd_item k show_graph s)
          else upd_item k show_text s)"
  using assms
  by (simp add: toggleGraphView_def set_item_present deref_simps Let_def upd_item_twice comp_def
      show_graph_def show_text_def)

lemma toggleGraphView_absent:
  "length (items s) \<le> k \<Longrightarrow> toggleGraphView k it fut g s = Inl (TypeError, s)"
  by (simp add: toggleGraphView_def set_item_absent)

section \<open>Preservation of the parts of the invariant\<close>

lemma item_inv_close_item [simp]: "item_inv (close_item d)"
  by (simp add: item_inv_def item_writes)

lemma item_inv_open_item [simp]: "item_inv (open_item d)"
  by (simp add: item_inv_def item_writes)

lemma item_inv_new_item [simp]: "item_inv (new_item n i r)"
  by (simp add: item_inv_def new_item_def)

lemma item_inv_flip:
  "item_inv d \<Longrightarrow> active d \<Longrightarrow>
     item_inv (if isGraphView d then show_text (d\<lparr>isGraphView := False\<rparr>)
               else show_graph (d\<lparr>isGraphView := True\<rparr>))"
  by (simp add: item_inv_def item_writes)

lemma single_open_update_inactive:
  "single_open s \<Longrightarrow> \<not> active d \<Longrightarrow> single_open (s\<lparr>items := (items s)[i := d]\<rparr>)"
  using count_True_update_False [of "map active (items s)" i]
  by (simp add: single_open_def map_update)

lemma single_open_update_same:
  assumes "single_open s" and "i < length (items s)" and "active d = active (items s ! i)"
  shows "single_open (s\<lparr>items := (items s)[i := d]\<rparr>)"
proof -
  have "map active ((items s)[i := d]) = map active (items s)"
    using assms(2,3) by (simp add: map_update list_update_same_conv)
  with assms(1) show ?thesis by (simp add: single_open_def)
qed

lemma single_open_opened:
  assumes "k < n"
  shows "single_open (s\<lparr>items := map (\<lambda>j. if j = k then open_item (f j) else close_item (g j))
    [0..<n]\<rparr>)"
proof -
  have eq: "map active (map (\<lambda>j. if j = k then open_item (f j) else close_item (g j)) [0..<n])
    = map (\<lambda>j. j = k) [0..<n]"
    by (simp add: item_writes)
  have "count_list (map active (map (\<lambda>j. if j = k then open_item (f j) else close_item (g j))
      [0..<n])) True = 1"
    unfolding eq using assms by (rule count_True_single)
  then show ?thesis by (simp add: single_open_def)
qed

lemma single_open_unique:
  assumes "single_open s" and "i < length (items s)" and "j < length (items s)"
    and "active (items s ! i)" and "active (items s ! j)"
  shows "i = j"
  using assms count_True_le_one_unique [of "map active (items s)" i j]
  by (simp add: single_open_def)

text \<open>
  The chart part of the invariant looks at an item only through its record,
  its era and whether it shows its graph pane.
\<close>

lemma charts_inv_items:
  assumes "charts_inv s" and "length L = length (items s)"
    and "\<forall>j < length L. item (L ! j) = item (items s ! j)
          \<and> future_mode (L ! j) = future_mode (items s ! j)
          \<and> (active (L ! j) \<and> isGraphView (L ! j) \<longrightarrow> map_of (chartInstances s) j \<noteq> None)"
  shows "charts_inv (s\<lparr>items := L\<rparr>)"
  using assms by (auto simp: charts_inv_def chart_inv_def split: option.splits)

lemma charts_inv_update:
  assumes "charts_inv s" and "k < length (items s)" and "item d = item (items s ! k)"
    and "future_mode d = future_mode (items s ! k)"
    and "active d \<and> isGraphView d \<longrightarrow> map_of (chartInstances s) k \<noteq> None"
  shows "charts_inv (s\<lparr>items := (items s)[k := d]\<rparr>)"
proof (rule charts_inv_items [OF assms(1)])
  show "length ((items s)[k := d]) = length (items s)" by simp
  show "\<forall>j < length ((items s)[k := d]).
      item ((items s)[k := d] ! j) = item (items s ! j)
      \<and> future_mode ((items s)[k := d] ! j) = future_mode (items s ! j)
      \<and> (active ((items s)[k := d] ! j) \<and> isGraphView ((items s)[k := d] ! j)
          \<longrightarrow> map_of (chartInstances s) j \<noteq> None)"
    using assms by (auto simp: nth_list_update charts_inv_def chart_inv_def split: option.splits)
qed

lemma charts_inv_create:
  assumes inv: "charts_inv s" and k: "k < length (items s)"
    and none: "map_of (chartInstances s) k = None"
    and d: "item d = item (items s ! k)" "future_mode d = future_mode (items s ! k)"
  shows "charts_inv (s\<lparr>items := (items s)[k := d],
    chartInstances := AList.update k (item_chart k (item d) (future_mode d)) (chartInstances s),
    charts_created := charts_created s @ [item_chart k (item d) (future_mode d)]\<rparr>)"
proof -
  let ?c = "item_chart k (item d) (future_mode d)"
  from inv k none have fresh: "ItemChart k \<notin> set (map canvas (charts_created s))"
    by (auto simp: charts_inv_def chart_inv_def)
  have keys: "set (map fst (AList.update k ?c (chartInstances s)))
      = insert k (set (map fst (chartInstances s)))"
    by (simp add: dom_update)
  from inv k fresh keys d show ?thesis
    unfolding charts_inv_def chart_inv_def
    by (auto simp: list_all_iff update_conv' nth_list_update split: option.splits)
qed

section \<open>The operations keep the invariant\<close>

lemma buildTimeline_frame [simp]:
  "length (items (buildTimeline off data)) = length data"
  "chartInstances (buildTimeline off data) = []"
  "charts_created (buildTimeline off data) = []"
  "app_offset (buildTimeline off data) = off"
  by (simp_all add: buildTimeline_def)

lemma items_buildTimeline_nth:
  "i < length data \<Longrightarrow> items (buildTimeline off data) ! i = new_item (length data) i (data ! i)"
  by (simp add: buildTimeline_def nth_enumerate_eq)

lemma new_item_fields [simp]:
  "active (new_item n i r) = False" "isGraphView (new_item n i r) = False"
  "item (new_item n i r) = r" "future_mode (new_item n i r) = (n < 2 * i)"
  by (simp_all add: new_item_def)

lemma tl_inv_buildTimeline: "tl_inv (buildTimeline 0 data)"
proof -
  let ?s = "buildTimeline 0 data"
  have "list_all item_inv (items ?s)"
    by (simp add: list_all_length items_buildTimeline_nth)
  moreover have "map active (items ?s) = map (\<lambda>j. False) (items ?s)"
    by (intro nth_equalityI) (simp_all add: items_buildTimeline_nth)
  then have "single_open ?s"
    by (simp only: single_open_def count_True_none)
  moreover have "charts_inv ?s"
    by (simp add: charts_inv_def chart_inv_def items_buildTimeline_nth)
  ultimately show ?thesis by (simp add: tl_inv_def)
qed

lemma tl_inv_closeAccordion:
  assumes "tl_inv s"
  shows "tl_inv (closeAccordion i i s)"
proof (cases "i < length (items s)")
  case False
  with assms show ?thesis by (simp add: closeAccordion_same upd_item_absent)
next
  case True
  have "\<not> active (close_item (items s ! i))" by (simp add: item_writes)
  moreover have "charts_inv (s\<lparr>items := (items s)[i := close_item (items s ! i)]\<rparr>)"
    using assms True by (intro charts_inv_update) (simp_all add: tl_inv_def item_writes)
  ultimately show ?thesis
    using assms True
    by (simp add: closeAccordion_same upd_item_present tl_inv_def list_all_update
        single_open_update_inactive)
qed

lemma tl_inv_openAccordion:
  assumes "tl_inv s" and "k < length (items s)"
  shows "tl_inv (openAccordion k s)"
proof -
  let ?L = "map (\<lambda>j. if j = k then open_item (items s ! j) else close_item (items s ! j))
    [0..<length (items s)]"
  from assms have eq: "openAccordion k s = s\<lparr>items := ?L\<rparr>"
    by (simp add: openAccordion_eq tl_inv_def)
  have "list_all item_inv ?L" by (auto simp: list_all_iff)
  moreover have "single_open (s\<lparr>items := ?L\<rparr>)"
    using assms(2) by (rule single_open_opened)
  moreover have "charts_inv (s\<lparr>items := ?L\<rparr>)"
    using assms by (intro charts_inv_items) (auto simp: tl_inv_def item_writes)
  ultimately show ?thesis
    using assms(1) by (simp add: eq tl_inv_def)
qed

text \<open>
  The second half of the toggle listener: the flag \<^verbatim>\<open>isGraphView\<close> is negated and
  \<^verbatim>\<open>toggleGraphView\<close> is called with the new value.
\<close>

definition flip_item :: "item_view \<Rightarrow> item_view" where
  "flip_item =
     (\<lambda>d. if isGraphView d then show_text (d\<lparr>isGraphView := False\<rparr>)
          else show_graph (d\<lparr>isGraphView := True\<rparr>))"

definition flip_view :: "nat \<Rightarrow> timeline \<Rightarrow> timeline" where
  "flip_view k s =
     (let s2 = upd_item k (\<lambda>d. d\<lparr>isGraphView := \<not> isGraphView d\<rparr>) s;
          d = items s2 ! k
      in state_after (toggleGraphView k (item d) (future_mode d) (isGraphView d) s2))"

lemma toggle_click_eq:
  "state_after (toggle_click k s)
     = flip_view k (if \<not> active (items s ! k) then openAccordion k s else s)"
  by (simp add: toggle_click_def flip_view_def Let_def)

lemma flip_view_eq:
  assumes "k < length (items s)"
  shows "flip_view k s =
    (if \<not> isGraphView (items s ! k) \<and> map_of (chartInstances s) k = None
     then s\<lparr>items := (items s)[k := flip_item (items s ! k)],
            chartInstances := AList.update k
              (item_chart k (item (items s ! k)) (future_mode (items s ! k))) (chartInstances s),
            charts_created := charts_created s
              @ [item_chart k (item (items s ! k)) (future_mode (items s ! k))]\<rparr>
     else s\<lparr>items := (items s)[k := flip_item (items s ! k)]\<rparr>)"
  using assms
  by (simp add: flip_view_def Let_def toggleGraphView_eq upd_item_present flip_item_def
      show_graph_def show_text_def)

lemma flip_item_frame [simp]:
  "active (flip_item d) = active d" "item (flip_item d) = item d"
  "future_mode (flip_item d) = future_mode d"
  "isGraphView (flip_item d) = (\<not> isGraphView d)"
  by (simp_all add: flip_item_def item_writes)

lemma tl_inv_flip_view:
  assumes inv: "tl_inv s" and k: "k < length (items s)" and act: "active (items s ! k)"
  shows "tl_inv (flip_view k s)"
proof -
  let ?d = "items s ! k"
  from inv k have d: "item_inv ?d" by (simp add: tl_inv_def list_all_length)
  have fd: "item_inv (flip_item ?d)"
    using item_inv_flip [OF d act] by (simp add: flip_item_def)
  from inv have ci: "charts_inv s" by (simp add: tl_inv_def)
  have items: "list_all item_inv ((items s)[k := flip_item ?d])"
    using inv fd by (simp add: tl_inv_def list_all_update)
  have one: "single_open (s\<lparr>items := (items s)[k := flip_item ?d]\<rparr>)"
    using inv k by (intro single_open_update_same) (simp_all add: tl_inv_def)
  show ?thesis
  proof (cases "\<not> isGraphView ?d \<and> map_of (chartInstances s) k = None")
    case True
    have "charts_inv (s\<lparr>items := (items s)[k := flip_item ?d],
        chartInstances := AList.update k
          (item_chart k (item (flip_item ?d)) (future_mode (flip_item ?d))) (chartInstances s),
        charts_created := charts_created s
          @ [item_chart k (item (flip_item ?d)) (future_mode (flip_item ?d))]\<rparr>)"
      using ci k True by (intro charts_inv_create) simp_all
    with True inv k items one show ?thesis
      by (simp add: flip_view_eq tl_inv_def single_open_def)
  next
    case False
    have "charts_inv (s\<lparr>items := (items s)[k := flip_item ?d]\<rparr>)"
      using ci k False by (intro charts_inv_update) auto
    moreover have "flip_view k s = s\<lparr>items := (items s)[k := flip_item ?d]\<rparr>"
      by (subst flip_view_eq [OF k]) (simp only: False if_False)
    ultimately show ?thesis
      using inv items one by (simp add: tl_inv_def)
  qed
qed

lemma tl_inv_toggle_click:
  assumes "tl_inv s" and "k < length (items s)"
  shows "tl_inv (state_after (toggle_click k s))"
proof (cases "active (items s ! k)")
  case True
  with assms show ?thesis by (simp add: toggle_click_eq tl_inv_flip_view)
next
  case False
  from assms have "tl_inv (openAccordion k s)" by (rule tl_inv_openAccordion)
  moreover have "length (items (openAccordion k s)) = length (items s)"
    and "active (items (openAccordion k s) ! k)"
    using assms by (simp_all add: openAccordion_eq tl_inv_def item_writes)
  ultimately show ?thesis
    using False assms(2) by (simp add: toggle_click_eq tl_inv_flip_view)
qed

lemma tl_inv_handle:
  assumes "tl_inv s"
  shows "tl_inv (handle c s)"
proof (cases "click_target c < length (items s)")
  case False
  with assms show ?thesis by (simp add: handle_def)
next
  case True
  with assms show ?thesis
    by (cases c)
      (simp_all add: handle_def bubble_click_def close_click_def content_click_def
        tl_inv_closeAccordion tl_inv_openAccordion tl_inv_toggle_click)
qed

lemma tl_inv_run: "tl_inv s \<Longrightarrow> tl_inv (run cs s)"
  unfolding run_def by (induction cs arbitrary: s) (simp_all add: tl_inv_handle)

lemma reachable_tl_inv: "reachable data s \<Longrightarrow> tl_inv s"
  by (induction rule: reachable.induct) (simp_all add: tl_inv_buildTimeline tl_inv_handle)

section \<open>What the operations show\<close>

lemma item_state_writes [simp]:
  "item_state (close_item d) = Closed"
  "item_state (open_item d) = OpenText"
  "item_state (new_item n i r) = Closed"
  by (simp_all add: item_state_def item_writes)

lemma item_state_flip:
  "item_inv d \<Longrightarrow> active d \<Longrightarrow>
     item_state (flip_item d) = (if item_state d = OpenGraph then OpenText else OpenGraph)"
  by (auto simp: item_state_def item_inv_def flip_item_def item_writes split: if_splits)

lemma item_state_Closed_iff: "item_state d = Closed \<longleftrightarrow> \<not> active d"
  by (simp add: item_state_def)

lemma item_state_graph_iff:
  "item_inv d \<Longrightarrow> item_state d = OpenGraph \<longleftrightarrow> active d \<and> isGraphView d"
  by (auto simp: item_state_def item_inv_def split: if_splits)

lemma items_closeAccordion_nth:
  "j < length (items s) \<Longrightarrow>
     items (closeAccordion i i s) ! j = (if j = i then close_item (items s ! j) else items s ! j)"
  by (simp add: closeAccordion_same items_upd_item_nth)

lemma items_openAccordion_nth:
  assumes "app_offset s = 0" and "k < length (items s)" and "j < length (items s)"
  shows "items (openAccordion k s) ! j
    = (if j = k then open_item (items s ! j) else close_item (items s ! j))"
  using assms by (simp add: openAccordion_eq)

lemma openAccordion_frame:
  assumes "app_offset s = 0" and "k < length (items s)"
  shows "length (items (openAccordion k s)) = length (items s)"
    and "chartInstances (openAccordion k s) = chartInstances s"
    and "charts_created (openAccordion k s) = charts_created s"
    and "app_offset (openAccordion k s) = 0"
  using assms by (simp_all add: openAccordion_eq)

lemma items_flip_view_nth:
  assumes "k < length (items s)" and "j < length (items s)"
  shows "items (flip_view k s) ! j = (if j = k then flip_item (items s ! j) else items s ! j)"
  using assms by (simp add: flip_view_eq nth_list_update)

lemma length_items_flip_view [simp]:
  "k < length (items s) \<Longrightarrow> length (items (flip_view k s)) = length (items s)"
  by (simp add: flip_view_eq)

lemma length_items_handle [simp]:
  "app_offset s = 0 \<Longrightarrow> length (items (handle c s)) = length (items s)"
  by (cases c)
    (simp_all add: handle_def bubble_click_def close_click_def content_click_def
      toggle_click_eq openAccordion_frame)

text \<open>
  The state of every item after each kind of click, in a state that satisfies
  the invariant.
\<close>

lemma state_of_open:
  assumes "tl_inv s" and "k < length (items s)" and "j < length (items s)"
  shows "state_of (openAccordion k s) j = (if j = k then OpenText else Closed)"
  using assms by (simp add: state_of_def items_openAccordion_nth tl_inv_def)

lemma state_of_close:
  assumes "j < length (items s)"
  shows "state_of (closeAccordion i i s) j = (if j = i then Closed else state_of s j)"
  using assms by (simp add: state_of_def items_closeAccordion_nth)

lemma state_of_bubble_click:
  assumes "tl_inv s" and "k < length (items s)" and "j < length (items s)"
  shows "state_of (handle (BubbleClick k) s) j =
    (if state_of s k = Closed then (if j = k then OpenText else Closed)
     else (if j = k then Closed else state_of s j))"
  using assms
  by (simp add: handle_def bubble_click_def state_of_open state_of_close)
    (simp add: state_of_def item_state_Closed_iff)

lemma state_of_toggle_click:
  assumes inv: "tl_inv s" and k: "k < length (items s)" and j: "j < length (items s)"
  shows "state_of (handle (ToggleClick k) s) j =
    (if state_of s k = Closed then (if j = k then OpenGraph else Closed)
     else (if j = k then (if state_of s k = OpenGraph then OpenText else OpenGraph)
           else state_of s j))"
proof (cases "active (items s ! k)")
  case True
  from inv k have "item_inv (items s ! k)" by (simp add: tl_inv_def list_all_length)
  with True k j show ?thesis
    by (simp add: handle_def toggle_click_eq state_of_def items_flip_view_nth item_state_flip
        item_state_Closed_iff)
next
  case False
  let ?o = "openAccordion k s"
  from inv k have len: "length (items ?o) = length (items s)"
    by (simp add: openAccordion_frame tl_inv_def)
  from inv k have ok: "items ?o ! k = open_item (items s ! k)"
    by (simp add: items_openAccordion_nth tl_inv_def)
  have "item_state (flip_item (open_item (items s ! k))) = OpenGraph"
    by (simp add: item_state_def flip_item_def item_writes)
  with False k j len ok inv show ?thesis
    by (simp add: handle_def toggle_click_eq state_of_def items_flip_view_nth
        items_openAccordion_nth item_state_Closed_iff tl_inv_def)
qed

lemma handle_frame [simp]:
  "app_offset s = 0 \<Longrightarrow> app_offset (handle c s) = 0"
  by (cases c)
    (simp_all add: handle_def bubble_click_def close_click_def content_click_def
      toggle_click_eq openAccordion_frame flip_view_eq)

lemma run_simps [simp]:
  "run [] s = s" "run (c # cs) s = run cs (handle c s)"
  by (simp_all add: run_def)

lemma run_append: "run (cs @ ds) s = run ds (run cs s)"
  by (simp add: run_def)

lemma reachable_run: "reachable data s \<Longrightarrow> reachable data (run cs s)"
  by (induction cs arbitrary: s) (simp_all add: reachable.click)

lemma reachable_iff_run: "reachable data s \<longleftrightarrow> (\<exists>cs. s = run cs (buildTimeline 0 data))"
proof
  assume "reachable data s"
  then show "\<exists>cs. s = run cs (buildTimeline 0 data)"
  proof (induction rule: reachable.induct)
    case built
    have "buildTimeline 0 data = run [] (buildTimeline 0 data)" by simp
    then show ?case by blast
  next
    case (click s c)
    then obtain cs where "s = run cs (buildTimeline 0 data)" by blast
    then have "handle c s = run (cs @ [c]) (buildTimeline 0 data)"
      by (simp add: run_append)
    then show ?case by blast
  qed
next
  assume "\<exists>cs. s = run cs (buildTimeline 0 data)"
  then show "reachable data s"
    by (auto intro: reachable_run reachable.built)
qed

section \<open>The records behind the items\<close>

definition data_inv :: "year_record list \<Rightarrow> timeline \<Rightarrow> bool" where
  "data_inv data s \<longleftrightarrow>
     length (items s) = length data
     \<and> (\<forall>i < length data.
          item (items s ! i) = data ! i \<and> future_mode (items s ! i) = (length data < 2 * i))"

lemma item_writes_frame [simp]:
  "item (close_item d) = item d" "future_mode (close_item d) = future_mode d"
  "item (open_item d) = item d" "future_mode (open_item d) = future_mode d"
  "isGraphView (close_item d) = isGraphView d"
  by (simp_all add: item_writes)

lemma data_inv_buildTimeline: "data_inv data (buildTimeline off data)"
  by (simp add: data_inv_def items_buildTimeline_nth)

lemma data_inv_handle:
  assumes "app_offset s = 0" and "data_inv data s"
  shows "data_inv data (handle c s)"
proof (cases "click_target c < length (items s)")
  case False
  with assms show ?thesis by (simp add: handle_def)
next
  case True
  have flip: "data_inv data (flip_view k t)" if "data_inv data t" "k < length (items t)" for k t
    using that by (simp add: data_inv_def items_flip_view_nth)
  have opened: "data_inv data (openAccordion k s)" if "k < length (items s)" for k
    using that assms by (simp add: data_inv_def items_openAccordion_nth openAccordion_frame)
  have closed: "data_inv data (closeAccordion k k s)" for k
    using assms by (simp add: data_inv_def items_closeAccordion_nth)
  from True assms show ?thesis
    by (cases c)
      (simp_all add: handle_def bubble_click_def close_click_def content_click_def
        toggle_click_eq opened closed flip openAccordion_frame)
qed

lemma reachable_data_inv: "reachable data s \<Longrightarrow> data_inv data s"
proof (induction rule: reachable.induct)
  case built
  show ?case by (rule data_inv_buildTimeline)
next
  case (click s c)
  from click.hyps have "app_offset s = 0" by (simp add: reachable_tl_inv [unfolded tl_inv_def])
  then show ?case using click.IH by (rule data_inv_handle)
qed

lemma flip_item_twice:
  assumes "item_inv d" and "active d"
  shows "flip_item (flip_item d) = d"
  using assms by (cases d) (auto simp: item_inv_def flip_item_def item_writes split: if_splits)

section \<open>Operations in a mount with foreign children\<close>

text \<open>
  The loop of \<^verbatim>\<open>openAccordion\<close> for any \<open>app_offset\<close>: it keeps the number of items,
  and an item whose index is below the offset is never an index that
  \<^verbatim>\<open>closeAccordion\<close> resets, so the loop only removes its \<^verbatim>\<open>active\<close> class.
\<close>

lemma openAccordion_close_others:
  "openAccordion k s = upd_item k open_item (close_others k s)"
  by (simp add: openAccordion_def Let_def upd_item_twice comp_def open_item_def)

lemma fold_close_frame:
  "length (items (fold (\<lambda>j s'. if j \<noteq> k then closeAccordion j (j + app_offset s') s' else s')
      js s)) = length (items s)"
  "app_offset (fold (\<lambda>j s'. if j \<noteq> k then closeAccordion j (j + app_offset s') s' else s')
      js s) = app_offset s"
  by (induction js arbitrary: s) simp_all

lemma length_items_openAccordion [simp]:
  "length (items (openAccordion k s)) = length (items s)"
  by (simp add: openAccordion_close_others close_others_def fold_close_frame)

lemma closeAccordion_low:
  assumes "i < app_offset s" and "i < length (items s)"
  shows "items (closeAccordion j (j + app_offset s) s) ! i
    = (if j = i then deactivate (items s ! i) else items s ! i)"
  using assms by (simp add: closeAccordion_eq items_upd_item_nth)

lemma fold_close_low:
  assumes "i < app_offset s" and "i < length (items s)"
  shows "items (fold (\<lambda>j s'. if j \<noteq> k then closeAccordion j (j + app_offset s') s' else s')
      js s) ! i
    = (if i \<in> set js \<and> i \<noteq> k then deactivate (items s ! i) else items s ! i)"
  using assms
proof (induction js arbitrary: s)
  case Nil
  show ?case by simp
next
  case (Cons j js)
  let ?t = "if j \<noteq> k then closeAccordion j (j + app_offset s) s else s"
  have t: "i < app_offset ?t" "i < length (items ?t)" using Cons.prems by simp_all
  have "items ?t ! i = (if j = i \<and> j \<noteq> k then deactivate (items s ! i) else items s ! i)"
    using Cons.prems by (simp add: closeAccordion_low)
  with Cons.IH [OF t] show ?case by (auto simp: deactivate_def)
qed

lemma openAccordion_low:
  assumes "i < app_offset s" and "i < length (items s)" and "k \<noteq> i"
  shows "items (openAccordion k s) ! i = deactivate (items s ! i)"
proof -
  have "items (close_others k s) ! i = deactivate (items s ! i)"
    using assms by (simp add: close_others_def fold_close_low)
  moreover have "i < length (items (close_others k s))"
    using assms(2) by (simp add: close_others_def fold_close_frame)
  ultimately show ?thesis
    using assms(3) by (simp add: openAccordion_close_others items_upd_item_nth)
qed

text \<open>
  The toggle listener returns: the index it passes to \<^verbatim>\<open>toggleGraphView\<close> is the
  index of its own item, which \<^verbatim>\<open>openAccordion\<close> does not remove.
\<close>

lemma toggle_click_returns:
  assumes "k < length (items s)"
  shows "toggle_click k s
    = Inr (flip_view k (if \<not> active (items s ! k) then openAccordion k s else s))"
  using assms by (simp add: toggle_click_def flip_view_def Let_def toggleGraphView_eq)

section \<open>Properties\<close>

text \<open>
  C3: every click listener keeps the invariant of the page: the controls and
  panes of each item agree with its \<^verbatim>\<open>active\<close> class and its view flag, at most one
  item is active, and the charts that exist are the ones created for existing
  items, one per canvas.
\<close>

theorem handle_keeps_invariant: "tl_inv s \<Longrightarrow> tl_inv (handle c s)"
  by (rule tl_inv_handle)

theorem handle_keeps_invariant_witness:
  "tl_inv (buildTimeline 0 sample_records)
   \<and> tl_inv (handle (ToggleClick 1) (buildTimeline 0 sample_records))"
  using handle_keeps_invariant [OF tl_inv_buildTimeline, of "ToggleClick 1" sample_records]
    tl_inv_buildTimeline [of sample_records]
  by simp

text \<open>
  C4: in every state the page can reach from the freshly built timeline by
  clicks, at most one accordion item is open.
\<close>

theorem at_most_one_open:
  assumes "reachable data s" and "i < length (items s)" and "j < length (items s)"
    and "state_of s i \<noteq> Closed" and "state_of s j \<noteq> Closed"
  shows "i = j"
proof -
  from assms(1) have "single_open s" by (simp add: reachable_tl_inv [unfolded tl_inv_def])
  with assms(2-5) show ?thesis
    by (intro single_open_unique [of s i j]) (simp_all add: state_of_def item_state_Closed_iff)
qed

theorem at_most_one_open_witness:
  "reachable sample_records (run [ToggleClick 0, BubbleClick 1] (buildTimeline 0 sample_records))
   \<and> 1 < length (items (run [ToggleClick 0, BubbleClick 1] (buildTimeline 0 sample_records)))
   \<and> state_of (run [ToggleClick 0, BubbleClick 1] (buildTimeline 0 sample_records)) 1 \<noteq> Closed
   \<and> (1::nat) = 1"
proof -
  let ?s = "run [ToggleClick 0, BubbleClick 1] (buildTimeline 0 sample_records)"
  have r: "reachable sample_records ?s"
    by (intro reachable_run reachable.built)
  have l: "1 < length (items ?s)" by simp
  have o: "state_of ?s 1 \<noteq> Closed" by code_simp
  from at_most_one_open [OF r l l o o] r l o show ?thesis by simp
qed

text \<open>
  C5: clicking the year bubble of a closed item while another item is open
  closes that other item and opens the clicked one in its text view: never both
  open, and never directly in the graph view.
\<close>

theorem open_closes_other:
  assumes "tl_inv s" and "a < length (items s)" and "b < length (items s)" and "a \<noteq> b"
    and "state_of s a \<noteq> Closed"
  shows "state_of (handle (BubbleClick b) s) b = OpenText
    \<and> state_of (handle (BubbleClick b) s) a = Closed"
proof -
  have "state_of s b = Closed"
  proof (rule ccontr)
    assume "state_of s b \<noteq> Closed"
    with assms have "a = b"
      by (intro single_open_unique [of s a b])
        (simp_all add: tl_inv_def state_of_def item_state_Closed_iff)
    with assms(4) show False by simp
  qed
  with assms show ?thesis by (simp add: state_of_bubble_click)
qed

theorem open_closes_other_witness:
  "tl_inv (run [ToggleClick 0] (buildTimeline 0 sample_records))
   \<and> 0 < length (items (run [ToggleClick 0] (buildTimeline 0 sample_records)))
   \<and> 2 < length (items (run [ToggleClick 0] (buildTimeline 0 sample_records)))
   \<and> (0::nat) \<noteq> 2
   \<and> state_of (run [ToggleClick 0] (buildTimeline 0 sample_records)) 0 \<noteq> Closed
   \<and> state_of (handle (BubbleClick 2) (run [ToggleClick 0] (buildTimeline 0 sample_records))) 2
       = OpenText
   \<and> state_of (handle (BubbleClick 2) (run [ToggleClick 0] (buildTimeline 0 sample_records))) 0
       = Closed"
proof -
  let ?s = "run [ToggleClick 0] (buildTimeline 0 sample_records)"
  have i: "tl_inv ?s" by (intro tl_inv_run tl_inv_buildTimeline)
  have l0: "0 < length (items ?s)" and l2: "2 < length (items ?s)" by simp_all
  have o: "state_of ?s 0 \<noteq> Closed" by code_simp
  from open_closes_other [OF i l0 l2 _ o] i l0 l2 o show ?thesis by simp
qed

text \<open>
  C7: clicking the stats toggle of a closed item opens it and shows its graph
  in one step, and leaves every other item closed.
\<close>

theorem toggle_opens_graph:
  assumes "tl_inv s" and "k < length (items s)" and "state_of s k = Closed"
  shows "state_of (handle (ToggleClick k) s) k = OpenGraph
    \<and> (\<forall>j < length (items s). j \<noteq> k \<longrightarrow> state_of (handle (ToggleClick k) s) j = Closed)"
  using assms by (simp add: state_of_toggle_click)

theorem toggle_opens_graph_witness:
  "tl_inv (buildTimeline 0 sample_records)
   \<and> 1 < length (items (buildTimeline 0 sample_records))
   \<and> state_of (buildTimeline 0 sample_records) 1 = Closed
   \<and> state_of (handle (ToggleClick 1) (buildTimeline 0 sample_records)) 1 = OpenGraph
   \<and> state_of (handle (ToggleClick 1) (buildTimeline 0 sample_records)) 0 = Closed
   \<and> state_of (handle (ToggleClick 1) (buildTimeline 0 sample_records)) 2 = Closed"
proof -
  let ?s = "buildTimeline 0 sample_records"
  have l: "1 < length (items ?s)" by simp
  have c: "state_of ?s 1 = Closed" by (simp add: state_of_def items_buildTimeline_nth)
  from toggle_opens_graph [OF tl_inv_buildTimeline l c] tl_inv_buildTimeline [of sample_records] l c
  show ?thesis by simp
qed

text \<open>
  C8: an open item that is closed, by its year bubble or by its close button,
  and then opened again shows its text view, also when it was closed while it
  showed its graph.
\<close>

theorem reopen_shows_text:
  assumes "tl_inv s" and "k < length (items s)" and "state_of s k \<noteq> Closed"
    and "c = BubbleClick k \<or> c = CloseClick k"
  shows "state_of (run [c, BubbleClick k] s) k = OpenText"
proof -
  from assms(1) have off: "app_offset s = 0" by (simp add: tl_inv_def)
  have closed: "state_of (handle c s) k = Closed"
  proof (cases "c = BubbleClick k")
    case True
    with assms show ?thesis by (simp add: state_of_bubble_click)
  next
    case False
    with assms show ?thesis by (simp add: handle_def close_click_def state_of_close)
  qed
  moreover have "tl_inv (handle c s)" using assms(1) by (rule tl_inv_handle)
  moreover have "k < length (items (handle c s))" using assms(2) off by simp
  ultimately show ?thesis by (simp add: state_of_bubble_click)
qed

theorem reopen_shows_text_witness:
  "tl_inv (run [ToggleClick 2] (buildTimeline 0 sample_records))
   \<and> 2 < length (items (run [ToggleClick 2] (buildTimeline 0 sample_records)))
   \<and> state_of (run [ToggleClick 2] (buildTimeline 0 sample_records)) 2 \<noteq> Closed
   \<and> (CloseClick 2 = BubbleClick 2 \<or> CloseClick 2 = CloseClick 2)
   \<and> state_of (run [CloseClick 2, BubbleClick 2]
         (run [ToggleClick 2] (buildTimeline 0 sample_records))) 2 = OpenText"
proof -
  let ?s = "run [ToggleClick 2] (buildTimeline 0 sample_records)"
  have i: "tl_inv ?s" by (intro tl_inv_run tl_inv_buildTimeline)
  have l: "2 < length (items ?s)" by simp
  have o: "state_of ?s 2 \<noteq> Closed" by code_simp
  from reopen_shows_text [OF i l o, of "CloseClick 2"] i l o show ?thesis by simp
qed

text \<open>
  C6: a chart is created at most once per item during a session: in every
  reachable state the \<^verbatim>\<open>new Chart\<close> calls made so far were for pairwise different
  canvases, so there are never more charts than items.
\<close>

theorem chart_created_once:
  assumes "reachable data s"
  shows "distinct (map canvas (charts_created s))
    \<and> length (charts_created s) \<le> length (items s)"
proof -
  from assms have inv: "charts_inv s" by (simp add: reachable_tl_inv [unfolded tl_inv_def])
  then have d: "distinct (map canvas (charts_created s))"
    and r: "set (map canvas (charts_created s)) \<subseteq> ItemChart ` {..<length (items s)}"
    by (auto simp: charts_inv_def list_all_iff)
  have "length (charts_created s) = card (set (map canvas (charts_created s)))"
    using distinct_card [OF d] by simp
  also have "\<dots> \<le> card (ItemChart ` {..<length (items s)})"
    using r by (intro card_mono) simp_all
  also have "\<dots> \<le> length (items s)"
    using card_image_le [of "{..<length (items s)}" ItemChart] by simp
  finally show ?thesis using d by simp
qed

theorem chart_created_once_witness:
  "reachable sample_records
     (run [ToggleClick 0, ToggleClick 0, ToggleClick 0, ToggleClick 1] (buildTimeline 0 sample_records))
   \<and> distinct (map canvas (charts_created
         (run [ToggleClick 0, ToggleClick 0, ToggleClick 0, ToggleClick 1]
           (buildTimeline 0 sample_records))))
   \<and> length (charts_created
         (run [ToggleClick 0, ToggleClick 0, ToggleClick 0, ToggleClick 1]
           (buildTimeline 0 sample_records)))
       \<le> length (items
         (run [ToggleClick 0, ToggleClick 0, ToggleClick 0, ToggleClick 1]
           (buildTimeline 0 sample_records)))"
proof -
  let ?s = "run [ToggleClick 0, ToggleClick 0, ToggleClick 0, ToggleClick 1]
    (buildTimeline 0 sample_records)"
  have r: "reachable sample_records ?s"
    by (intro reachable_run reachable.built)
  from chart_created_once [OF r] r show ?thesis by simp
qed

text \<open>
  C13: the chart that exists for an item is the radar chart of that item's
  record in the colours of the item's era: items in the later half of the
  timeline (index above half the number of records) use the alternate theme.
\<close>

theorem chart_matches_item:
  assumes "reachable data s" and "map_of (chartInstances s) i = Some c"
  shows "i < length data \<and> c = item_chart i (data ! i) (length data < 2 * i)"
proof -
  from assms(1) have inv: "charts_inv s" and dat: "data_inv data s"
    by (simp_all add: reachable_tl_inv [unfolded tl_inv_def] reachable_data_inv)
  from assms(2) have "i \<in> set (map fst (chartInstances s))"
    by (auto dest: map_of_SomeD intro: rev_image_eqI)
  with inv have i: "i < length (items s)" by (auto simp: charts_inv_def list_all_iff)
  with inv assms(2) have "c = item_chart i (item (items s ! i)) (future_mode (items s ! i))"
    by (auto simp: charts_inv_def chart_inv_def)
  with i dat show ?thesis by (simp add: data_inv_def)
qed

theorem chart_matches_item_witness:
  "reachable sample_records (run [ToggleClick 2] (buildTimeline 0 sample_records))
   \<and> map_of (chartInstances (run [ToggleClick 2] (buildTimeline 0 sample_records))) 2
       = Some (item_chart 2 (sample_records ! 2) True)
   \<and> 2 < length sample_records
   \<and> item_chart 2 (sample_records ! 2) True
       = item_chart 2 (sample_records ! 2) (length sample_records < 2 * 2)"
proof -
  let ?s = "run [ToggleClick 2] (buildTimeline 0 sample_records)"
  have r: "reachable sample_records ?s" by (intro reachable_run reachable.built)
  have c: "map_of (chartInstances ?s) 2 = Some (item_chart 2 (sample_records ! 2) True)"
    by code_simp
  from chart_matches_item [OF r c] r c show ?thesis by simp
qed

text \<open>
  C22: toggling the view of an open item twice restores every element of every
  item: the toggle switches between exactly two views.
\<close>

theorem toggle_twice_restores:
  assumes "tl_inv s" and "k < length (items s)" and "state_of s k \<noteq> Closed"
  shows "items (run [ToggleClick k, ToggleClick k] s) = items s"
proof -
  from assms have act: "active (items s ! k)" and d: "item_inv (items s ! k)"
    by (simp_all add: state_of_def item_state_Closed_iff tl_inv_def list_all_length)
  let ?t = "flip_view k s"
  from assms(2) have len: "length (items ?t) = length (items s)" by simp
  from assms(2) have tk: "items ?t ! k = flip_item (items s ! k)"
    by (simp add: items_flip_view_nth)
  have "items (flip_view k ?t) = items s"
  proof (rule nth_equalityI)
    show "length (items (flip_view k ?t)) = length (items s)" using assms(2) len by simp
    fix j assume "j < length (items (flip_view k ?t))"
    with assms(2) len have j: "j < length (items s)" by simp
    with assms(2) len tk show "items (flip_view k ?t) ! j = items s ! j"
      by (simp add: items_flip_view_nth flip_item_twice [OF d act])
  qed
  with assms(2) act len tk show ?thesis
    by (simp add: handle_def toggle_click_eq)
qed

theorem toggle_twice_restores_witness:
  "tl_inv (run [BubbleClick 0] (buildTimeline 0 sample_records))
   \<and> 0 < length (items (run [BubbleClick 0] (buildTimeline 0 sample_records)))
   \<and> state_of (run [BubbleClick 0] (buildTimeline 0 sample_records)) 0 \<noteq> Closed
   \<and> items (run [ToggleClick 0, ToggleClick 0] (run [BubbleClick 0] (buildTimeline 0 sample_records)))
       = items (run [BubbleClick 0] (buildTimeline 0 sample_records))"
proof -
  let ?s = "run [BubbleClick 0] (buildTimeline 0 sample_records)"
  have i: "tl_inv ?s" by (intro tl_inv_run tl_inv_buildTimeline)
  have l: "0 < length (items ?s)" by simp
  have o: "state_of ?s 0 \<noteq> Closed" by code_simp
  from toggle_twice_restores [OF i l o] i l o show ?thesis by simp
qed

text \<open>
  C23: every item can be brought into each of its three states by at most one
  click, from every state that satisfies the invariant: no state of the page
  locks an item.
\<close>

theorem every_state_one_click_away:
  assumes "tl_inv s" and "k < length (items s)"
  shows "\<exists>cs. length cs \<le> 1 \<and> state_of (run cs s) k = target"
proof (cases "state_of s k = target")
  case True
  then have "length ([] :: click list) \<le> 1 \<and> state_of (run [] s) k = target" by simp
  then show ?thesis by blast
next
  case False
  let ?c = "if target = OpenGraph \<or> (target = OpenText \<and> state_of s k = OpenGraph)
    then ToggleClick k else BubbleClick k"
  from assms False have "state_of (run [?c] s) k = target"
    by (cases target; cases "state_of s k")
      (simp_all add: state_of_toggle_click state_of_bubble_click)
  moreover have "length [?c] \<le> 1" by simp
  ultimately show ?thesis by blast
qed

theorem every_state_one_click_away_witness:
  "tl_inv (buildTimeline 0 sample_records) \<and> 1 < length (items (buildTimeline 0 sample_records))
   \<and> (\<exists>cs. length cs \<le> 1 \<and> state_of (run cs (buildTimeline 0 sample_records)) 1 = OpenGraph)"
proof -
  have l: "1 < length (items (buildTimeline 0 sample_records))" by simp
  from every_state_one_click_away [OF tl_inv_buildTimeline l, of OpenGraph]
    tl_inv_buildTimeline [of sample_records] l
  show ?thesis by simp
qed

text \<open>
  C36: closing an item resets its panes and buttons but not the view flag of its
  closure: \<^verbatim>\<open>closeAccordion\<close> leaves \<^verbatim>\<open>viewState.isGraphView\<close> as it was. The flag
  is reset by the next \<^verbatim>\<open>openAccordion\<close> only, so a closed item can carry a set
  flag.
\<close>

theorem close_keeps_view_flag:
  assumes "i < length (items s)"
  shows "isGraphView (items (closeAccordion i i s) ! i) = isGraphView (items s ! i)"
  using assms by (simp add: items_closeAccordion_nth)

theorem close_keeps_view_flag_witness:
  "2 < length (items (run [ToggleClick 2] (buildTimeline 0 sample_records)))
   \<and> isGraphView (items (closeAccordion 2 2 (run [ToggleClick 2] (buildTimeline 0 sample_records))) ! 2)
   \<and> isGraphView (items (run [ToggleClick 2] (buildTimeline 0 sample_records)) ! 2)
   \<and> state_of (closeAccordion 2 2 (run [ToggleClick 2] (buildTimeline 0 sample_records))) 2 = Closed"
proof -
  let ?s = "run [ToggleClick 2] (buildTimeline 0 sample_records)"
  have l: "2 < length (items ?s)" by simp
  have g: "isGraphView (items ?s ! 2)" by code_simp
  from close_keeps_view_flag [OF l] l g show ?thesis by (simp add: state_of_close)
qed

text \<open>
  C35: an element child of the mount in front of the items breaks closing. When
  the mount has \<open>app_offset s > 0\<close> foreign children, the index that
  \<^verbatim>\<open>openAccordion\<close> passes to \<^verbatim>\<open>closeAccordion\<close> is too large by that number: opening
  any item while an item \<open>i\<close> below that number is open removes the \<^verbatim>\<open>active\<close> class
  of item \<open>i\<close> but resets the controls of another index, so item \<open>i\<close> is closed with
  its two buttons still displayed, and the invariant of the item is lost.
\<close>

theorem foreign_child_breaks_close:
  assumes "i < app_offset s" and "i < length (items s)" and "k \<noteq> i"
    and "active (items s ! i)" and "item_inv (items s ! i)"
  shows "state_of (openAccordion k s) i = Closed
    \<and> toggle_display (items (openAccordion k s) ! i) = DFlex
    \<and> close_display (items (openAccordion k s) ! i) = DBlock
    \<and> \<not> item_inv (items (openAccordion k s) ! i)"
  using assms
  by (simp add: openAccordion_low state_of_def item_state_def item_inv_def deactivate_def)

theorem foreign_child_breaks_close_witness:
  "0 < app_offset (run [BubbleClick 0] (buildTimeline 1 sample_records))
   \<and> 0 < length (items (run [BubbleClick 0] (buildTimeline 1 sample_records)))
   \<and> (1::nat) \<noteq> 0
   \<and> active (items (run [BubbleClick 0] (buildTimeline 1 sample_records)) ! 0)
   \<and> item_inv (items (run [BubbleClick 0] (buildTimeline 1 sample_records)) ! 0)
   \<and> state_of (run [BubbleClick 0, BubbleClick 1] (buildTimeline 1 sample_records)) 0 = Closed
   \<and> toggle_display (items (run [BubbleClick 0, BubbleClick 1] (buildTimeline 1 sample_records)) ! 0)
       = DFlex"
proof -
  let ?s = "run [BubbleClick 0] (buildTimeline 1 sample_records)"
  have h: "0 < app_offset ?s" "0 < length (items ?s)" "(1::nat) \<noteq> 0"
    "active (items ?s ! 0)" "item_inv (items ?s ! 0)"
    by code_simp+
  have r: "run [BubbleClick 0, BubbleClick 1] (buildTimeline 1 sample_records)
    = openAccordion 1 ?s"
    by code_simp
  from foreign_child_breaks_close [OF h] h show ?thesis by (simp only: r) simp
qed

text \<open>
  C24: no listener throws. A click on a control of an existing item runs its
  listener to the end: the unguarded writes of \<^verbatim>\<open>toggleGraphView\<close> always find their
  panes and their canvas, because the listener passes the index of its own item
  and no operation removes an item.
\<close>

theorem listeners_never_throw:
  assumes "click_target c < length (items s)"
  shows "dispatch c s = Inr (handle c s)"
  using assms by (cases c) (simp_all add: handle_def toggle_click_returns)

theorem listeners_never_throw_witness:
  "click_target (ToggleClick 2) < length (items (buildTimeline 0 sample_records))
   \<and> dispatch (ToggleClick 2) (buildTimeline 0 sample_records)
     = Inr (handle (ToggleClick 2) (buildTimeline 0 sample_records))
   \<and> state_of (handle (ToggleClick 2) (buildTimeline 0 sample_records)) 2 = OpenGraph"
proof -
  have h: "click_target (ToggleClick 2) < length (items (buildTimeline 0 sample_records))"
    by simp
  have g: "state_of (handle (ToggleClick 2) (buildTimeline 0 sample_records)) 2 = OpenGraph"
    by code_simp
  from listeners_never_throw [OF h] h g show ?thesis by simp
qed

text \<open>
  C39: \<^verbatim>\<open>toggleGraphView\<close> throws exactly for an index without elements. Its first
  statement writes to the text pane (or the graph pane) without a guard: called
  with an index for which no pane exists it throws a \<^verbatim>\<open>TypeError\<close> before it has
  written anything, and called with the index of an item it returns.
\<close>

theorem toggleGraphView_throws_iff:
  "toggleGraphView k it isFuture showGraph s = Inl (TypeError, s) \<longleftrightarrow> length (items s) \<le> k"
  by (cases "k < length (items s)") (simp_all add: toggleGraphView_eq toggleGraphView_absent)

end
