(* ===== verification/Accordion_Spec.thy ===== *)
theory Accordion_Spec
  imports Timeline
begin

text \<open>
  What the accordion promises, as a machine over a selection value, and the
  proof that the click listeners of \<^verbatim>\<open>buildTimeline\<close> implement it.

  The abstract state \<open>accordion\<close> names the item that is open, if any, whether
  that item shows its graph pane, and the items that own a chart. The abstract
  step \<open>a_step\<close> is written from the transition rules of the accordion alone; it
  never looks at an element. The abstraction \<open>abs_state\<close> reads the abstract
  state off the element state of \<open>Timeline\<close>: the selection is the first item
  with the class \<^verbatim>\<open>active\<close>, the pane flag is that item's \<^verbatim>\<open>viewState.isGraphView\<close>,
  and the charted items are the keys of \<^verbatim>\<open>chartInstances\<close>.

  The refinement is functional: in every state that satisfies \<open>tl_inv\<close>,
  \<open>abs_state (handle c s) = a_step n c (abs_state s)\<close>. It goes through \<open>a_view\<close>,
  what an abstract state shows for each item: an abstract state is determined by
  its view and its charted items (\<open>accordion_eqI\<close>), and the view of \<open>abs_state s\<close>
  is \<open>state_of s\<close> (\<open>state_of_abs\<close>).
\<close>

section \<open>The abstract machine\<close>

record accordion =
  selected :: "nat option"
  graph :: bool
  charted :: "nat set"

definition a_init :: accordion where
  "a_init = \<lparr> selected = None, graph = False, charted = {} \<rparr>"

definition a_open :: "nat \<Rightarrow> accordion \<Rightarrow> accordion" where
  "a_open i a = a\<lparr>selected := Some i, graph := False\<rparr>"

definition a_close :: "nat \<Rightarrow> accordion \<Rightarrow> accordion" where
  "a_close i a = (if selected a = Some i then a\<lparr>selected := None, graph := False\<rparr> else a)"

definition a_flip :: "nat \<Rightarrow> accordion \<Rightarrow> accordion" where
  "a_flip i a =
     (if graph a then a\<lparr>graph := False\<rparr>
      else a\<lparr>graph := True, charted := insert i (charted a)\<rparr>)"

fun a_dispatch :: "click \<Rightarrow> accordion \<Rightarrow> accordion" where
  "a_dispatch (BubbleClick i) a = (if selected a = Some i then a_close i a else a_open i a)"
| "a_dispatch (CloseClick i) a = a_close i a"
| "a_dispatch (ToggleClick i) a = a_flip i (if selected a = Some i then a else a_open i a)"
| "a_dispatch (ContentClick i) a = a"

definition a_step :: "nat \<Rightarrow> click \<Rightarrow> accordion \<Rightarrow> accordion" where
  "a_step n c a = (if click_target c < n then a_dispatch c a else a)"

definition a_run :: "nat \<Rightarrow> click list \<Rightarrow> accordion \<Rightarrow> accordion" where
  "a_run n cs a = fold (a_step n) cs a"

definition a_view :: "accordion \<Rightarrow> nat \<Rightarrow> item_state" where
  "a_view a i =
     (if selected a = Some i then (if graph a then OpenGraph else OpenText) else Closed)"

definition a_wf :: "nat \<Rightarrow> accordion \<Rightarrow> bool" where
  "a_wf n a \<longleftrightarrow>
     (case selected a of None \<Rightarrow> \<not> graph a | Some i \<Rightarrow> i < n \<and> (graph a \<longrightarrow> i \<in> charted a))"

text \<open>
  The same machine as a labelled transition relation, one rule per transition of
  the accordion: the year bubble opens a closed item and closes an open one, the
  close button closes, the stats button opens a closed item in its graph view
  and flips an open one, and a click on the content changes nothing.
\<close>

inductive a_trans :: "nat \<Rightarrow> accordion \<Rightarrow> click \<Rightarrow> accordion \<Rightarrow> bool" for n where
  bubble_open:
    "i < n \<Longrightarrow> selected a \<noteq> Some i \<Longrightarrow>
       a_trans n a (BubbleClick i) (a\<lparr>selected := Some i, graph := False\<rparr>)"
| bubble_close:
    "i < n \<Longrightarrow> selected a = Some i \<Longrightarrow>
       a_trans n a (BubbleClick i) (a\<lparr>selected := None, graph := False\<rparr>)"
| close_open:
    "i < n \<Longrightarrow> selected a = Some i \<Longrightarrow>
       a_trans n a (CloseClick i) (a\<lparr>selected := None, graph := False\<rparr>)"
| close_closed:
    "i < n \<Longrightarrow> selected a \<noteq> Some i \<Longrightarrow> a_trans n a (CloseClick i) a"
| toggle_closed:
    "i < n \<Longrightarrow> selected a \<noteq> Some i \<Longrightarrow>
       a_trans n a (ToggleClick i)
         (a\<lparr>selected := Some i, graph := True, charted := insert i (charted a)\<rparr>)"
| toggle_text:
    "i < n \<Longrightarrow> selected a = Some i \<Longrightarrow> \<not> graph a \<Longrightarrow>
       a_trans n a (ToggleClick i) (a\<lparr>graph := True, charted := insert i (charted a)\<rparr>)"
| toggle_graph:
    "i < n \<Longrightarrow> selected a = Some i \<Longrightarrow> graph a \<Longrightarrow>
       a_trans n a (ToggleClick i) (a\<lparr>graph := False\<rparr>)"
| content:
    "i < n \<Longrightarrow> a_trans n a (ContentClick i) a"

code_pred a_trans .

inductive_cases a_trans_BubbleE [elim!]: "a_trans n a (BubbleClick i) a'"
inductive_cases a_trans_CloseE [elim!]: "a_trans n a (CloseClick i) a'"
inductive_cases a_trans_ToggleE [elim!]: "a_trans n a (ToggleClick i) a'"
inductive_cases a_trans_ContentE [elim!]: "a_trans n a (ContentClick i) a'"

section \<open>The abstraction\<close>

definition selected_of :: "timeline \<Rightarrow> nat option" where
  "selected_of s = List.find (\<lambda>i. active (items s ! i)) [0..<length (items s)]"

definition chart_keys :: "timeline \<Rightarrow> nat set" where
  "chart_keys s = set (map fst (chartInstances s))"

definition abs_state :: "timeline \<Rightarrow> accordion" where
  "abs_state s =
     \<lparr> selected = selected_of s,
       graph = (case selected_of s of None \<Rightarrow> False | Some i \<Rightarrow> isGraphView (items s ! i)),
       charted = chart_keys s \<rparr>"

section \<open>Properties of the abstract machine\<close>

lemmas a_defs = a_open_def a_close_def a_flip_def a_step_def a_view_def a_wf_def

text \<open>
  The step function is the transition relation: the relation is deterministic
  and enabled exactly for the clicks on existing items.
\<close>

lemma a_trans_step: "click_target c < n \<Longrightarrow> a_trans n a c (a_step n c a)"
  by (cases c) (auto simp: a_defs intro: a_trans.intros)

lemma a_trans_iff: "a_trans n a c a' \<longleftrightarrow> click_target c < n \<and> a' = a_step n c a"
proof
  assume "a_trans n a c a'"
  then show "click_target c < n \<and> a' = a_step n c a"
    by (cases c) (auto simp: a_defs)
qed (simp add: a_trans_step)

lemma a_trans_deterministic: "a_trans n a c a1 \<Longrightarrow> a_trans n a c a2 \<Longrightarrow> a1 = a2"
  by (simp add: a_trans_iff)

lemma a_wf_init [simp]: "a_wf n a_init"
  by (simp add: a_wf_def a_init_def)

lemma a_wf_step: "a_wf n a \<Longrightarrow> a_wf n (a_step n c a)"
  by (cases c) (auto simp: a_defs split: option.splits)

lemma a_wf_run: "a_wf n a \<Longrightarrow> a_wf n (a_run n cs a)"
  unfolding a_run_def by (induction cs arbitrary: a) (simp_all add: a_wf_step)

lemma a_run_simps [simp]:
  "a_run n [] a = a" "a_run n (c # cs) a = a_run n cs (a_step n c a)"
  by (simp_all add: a_run_def)

lemma charted_step_mono: "charted a \<subseteq> charted (a_step n c a)"
  by (cases c) (auto simp: a_defs)

lemma charted_run_mono: "charted a \<subseteq> charted (a_run n cs a)"
proof (induction cs arbitrary: a)
  case (Cons c cs)
  from charted_step_mono [of a n c] Cons [of "a_step n c a"] show ?case by auto
qed simp

lemma a_view_bubble:
  "k < n \<Longrightarrow> a_view (a_step n (BubbleClick k) a) j =
     (if a_view a k = Closed then (if j = k then OpenText else Closed)
      else (if j = k then Closed else a_view a j))"
  by (auto simp: a_defs)

lemma a_view_close:
  "a_view (a_step n (CloseClick k) a) j = (if j = k \<and> k < n then Closed else a_view a j)"
  by (auto simp: a_defs)

lemma a_view_toggle:
  "k < n \<Longrightarrow> a_view (a_step n (ToggleClick k) a) j =
     (if a_view a k = Closed then (if j = k then OpenGraph else Closed)
      else (if j = k then (if a_view a k = OpenGraph then OpenText else OpenGraph)
            else a_view a j))"
  by (auto simp: a_defs)

lemma charted_step:
  "charted (a_step n c a) =
     (case c of
        ToggleClick k \<Rightarrow>
          if k < n \<and> a_view a k \<noteq> OpenGraph then insert k (charted a) else charted a
      | _ \<Rightarrow> charted a)"
  by (cases c) (auto simp: a_defs)

text \<open>
  An abstract state is determined by what it shows and what it has charted.
\<close>

lemma accordion_eqI:
  fixes a b :: accordion
  assumes wf: "a_wf n a" "a_wf n b"
    and view: "\<And>i. i < n \<Longrightarrow> a_view a i = a_view b i"
    and ch: "charted a = charted b"
  shows "a = b"
proof -
  have sel: "selected x = Some i \<Longrightarrow> selected y = Some i"
    if "a_wf n x" and "\<And>i. i < n \<Longrightarrow> a_view x i = a_view y i" for x y :: accordion and i
    using that(1) that(2) [of i] by (auto simp: a_wf_def a_view_def split: if_splits)
  have s: "selected a = selected b"
  proof (cases "selected a")
    case None
    with sel [of b a] wf(2) view show ?thesis by (cases "selected b") auto
  next
    case (Some i)
    with sel [of a b i] wf(1) view show ?thesis by simp
  qed
  have "graph a = graph b"
  proof (cases "selected a")
    case None
    with s wf show ?thesis by (simp add: a_wf_def)
  next
    case (Some i)
    with s have sb: "selected b = Some i" by simp
    from wf(1) Some have "i < n" by (simp add: a_wf_def)
    from view [OF this] Some sb show ?thesis by (simp add: a_view_def split: if_splits)
  qed
  with s ch show ?thesis by simp
qed

section \<open>The abstraction of a state that satisfies the invariant\<close>

lemma selected_of_Some_iff:
  assumes "single_open s"
  shows "selected_of s = Some k \<longleftrightarrow> k < length (items s) \<and> active (items s ! k)"
proof
  assume "selected_of s = Some k"
  then show "k < length (items s) \<and> active (items s ! k)"
    by (auto simp: selected_of_def find_Some_iff)
next
  assume k: "k < length (items s) \<and> active (items s ! k)"
  then have "\<not> active (items s ! j)" if "j < k" for j
    using single_open_unique [OF assms, of j k] that by auto
  with k show "selected_of s = Some k"
    by (auto simp: selected_of_def find_Some_iff intro!: exI [of _ k])
qed

lemma selected_of_None_iff:
  "selected_of s = None \<longleftrightarrow> (\<forall>i < length (items s). \<not> active (items s ! i))"
  by (auto simp: selected_of_def find_None_iff)

lemma chart_keys_iff: "k \<in> chart_keys s \<longleftrightarrow> map_of (chartInstances s) k \<noteq> None"
  by (simp add: chart_keys_def map_of_eq_None_iff)

lemma state_of_abs:
  assumes "tl_inv s" and "i < length (items s)"
  shows "state_of s i = a_view (abs_state s) i"
proof -
  from assms have one: "single_open s" and d: "item_inv (items s ! i)"
    by (simp_all add: tl_inv_def list_all_length)
  show ?thesis
  proof (cases "active (items s ! i)")
    case True
    with assms(2) one have "selected_of s = Some i" by (simp add: selected_of_Some_iff)
    with True d show ?thesis
      by (auto simp: state_of_def item_state_def item_inv_def a_view_def abs_state_def)
  next
    case False
    with one have "selected_of s \<noteq> Some i" by (simp add: selected_of_Some_iff)
    with False show ?thesis
      by (simp add: state_of_def item_state_def a_view_def abs_state_def)
  qed
qed

lemma a_wf_abs:
  assumes "tl_inv s"
  shows "a_wf (length (items s)) (abs_state s)"
proof (cases "selected_of s")
  case None
  then show ?thesis by (simp add: a_wf_def abs_state_def)
next
  case (Some i)
  from assms have one: "single_open s" by (simp add: tl_inv_def)
  from Some one have i: "i < length (items s)" "active (items s ! i)"
    by (simp_all add: selected_of_Some_iff)
  from assms i(1) have "chart_inv s i" by (simp add: tl_inv_def charts_inv_def)
  with i have "isGraphView (items s ! i) \<longrightarrow> i \<in> chart_keys s"
    by (auto simp: chart_inv_def chart_keys_iff split: option.splits)
  with Some i show ?thesis by (simp add: a_wf_def abs_state_def)
qed

lemma abs_state_sel [simp]:
  "selected (abs_state s) = selected_of s" "charted (abs_state s) = chart_keys s"
  by (simp_all add: abs_state_def)

lemma abs_state_buildTimeline: "abs_state (buildTimeline off data) = a_init"
proof -
  have "selected_of (buildTimeline off data) = None"
    by (simp add: selected_of_None_iff items_buildTimeline_nth)
  then show ?thesis by (simp add: abs_state_def a_init_def chart_keys_def)
qed

section \<open>The charted items after a click\<close>

lemma chart_keys_flip_view:
  assumes "k < length (items s)"
  shows "chart_keys (flip_view k s)
    = (if isGraphView (items s ! k) then chart_keys s else insert k (chart_keys s))"
proof (cases "map_of (chartInstances s) k")
  case None
  with assms show ?thesis by (simp add: flip_view_eq chart_keys_def dom_update)
next
  case (Some c)
  then have "k \<in> chart_keys s" by (simp add: chart_keys_iff)
  with Some assms show ?thesis by (auto simp: flip_view_eq chart_keys_def)
qed

lemma chart_keys_handle:
  assumes inv: "tl_inv s"
  shows "chart_keys (handle c s) =
     (case c of
        ToggleClick k \<Rightarrow>
          if k < length (items s) \<and> state_of s k \<noteq> OpenGraph then insert k (chart_keys s)
          else chart_keys s
      | _ \<Rightarrow> chart_keys s)"
proof (cases c)
  case (ToggleClick k)
  show ?thesis
  proof (cases "k < length (items s)")
    case False
    with ToggleClick show ?thesis by (simp add: handle_def)
  next
    case k: True
    from inv k have d: "item_inv (items s ! k)" and off: "app_offset s = 0"
      by (simp_all add: tl_inv_def list_all_length)
    show ?thesis
    proof (cases "active (items s ! k)")
      case True
      with ToggleClick k d show ?thesis
        by (simp add: handle_def toggle_click_eq chart_keys_flip_view item_state_graph_iff
            state_of_def)
    next
      case False
      have "chart_keys (openAccordion k s) = chart_keys s"
        using off k by (simp add: chart_keys_def openAccordion_frame)
      with False ToggleClick k off show ?thesis
        by (simp add: handle_def toggle_click_eq chart_keys_flip_view openAccordion_frame
            items_openAccordion_nth open_item_def state_of_def item_state_def)
    qed
  qed
qed (simp_all add: handle_def bubble_click_def close_click_def content_click_def chart_keys_def
    openAccordion_frame tl_inv_def inv [unfolded tl_inv_def])

section \<open>Refinement\<close>

lemma state_of_handle:
  assumes inv: "tl_inv s" and j: "j < length (items s)"
  shows "state_of (handle c s) j = a_view (a_step (length (items s)) c (abs_state s)) j"
proof (cases "click_target c < length (items s)")
  case False
  with inv j show ?thesis by (simp add: handle_def a_step_def state_of_abs)
next
  case True
  note view = state_of_abs [OF inv, symmetric]
  show ?thesis
  proof (cases c)
    case (BubbleClick k)
    with True inv j show ?thesis by (simp add: state_of_bubble_click a_view_bubble view)
  next
    case (CloseClick k)
    with True inv j show ?thesis
      by (simp add: handle_def close_click_def state_of_close a_view_close view)
  next
    case (ToggleClick k)
    with True inv j show ?thesis by (simp add: state_of_toggle_click a_view_toggle view)
  next
    case (ContentClick k)
    with inv j show ?thesis by (simp add: handle_def content_click_def a_step_def view)
  qed
qed

lemma abs_state_handle:
  assumes inv: "tl_inv s"
  shows "abs_state (handle c s) = a_step (length (items s)) c (abs_state s)"
proof (rule accordion_eqI [where n = "length (items s)"])
  from inv have len: "length (items (handle c s)) = length (items s)"
    by (simp add: tl_inv_def)
  from a_wf_abs [OF tl_inv_handle [OF inv, of c]] len
  show "a_wf (length (items s)) (abs_state (handle c s))" by simp
  from inv show "a_wf (length (items s)) (a_step (length (items s)) c (abs_state s))"
    by (intro a_wf_step a_wf_abs)
  show "a_view (abs_state (handle c s)) i = a_view (a_step (length (items s)) c (abs_state s)) i"
    if "i < length (items s)" for i
    using state_of_abs [OF tl_inv_handle [OF inv, of c], of i] state_of_handle [OF inv that, of c]
      that len by simp
  have "charted (abs_state (handle c s)) = chart_keys (handle c s)"
    by (simp add: abs_state_def)
  also have "\<dots> = charted (a_step (length (items s)) c (abs_state s))"
    using inv
    by (cases c) (simp_all add: chart_keys_handle charted_step state_of_abs cong: conj_cong)
  finally show "charted (abs_state (handle c s))
    = charted (a_step (length (items s)) c (abs_state s))" .
qed

lemma abs_state_run:
  "tl_inv s \<Longrightarrow> abs_state (run cs s) = a_run (length (items s)) cs (abs_state s)"
proof (induction cs arbitrary: s)
  case (Cons c cs)
  from Cons.prems have "length (items (handle c s)) = length (items s)"
    by (simp add: tl_inv_def)
  with Cons.IH [OF tl_inv_handle [OF Cons.prems], of c] Cons.prems show ?case
    by (simp add: abs_state_handle)
qed simp

text \<open>
  Forward simulation: every click on an existing item is a transition of the
  abstract accordion between the abstractions of the two states.
\<close>

lemma handle_simulates:
  assumes "tl_inv s" and "click_target c < length (items s)"
  shows "a_trans (length (items s)) (abs_state s) c (abs_state (handle c s))"
  using assms by (simp add: a_trans_iff abs_state_handle)

text \<open>
  C2: the click listeners refine the abstract accordion. In every state that
  satisfies the invariant, handling a click and then reading off the selection,
  the pane flag and the charted items gives the state the abstract machine
  reaches by its step for that click.
\<close>

theorem handle_refines:
  assumes "tl_inv s"
  shows "abs_state (handle c s) = a_step (length (items s)) c (abs_state s)"
  using assms by (rule abs_state_handle)

theorem handle_refines_witness:
  "tl_inv (run [ToggleClick 1] (buildTimeline 0 sample_records))
   \<and> abs_state (handle (BubbleClick 2) (run [ToggleClick 1] (buildTimeline 0 sample_records)))
     = \<lparr> selected = Some 2, graph = False, charted = {1} \<rparr>"
proof -
  let ?s = "run [ToggleClick 1] (buildTimeline 0 sample_records)"
  have inv: "tl_inv ?s" by (intro tl_inv_run tl_inv_buildTimeline)
  have len: "length (items ?s) = 3" using inv by (simp add: tl_inv_buildTimeline)
  have a: "abs_state ?s = \<lparr> selected = Some 1, graph = True, charted = {1} \<rparr>"
    by code_simp
  from handle_refines [OF inv, of "BubbleClick 2"]
  have "abs_state (handle (BubbleClick 2) ?s)
    = a_step 3 (BubbleClick 2) \<lparr> selected = Some 1, graph = True, charted = {1} \<rparr>"
    by (simp only: len a)
  also have "\<dots> = \<lparr> selected = Some 2, graph = False, charted = {1} \<rparr>"
    by (simp add: a_defs)
  finally show ?thesis using inv by simp
qed

text \<open>
  C19: a whole session refines the abstract accordion. After any sequence of
  clicks on the freshly built timeline, the selection, the pane flag and the
  charted items are those the abstract machine reaches from its initial state
  by the same clicks.
\<close>

theorem session_refines:
  "abs_state (run cs (buildTimeline 0 data)) = a_run (length data) cs a_init"
  using abs_state_run [OF tl_inv_buildTimeline, of cs data]
  by (simp add: abs_state_buildTimeline)

text \<open>
  C33: an item keeps its chart. In a state that satisfies the invariant, every
  index that is a key of \<^verbatim>\<open>chartInstances\<close> is still a key after any sequence of
  clicks: the script never deletes a chart instance.
\<close>

theorem chart_keys_grow:
  assumes "tl_inv s"
  shows "chart_keys s \<subseteq> chart_keys (run cs s)"
proof -
  have "chart_keys (run cs s) = charted (abs_state (run cs s))" by (simp add: abs_state_def)
  also have "\<dots> = charted (a_run (length (items s)) cs (abs_state s))"
    using assms by (simp add: abs_state_run)
  finally show ?thesis
    using charted_run_mono [of "abs_state s" "length (items s)" cs] by (simp add: abs_state_def)
qed

theorem chart_keys_grow_witness:
  "tl_inv (run [ToggleClick 1] (buildTimeline 0 sample_records))
   \<and> 1 \<in> chart_keys (run [ToggleClick 1, BubbleClick 0, ToggleClick 2]
       (buildTimeline 0 sample_records))"
proof -
  let ?s = "run [ToggleClick 1] (buildTimeline 0 sample_records)"
  have inv: "tl_inv ?s" by (intro tl_inv_run tl_inv_buildTimeline)
  have "1 \<in> chart_keys ?s" by code_simp
  with chart_keys_grow [OF inv, of "[BubbleClick 0, ToggleClick 2]"] inv show ?thesis
    by auto
qed

end
