(* ===== verification/Lightbox.thy ===== *)
theory Lightbox
  imports Timeline
begin

text \<open>
  The image overlay: \<^verbatim>\<open>window.openModal\<close> and the \<^verbatim>\<open>onclick\<close> handler of the
  element \<^verbatim>\<open>.close\<close> (\<^verbatim>\<open>src/script.js\<close>, lines 359-366), and the thumbnails that
  \<^verbatim>\<open>buildTimeline\<close> writes into each item (line 133).

  The state is a \<open>modal\<close>: the inline \<^verbatim>\<open>display\<close> of \<^verbatim>\<open>#imageModal\<close> and the \<^verbatim>\<open>src\<close>
  of \<^verbatim>\<open>#modalImg\<close>, \<open>None\<close> while the script has not written it. \<open>visibleSrc\<close>
  is the state the overlay promises: the image on show, if any.

  A thumbnail carries its handler as text, \<^verbatim>\<open>onclick="openModal('...')"\<close> with the
  image source pasted between the quotes. \<open>thumb_arg\<close> is the argument that
  handler passes: the source itself when it has no character that the HTML
  parser or the string literal would read as something else (\<open>attr_safe\<close>: no
  NUL, quote, backslash, ampersand or line break). For any other source the
  handler text is a different program (\<^verbatim>\<open>x'+'y\<close> opens \<^verbatim>\<open>xy\<close>), which the model does
  not evaluate: \<open>thumb_arg\<close> is \<open>None\<close> and \<open>thumb_click\<close> leaves the overlay as it
  is, so the statements about thumbnails are for \<open>attr_safe\<close> sources only.
\<close>

section \<open>State and operations\<close>

record modal =
  imageModal_display :: display
  modalImg_src :: "jstring option"

definition openModal :: "jstring \<Rightarrow> modal \<Rightarrow> modal" where
  "openModal src m =
     (let m1 = m\<lparr>imageModal_display := DBlock\<rparr>
      in m1\<lparr>modalImg_src := Some src\<rparr>)"

definition close_onclick :: "modal \<Rightarrow> modal" where
  "close_onclick m = m\<lparr>imageModal_display := DNone\<rparr>"

definition attr_safe :: "jstring \<Rightarrow> bool" where
  "attr_safe src \<longleftrightarrow>
     list_all
       (\<lambda>c. c \<notin> set [CHR 0x00, CHR 0x22, CHR 0x27, CHR 0x5C, CHR ''&'', CHR 0x0A, CHR 0x0D]) src"

definition thumb_arg :: "jstring \<Rightarrow> jstring option" where
  "thumb_arg src = (if attr_safe src then Some src else None)"

definition thumbs :: "item_view \<Rightarrow> jstring list" where
  "thumbs d = images (item d)"

definition thumb_click :: "timeline \<Rightarrow> nat \<Rightarrow> nat \<Rightarrow> modal \<Rightarrow> modal" where
  "thumb_click s index j m =
     (if index < length (items s) \<and> j < length (thumbs (items s ! index)) then
        (case thumb_arg (thumbs (items s ! index) ! j) of
           Some src \<Rightarrow> openModal src m
         | None \<Rightarrow> m)
      else m)"

datatype modal_event = Open jstring | Close

fun modal_step :: "modal_event \<Rightarrow> modal \<Rightarrow> modal" where
  "modal_step (Open src) m = openModal src m"
| "modal_step Close m = close_onclick m"

section \<open>What the overlay shows\<close>

definition visibleSrc :: "modal \<Rightarrow> jstring option" where
  "visibleSrc m = (if imageModal_display m = DBlock then modalImg_src m else None)"

fun last_open :: "modal_event list \<Rightarrow> jstring option \<Rightarrow> jstring option" where
  "last_open [] v = v"
| "last_open (Open src # es) v = last_open es (Some src)"
| "last_open (Close # es) v = last_open es None"

lemmas modal_defs = openModal_def close_onclick_def visibleSrc_def

lemma openModal_fields [simp]:
  "imageModal_display (openModal src m) = DBlock" "modalImg_src (openModal src m) = Some src"
  by (simp_all add: openModal_def)

lemma close_onclick_fields [simp]:
  "imageModal_display (close_onclick m) = DNone" "modalImg_src (close_onclick m) = modalImg_src m"
  by (simp_all add: close_onclick_def)

lemma visibleSrc_step:
  "visibleSrc (modal_step e m) = (case e of Open src \<Rightarrow> Some src | Close \<Rightarrow> None)"
  by (cases e) (simp_all add: visibleSrc_def)

lemma visibleSrc_fold:
  "visibleSrc (fold modal_step es m) = last_open es (visibleSrc m)"
proof (induction es arbitrary: m)
  case (Cons e es)
  then show ?case by (cases e) (simp_all add: visibleSrc_def)
qed simp

lemma attr_safe_append [simp]: "attr_safe (a @ b) \<longleftrightarrow> attr_safe a \<and> attr_safe b"
  by (simp add: attr_safe_def)

lemma thumb_click_absent:
  "length (items s) \<le> i \<or> length (thumbs (items s ! i)) \<le> j \<Longrightarrow> thumb_click s i j m = m"
  by (auto simp: thumb_click_def)

text \<open>
  C30: the overlay shows one image at a time. After any sequence of \<^verbatim>\<open>openModal\<close>
  calls and clicks on the close control, the overlay shows the source of the last
  \<^verbatim>\<open>openModal\<close> call when no close click came after it, and nothing otherwise;
  earlier images are not kept.
\<close>

theorem overlay_shows_last_opened:
  "visibleSrc (fold modal_step es m) = last_open es (visibleSrc m)"
  by (rule visibleSrc_fold)

text \<open>
  Closing hides the overlay and keeps the image: the handler only writes
  \<^verbatim>\<open>display\<close>.
\<close>

lemma close_keeps_src:
  "visibleSrc (close_onclick (openModal src m)) = None
   \<and> modalImg_src (close_onclick (openModal src m)) = Some src"
  by (simp add: visibleSrc_def)

text \<open>
  C31: a thumbnail opens its own image. A click on thumbnail \<open>j\<close> of item \<open>i\<close>,
  whose source has no NUL, quote, backslash, ampersand or line break, makes the
  overlay show exactly that source.
\<close>

theorem thumb_click_shows_image:
  assumes "i < length (items s)" and "j < length (images (item (items s ! i)))"
    and "attr_safe (images (item (items s ! i)) ! j)"
  shows "visibleSrc (thumb_click s i j m) = Some (images (item (items s ! i)) ! j)"
  using assms by (simp add: thumb_click_def thumbs_def thumb_arg_def visibleSrc_def)

theorem thumb_click_shows_image_witness:
  "2 < length (items (buildTimeline 0 sample_records))
   \<and> 0 < length (images (item (items (buildTimeline 0 sample_records) ! 2)))
   \<and> attr_safe (images (item (items (buildTimeline 0 sample_records) ! 2)) ! 0)
   \<and> visibleSrc (thumb_click (buildTimeline 0 sample_records) 2 0
        \<lparr>imageModal_display = Unset, modalImg_src = None\<rparr>) = Some ''img/2021.jpg''"
proof -
  let ?s = "buildTimeline 0 sample_records"
  have h: "2 < length (items ?s)" "0 < length (images (item (items ?s ! 2)))"
    "attr_safe (images (item (items ?s ! 2)) ! 0)"
    by code_simp+
  have v: "images (item (items ?s ! 2)) ! 0 = ''img/2021.jpg''" by code_simp
  from thumb_click_shows_image [OF h, of "\<lparr>imageModal_display = Unset, modalImg_src = None\<rparr>"]
    h v show ?thesis by simp
qed

end
