(* ===== verification/Bootstrap.thy ===== *)
theory Bootstrap
  imports Accordion_Spec Lightbox
begin

text \<open>
  The start-up sequence: the body of the \<^verbatim>\<open>DOMContentLoaded\<close> handler
  (\<^verbatim>\<open>src/script.js\<close>, lines 1-55 and 359-366), which composes the loader, the
  merge, the hero charts, the timeline and the overlay, and the page it leaves
  behind for the user's clicks.

  A \<open>page\<close> is what the handler has written when it returns: the markup it
  assigned to the mount \<^verbatim>\<open>#timeline-app\<close> (\<open>None\<close> when it appended items instead),
  the charts drawn by \<^verbatim>\<open>initHeroCharts\<close>, the timeline (\<open>None\<close> when
  \<^verbatim>\<open>buildTimeline\<close> never ran), the overlay, whether the overlay's two handlers
  were installed (they are the last statements of the handler, after both early
  \<^verbatim>\<open>return\<close>s), the messages passed to \<^verbatim>\<open>console.error\<close>, and the requests issued.
  \<open>main\<close> takes what the document held before the script ran: the number of
  element children of the mount and the overlay's state.

  After start-up the page changes only through events: a click on a control or
  on the content of an item (\<open>item_event\<close>), a click on a thumbnail (\<open>thumb_event\<close>),
  a click on the overlay's close control (\<open>close_event\<close>). A click on a thumbnail
  runs the thumbnail's inline handler and then bubbles: the listeners of the
  year bubble and of the two buttons are not on its path, the listener of the
  item's \<^verbatim>\<open>div\<close> (lines 208-215) is, so the timeline receives a \<open>ContentClick\<close>.
  \<open>page_step\<close> delivers one event and \<open>session\<close> a sequence of them.
\<close>

section \<open>State\<close>

record page =
  app_innerHTML :: "jstring option"
  hero_charts :: "chart list"
  tl :: "timeline option"
  lightbox :: modal
  modal_wired :: bool
  console_errors :: "jstring list"
  fetched :: "jstring list"

datatype event = Click click | ThumbClick nat nat | ModalClose

section \<open>Start-up\<close>

definition no_data_html :: jstring where
  "no_data_html = ''<div style=\"padding: 20px;\">No timeline data available.</div>''"

definition main :: "nat \<Rightarrow> modal \<Rightarrow> network \<Rightarrow> page" where
  "main offset m0 net =
     (let (result, log) = load_data net;
          p0 = \<lparr> app_innerHTML = None, hero_charts = [], tl = None, lightbox = m0,
                 modal_wired = False, console_errors = [], fetched = log \<rparr>
      in case result of
           Inl msg \<Rightarrow> p0\<lparr>console_errors := [msg], app_innerHTML := Some (error_html msg)\<rparr>
         | Inr (contentData, llmData) \<Rightarrow>
             (let mergedData = merge_data llmData contentData
              in if length mergedData = 0 then p0\<lparr>app_innerHTML := Some no_data_html\<rparr>
                 else (let latestData = mergedData ! (length mergedData - 1)
                       in p0\<lparr>hero_charts := initHeroCharts latestData,
                             tl := Some (buildTimeline offset mergedData),
                             modal_wired := True\<rparr>)))"

section \<open>Events\<close>

definition item_event :: "click \<Rightarrow> page \<Rightarrow> page" where
  "item_event c p = p\<lparr>tl := map_option (handle c) (tl p)\<rparr>"

definition thumb_event :: "nat \<Rightarrow> nat \<Rightarrow> page \<Rightarrow> page" where
  "thumb_event i j p =
     (case tl p of
        None \<Rightarrow> p
      | Some s \<Rightarrow>
          if i < length (items s) \<and> j < length (thumbs (items s ! i)) then
            (let p1 = (if modal_wired p then p\<lparr>lightbox := thumb_click s i j (lightbox p)\<rparr>
                       else p)
             in p1\<lparr>tl := Some (handle (ContentClick i) s)\<rparr>)
          else p)"

definition close_event :: "page \<Rightarrow> page" where
  "close_event p = (if modal_wired p then p\<lparr>lightbox := close_onclick (lightbox p)\<rparr> else p)"

fun page_step :: "event \<Rightarrow> page \<Rightarrow> page" where
  "page_step (Click c) p = item_event c p"
| "page_step (ThumbClick i j) p = thumb_event i j p"
| "page_step ModalClose p = close_event p"

definition session :: "event list \<Rightarrow> page \<Rightarrow> page" where
  "session es p = fold page_step es p"

section \<open>Invariant\<close>

definition page_inv :: "page \<Rightarrow> bool" where
  "page_inv p \<longleftrightarrow>
     (case tl p of
        None \<Rightarrow> hero_charts p = [] \<and> \<not> modal_wired p \<and> app_innerHTML p \<noteq> None
      | Some s \<Rightarrow>
          tl_inv s \<and> items s \<noteq> [] \<and> map canvas (hero_charts p) = [HeroSkillChart, HeroCareerChart]
          \<and> modal_wired p \<and> app_innerHTML p = None)"

declare page_inv_def [inv_defs]

section \<open>The three outcomes of start-up\<close>

lemma main_Inl:
  assumes "fst (load_data net) = Inl msg"
  shows "main off m0 net =
    \<lparr> app_innerHTML = Some (error_html msg), hero_charts = [], tl = None, lightbox = m0,
      modal_wired = False, console_errors = [msg], fetched = snd (load_data net) \<rparr>"
  using assms by (cases "load_data net") (simp add: main_def)

lemma main_empty:
  assumes "fst (load_data net) = Inr ([], llmData)"
  shows "main off m0 net =
    \<lparr> app_innerHTML = Some no_data_html, hero_charts = [], tl = None, lightbox = m0,
      modal_wired = False, console_errors = [], fetched = snd (load_data net) \<rparr>"
  using assms by (cases "load_data net") (simp add: main_def merge_data_def)

lemma main_Inr:
  assumes "fst (load_data net) = Inr (contentData, llmData)" and "contentData \<noteq> []"
  shows "main off m0 net =
    \<lparr> app_innerHTML = None,
      hero_charts = initHeroCharts (last (merge_data llmData contentData)),
      tl = Some (buildTimeline off (merge_data llmData contentData)), lightbox = m0,
      modal_wired = True, console_errors = [], fetched = snd (load_data net) \<rparr>"
  using assms
  by (cases "load_data net") (simp add: main_def Let_def last_conv_nth merge_data_def)

lemma main_cases:
  obtains (failed) msg where "fst (load_data net) = Inl msg"
  | (empty) llmData where "fst (load_data net) = Inr ([], llmData)"
  | (loaded) contentData llmData where
      "fst (load_data net) = Inr (contentData, llmData)" "contentData \<noteq> []"
proof (cases "fst (load_data net)")
  case (Inl msg)
  then show ?thesis by (rule failed)
next
  case (Inr r)
  then show ?thesis by (cases r; cases "fst r = []") (auto intro: empty loaded)
qed

lemma items_buildTimeline_Nil_iff [simp]:
  "items (buildTimeline off data) = [] \<longleftrightarrow> data = []"
  using buildTimeline_frame(1) [of off data] by (metis length_0_conv)

lemma merge_data_Nil_iff [simp]: "merge_data l c = [] \<longleftrightarrow> c = []"
  by (simp add: merge_data_def)

lemma items_handle_Nil_iff:
  "app_offset s = 0 \<Longrightarrow> items (handle c s) = [] \<longleftrightarrow> items s = []"
  using length_items_handle [of s c] by (metis length_0_conv)

lemma canvas_initHeroCharts [simp]:
  "map canvas (initHeroCharts data) = [HeroSkillChart, HeroCareerChart]"
  by (simp add: initHeroCharts_def hero_skill_chart_def hero_career_chart_def Let_def)

lemma page_inv_main: "page_inv (main 0 m0 net)"
proof (cases net rule: main_cases)
  case (loaded contentData llmData)
  then show ?thesis by (simp add: main_Inr page_inv_def tl_inv_buildTimeline)
qed (simp_all add: main_Inl main_empty page_inv_def)

section \<open>Events keep the invariant\<close>

lemma session_simps [simp]:
  "session [] p = p" "session (e # es) p = session es (page_step e p)"
  by (simp_all add: session_def)

lemma session_append: "session (es @ fs) p = session fs (session es p)"
  by (simp add: session_def)

lemmas event_defs = item_event_def thumb_event_def close_event_def

lemma handle_ContentClick [simp]: "handle (ContentClick i) s = s"
  by (simp add: handle_def content_click_def)

lemma page_step_frame [simp]:
  "app_innerHTML (page_step e p) = app_innerHTML p"
  "hero_charts (page_step e p) = hero_charts p"
  "modal_wired (page_step e p) = modal_wired p"
  "console_errors (page_step e p) = console_errors p"
  "fetched (page_step e p) = fetched p"
  by (cases e; simp add: event_defs Let_def split: option.splits)+

lemma page_inv_step:
  assumes "page_inv p"
  shows "page_inv (page_step e p)"
proof (cases "tl p")
  case None
  with assms show ?thesis by (cases e) (simp_all add: page_inv_def event_defs)
next
  case (Some s)
  with assms have "tl_inv s" and "app_offset s = 0" by (simp_all add: page_inv_def tl_inv_def)
  with assms Some show ?thesis
    by (cases e)
      (simp_all add: page_inv_def event_defs Let_def tl_inv_handle items_handle_Nil_iff)
qed

lemma page_inv_session: "page_inv p \<Longrightarrow> page_inv (session es p)"
  by (induction es arbitrary: p) (simp_all add: page_inv_step)

lemma session_static:
  assumes "tl p = None" and "\<not> modal_wired p"
  shows "session es p = p"
  using assms
proof (induction es arbitrary: p)
  case (Cons e es)
  then have "page_step e p = p" by (cases e) (simp_all add: event_defs)
  with Cons show ?case by simp
qed simp

text \<open>
  The timeline of a session is the run of its item clicks: the click that
  bubbles up from a thumbnail reaches a listener that does nothing, and the
  overlay's close control is outside the items.
\<close>

fun item_clicks :: "event list \<Rightarrow> click list" where
  "item_clicks [] = []"
| "item_clicks (Click c # es) = c # item_clicks es"
| "item_clicks (ThumbClick i j # es) = item_clicks es"
| "item_clicks (ModalClose # es) = item_clicks es"

lemma tl_session: "tl (session es p) = map_option (run (item_clicks es)) (tl p)"
proof (induction es arbitrary: p)
  case Nil
  show ?case by (cases "tl p") simp_all
next
  case (Cons e es)
  show ?case by (cases e; cases "tl p") (simp_all add: Cons event_defs Let_def)
qed

lemma load_data_Inr:
  assumes "load_document ''content.json'' (content_json net) = Inr c"
    and "load_document ''llm-interpretation.json'' (llm_json net) = Inr l"
  shows "load_data net
    = (Inr (js_sort year_cmp c, l), [''content.json'', ''llm-interpretation.json''])"
  using assms by (simp add: load_data_def)

lemma load_data_llm_failure:
  assumes "load_document ''content.json'' (content_json net) = Inr c"
    and "load_document ''llm-interpretation.json'' (llm_json net) = Inl msg"
  shows "load_data net = (Inl msg, [''content.json'', ''llm-interpretation.json''])"
  using assms by (simp add: load_data_def)

lemma js_sort_Nil_iff [simp]: "js_sort cmp xs = [] \<longleftrightarrow> xs = []"
  using length_js_sort [of cmp xs] by (metis length_0_conv)

section \<open>Properties of start-up\<close>

text \<open>
  C11: a failed load builds nothing. When the second document comes back with a
  non-success status, after the first loaded, the mount shows the error box with
  the text \<^verbatim>\<open>Failed to load llm-interpretation.json:\<close> and the status text, the
  error is logged once, both requests were issued in order, and no hero chart,
  no timeline and no overlay handler exists.
\<close>

theorem failed_status_builds_nothing:
  assumes "load_document ''content.json'' (content_json net) = Inr c"
    and "llm_json net = Resolved (Response False st b)"
  shows "main off m0 net =
    \<lparr> app_innerHTML = Some (error_html (''Failed to load llm-interpretation.json: '' @ st)),
      hero_charts = [], tl = None, lightbox = m0, modal_wired = False,
      console_errors = [''Failed to load llm-interpretation.json: '' @ st],
      fetched = [''content.json'', ''llm-interpretation.json''] \<rparr>"
proof -
  from assms(2)
  have "load_document ''llm-interpretation.json'' (llm_json net)
    = Inl (''Failed to load llm-interpretation.json: '' @ st)"
    by simp
  from load_data_llm_failure [OF assms(1) this] show ?thesis by (simp add: main_Inl)
qed

theorem failed_status_builds_nothing_witness:
  "load_document ''content.json''
     (content_json (sample_network\<lparr>llm_json := Resolved (Response False ''Not Found'' (Inl []))\<rparr>))
     = Inr sample_content
   \<and> tl (main 0 \<lparr>imageModal_display = Unset, modalImg_src = None\<rparr>
       (sample_network\<lparr>llm_json := Resolved (Response False ''Not Found'' (Inl []))\<rparr>)) = None
   \<and> app_innerHTML (main 0 \<lparr>imageModal_display = Unset, modalImg_src = None\<rparr>
       (sample_network\<lparr>llm_json := Resolved (Response False ''Not Found'' (Inl []))\<rparr>))
     = Some (''<div style=\"padding: 20px; color: red;\">Error loading data: ''
         @ ''Failed to load llm-interpretation.json: Not Found''
         @ ''. Please ensure content.json and llm-interpretation.json exist.</div>'')"
proof -
  let ?net = "sample_network\<lparr>llm_json := Resolved (Response False ''Not Found'' (Inl []))\<rparr>"
  have c: "load_document ''content.json'' (content_json ?net) = Inr sample_content"
    by (simp add: sample_network_def)
  have l: "llm_json ?net = Resolved (Response False ''Not Found'' (Inl []))" by simp
  from failed_status_builds_nothing [OF c l, of 0 "\<lparr>imageModal_display = Unset, modalImg_src = None\<rparr>"]
    c show ?thesis by (simp add: error_html_def)
qed

text \<open>
  C20: an empty events document is not an error. When both documents load and the
  events document is the empty array, the mount shows the no-data box, nothing
  is logged, and no hero chart, no timeline and no overlay handler exists.
\<close>

theorem empty_document_page:
  assumes "load_document ''content.json'' (content_json net) = Inr []"
    and "load_document ''llm-interpretation.json'' (llm_json net) = Inr l"
  shows "main off m0 net =
    \<lparr> app_innerHTML = Some no_data_html, hero_charts = [], tl = None, lightbox = m0,
      modal_wired = False, console_errors = [],
      fetched = [''content.json'', ''llm-interpretation.json''] \<rparr>"
  using load_data_Inr [OF assms] main_empty [of net l off m0]
  by (simp add: js_sort_def)

theorem empty_document_page_witness:
  "load_document ''content.json''
     (content_json (sample_network\<lparr>content_json := Resolved (Response True ''OK'' (Inr []))\<rparr>))
     = Inr []
   \<and> load_document ''llm-interpretation.json''
     (llm_json (sample_network\<lparr>content_json := Resolved (Response True ''OK'' (Inr []))\<rparr>))
     = Inr sample_llm
   \<and> app_innerHTML (main 0 \<lparr>imageModal_display = Unset, modalImg_src = None\<rparr>
       (sample_network\<lparr>content_json := Resolved (Response True ''OK'' (Inr []))\<rparr>))
     = Some ''<div style=\"padding: 20px;\">No timeline data available.</div>''"
proof -
  let ?net = "sample_network\<lparr>content_json := Resolved (Response True ''OK'' (Inr []))\<rparr>"
  have c: "load_document ''content.json'' (content_json ?net) = Inr []"
    by simp
  have l: "load_document ''llm-interpretation.json'' (llm_json ?net) = Inr sample_llm"
    by (simp add: sample_network_def)
  from empty_document_page [OF c l, of 0 "\<lparr>imageModal_display = Unset, modalImg_src = None\<rparr>"]
    c l show ?thesis by (simp add: no_data_html_def)
qed

text \<open>
  C15: a successful load builds the whole page. When both documents load and there
  is at least one event, the timeline is \<^verbatim>\<open>buildTimeline\<close> of the merged records in
  sorted order, the hero charts are drawn from the last of them, the mount's
  markup is not overwritten, the overlay handlers are installed and nothing is
  logged.
\<close>

theorem loaded_page:
  assumes "load_document ''content.json'' (content_json net) = Inr c"
    and "load_document ''llm-interpretation.json'' (llm_json net) = Inr l"
    and "c \<noteq> []"
  shows "main off m0 net =
    \<lparr> app_innerHTML = None,
      hero_charts = initHeroCharts (last (merge_data l (js_sort year_cmp c))),
      tl = Some (buildTimeline off (merge_data l (js_sort year_cmp c))),
      lightbox = m0, modal_wired = True, console_errors = [],
      fetched = [''content.json'', ''llm-interpretation.json''] \<rparr>"
  using load_data_Inr [OF assms(1,2)] assms(3)
    main_Inr [of net "js_sort year_cmp c" l off m0]
  by simp

theorem loaded_page_witness:
  "load_document ''content.json'' (content_json sample_network) = Inr sample_content
   \<and> load_document ''llm-interpretation.json'' (llm_json sample_network) = Inr sample_llm
   \<and> sample_content \<noteq> []
   \<and> tl (main 0 \<lparr>imageModal_display = Unset, modalImg_src = None\<rparr> sample_network)
     = Some (buildTimeline 0 sample_records)
   \<and> map labels (hero_charts
       (main 0 \<lparr>imageModal_display = Unset, modalImg_src = None\<rparr> sample_network))
     = [[''Python'', ''Design''], [''Senior Backend Engineer'', ''CEO'']]"
proof -
  have c: "load_document ''content.json'' (content_json sample_network) = Inr sample_content"
    and l: "load_document ''llm-interpretation.json'' (llm_json sample_network) = Inr sample_llm"
    by (simp_all add: sample_network_def)
  have n: "sample_content \<noteq> []" by (simp add: sample_content_def)
  have h: "map labels (initHeroCharts (last sample_records))
    = [[''Python'', ''Design''], [''Senior Backend Engineer'', ''CEO'']]"
    by code_simp
  from loaded_page [OF c l n, of 0 "\<lparr>imageModal_display = Unset, modalImg_src = None\<rparr>"]
    c l n h show ?thesis by (simp add: sample_records_def)
qed

text \<open>
  C21: a page without a timeline is static. When start-up built no timeline (the
  load failed or there were no events), no later event changes anything: there
  is no item to click and the overlay's close handler was never installed.
\<close>

theorem halted_page_is_static:
  assumes "tl (main off m0 net) = None"
  shows "session es (main off m0 net) = main off m0 net"
proof (rule session_static [OF assms])
  from assms show "\<not> modal_wired (main off m0 net)"
    by (cases net rule: main_cases) (simp_all add: main_Inl main_empty main_Inr)
qed

theorem halted_page_is_static_witness:
  "tl (main 0 \<lparr>imageModal_display = DBlock, modalImg_src = None\<rparr>
     (sample_network\<lparr>content_json := Rejected ''Failed to fetch''\<rparr>)) = None
   \<and> imageModal_display (lightbox (session [ModalClose, Click (BubbleClick 0)]
       (main 0 \<lparr>imageModal_display = DBlock, modalImg_src = None\<rparr>
         (sample_network\<lparr>content_json := Rejected ''Failed to fetch''\<rparr>)))) = DBlock"
proof -
  let ?net = "sample_network\<lparr>content_json := Rejected ''Failed to fetch''\<rparr>"
  let ?m = "\<lparr>imageModal_display = DBlock, modalImg_src = None\<rparr>"
  have f: "fst (load_data ?net) = Inl ''Failed to fetch''"
    by (simp add: load_data_def)
  have h: "tl (main 0 ?m ?net) = None" by (simp add: main_Inl [OF f])
  from halted_page_is_static [OF h, of "[ModalClose, Click (BubbleClick 0)]"] h
  show ?thesis by (simp add: main_Inl [OF f])
qed

text \<open>
  C32: thumbnails and the overlay never touch the accordion. A click on a
  thumbnail bubbles to the listener of the item's \<^verbatim>\<open>div\<close>, which opens and closes
  nothing, and a click on the overlay's close control reaches no item: the
  timeline after a session is the timeline after its item clicks alone, in the
  same order.
\<close>

theorem overlay_events_leave_timeline:
  "tl (session es p) = map_option (run (item_clicks es)) (tl p)"
  by (rule tl_session)

end
