(* ===== verification/Spec2Isabelle.thy ===== *)
theory Spec2Isabelle
  imports Bootstrap
begin

text \<open>
  \<^bold>\<open>A verification development for the timeline page script\<close> (\<^verbatim>\<open>src/script.js\<close>).

  \<^bold>\<open>The program.\<close> The script is one \<^verbatim>\<open>DOMContentLoaded\<close> handler. It fetches two
  JSON documents one after the other, sorts the events by year, merges each
  event with the interpretation of its year, draws two summary charts from the
  last record, builds one accordion item per record, and installs the handlers
  of an image overlay. Afterwards the page changes only in click listeners: the
  year bubble and the close button of an item open and close it (opening closes
  every other item), the stats button switches an open item between its text
  pane and its graph pane and creates the item's radar chart on first use, a
  thumbnail opens the overlay and the overlay's close control hides it.

  \<^bold>\<open>Theories and what they model.\<close>

  \<^item> \<open>JS_Prelude\<close>: the ECMAScript built-ins the script calls, as executable
    functions written from the language standard (\<open>split_on\<close>, \<open>js_join\<close>, \<open>js_trim\<close>,
    \<open>js_substring\<close>, \<open>js_slice\<close>, \<open>parseInt\<close>, \<open>js_to_string\<close>), their round trips
    (\<open>js_join_split_on\<close>, \<open>parseInt_js_to_string\<close>) and bounds, the counting lemmas
    behind the one-open-item invariant, and the collections \<open>js_defs\<close>, \<open>dom_defs\<close>
    and \<open>inv_defs\<close>.
  \<^item> \<open>Label_Wrap\<close>: \<^verbatim>\<open>wrapLabel\<close> (lines 263-294). \<open>wrap_loop\<close> is its \<^verbatim>\<open>for\<close> loop as a
    structural recursion over the words, \<open>wrapLabel\<close> the function. The lemmas
    give the result on each branch, the word boundary the loop cuts at, the bound
    on the first line, the number of line breaks, and the case of a long first
    word, where the first line is empty.
  \<^item> \<open>Data_Loader\<close>: the \<^verbatim>\<open>try\<close> block (lines 5-31) as \<open>load_data\<close>, a function from
    what the network returned (\<open>network\<close>, two \<open>fetch_result\<close>s) to the loaded
    documents or the error message, with the list of requests issued; the
    comparator sort as \<open>js_sort year_cmp\<close>; the merge (lines 37-45) as
    \<open>merge_item\<close> and \<open>merge_data\<close>. The lemmas show that the sort is a stable sort
    by numeric year for documents with numeric years, that it only permutes, which
    failures give which message, and the defaults of the merge.
  \<^item> \<open>Chart_Adapter\<close>: the configuration objects of the three \<^verbatim>\<open>new Chart\<close> calls
    (lines 58-104 and 253-348) as records: \<open>hero_skill_chart\<close>,
    \<open>hero_career_chart\<close>, \<open>item_chart\<close>. The lemmas give their canvases, the
    alignment of labels and values, and the bounds of ten bars and five points.
  \<^item> \<open>Timeline\<close>: \<^verbatim>\<open>buildTimeline\<close> with its closures and listeners (lines 107-234)
    and \<^verbatim>\<open>toggleGraphView\<close> (lines 237-357). The state is the record \<open>timeline\<close>:
    one \<open>item_view\<close> per \<^verbatim>\<open>.timeline-item\<close> element (classes, inline displays,
    button text, the captured \<^verbatim>\<open>viewState\<close> and \<^verbatim>\<open>item\<close>), the object
    \<^verbatim>\<open>chartInstances\<close>, and the log of \<^verbatim>\<open>new Chart\<close> calls. \<open>closeAccordion\<close>,
    \<open>openAccordion\<close> and \<open>toggleGraphView\<close> perform the writes of the functions of
    the same name in the order of the source: a write behind \<^verbatim>\<open>if (el)\<close> is the
    guarded write \<open>upd_item\<close>, a write without a guard is \<open>set_item\<close>, which throws
    a \<^verbatim>\<open>TypeError\<close> when the element is missing, so \<open>toggleGraphView\<close> and the toggle
    listener return an \<open>outcome\<close> (the page, or the error with the page at the
    \<^verbatim>\<open>throw\<close>). \<open>bubble_click\<close>, \<open>close_click\<close>, \<open>content_click\<close> and \<open>toggle_click\<close>
    are the four listeners, \<open>handle\<close> delivers one click and \<open>run\<close> a sequence of
    them; \<open>reachable\<close> is the inductive set of states of a session. The invariant
    \<open>tl_inv\<close> says that controls and panes of every item agree with its class and
    flag (\<open>item_inv\<close>), that at most one item is open (\<open>single_open\<close>), and that
    charts exist once per canvas, only for existing items and with the
    configuration of their record (\<open>charts_inv\<close>). The lemmas show that every
    operation keeps it, what every item shows after every click
    (\<open>state_of_bubble_click\<close>, \<open>state_of_toggle_click\<close>, \<open>state_of_close\<close>), that no
    listener throws, and what \<^verbatim>\<open>openAccordion\<close> does to an item when the mount has
    other children (\<open>openAccordion_low\<close>).
  \<^item> \<open>Accordion_Spec\<close>: the contract of the accordion as a machine over a selection
    value (\<open>accordion\<close>), as the step function \<open>a_step\<close> and as the labelled
    transition relation \<open>a_trans\<close>, which agree; the abstraction \<open>abs_state\<close>, and
    the functional refinement \<open>abs_state (handle c s) = a_step n c (abs_state s)\<close>
    for every state that satisfies \<open>tl_inv\<close>, lifted to runs and stated as a forward
    simulation.
  \<^item> \<open>Lightbox\<close>: \<^verbatim>\<open>openModal\<close> and the close handler (lines 359-366) on the record
    \<open>modal\<close>, and the thumbnail handler of line 133 (\<open>thumb_click\<close>). The lemmas
    show that the overlay shows the image opened last, or nothing.
  \<^item> \<open>Bootstrap\<close>: the handler body as \<open>main\<close>, from the network's answers to the
    \<open>page\<close> it leaves behind (error box, no-data box, or charts, timeline and
    overlay handlers), the events of a page (\<open>item_event\<close>, \<open>thumb_event\<close> with the
    click bubbling to the item's listener, \<open>close_event\<close>) delivered by \<open>page_step\<close>
    and \<open>session\<close>, and the invariant \<open>page_inv\<close>. The lemmas give the page for each
    outcome of the load.
  \<^item> This theory: the properties that span the components, from the network's
    answers through start-up to any later sequence of events.

  \<^bold>\<open>Modelling decisions and their bounds.\<close>

  \<^item> Strings are lists of \<^typ>\<open>char\<close>, so code units are below 256; no operation of
    the script depends on a code unit above that.
  \<^item> Numbers are \<^typ>\<open>int\<close>. The script's numbers are years, percentages and
    lengths; the model agrees with double arithmetic while they stay below
    \<open>2^53\<close>, and the statements about the order of years are statements about
    such years: beyond that bound an engine rounds and may find two different
    years equal. A year given as a number is an integer below \<open>10^21\<close>, where its
    property key is its decimal numeral. \<^verbatim>\<open>NaN\<close> is \<open>None\<close>: \<open>parseInt\<close> returns an
    \<^typ>\<open>int option\<close> and the comparator \<open>year_cmp\<close> returns \<open>None\<close> when a year does
    not parse.
  \<^item> \<^verbatim>\<open>Array.prototype.sort\<close> is an insertion sort. The standard leaves the
    algorithm open but fixes the result for a consistent comparator; for those
    \<open>js_sort_eq_sort_key\<close> shows that \<open>js_sort\<close> computes the stable sort, so the
    choice of algorithm is not visible on documents with numeric years. For a
    document with a year that does not parse the comparator is inconsistent and
    the order is the engine's choice: what the model computes there is the
    result of its own algorithm.
  \<^item> Every loop of the script runs over a finite array and is a structural
    recursion or a \<^const>\<open>fold\<close>; no fuel is needed and every function of the model
    is total.
  \<^item> \<^verbatim>\<open>chartInstances\<close> is an association list updated with \<^const>\<open>AList.update\<close>, so
    that the invariant is executable.
  \<^item> An element lookup by index finds the element exactly when the index is below
    the number of items; \<open>app_offset\<close> is the number of element children the mount
    had before the items were appended, which \<^verbatim>\<open>openAccordion\<close> adds to the index
    it passes to \<^verbatim>\<open>closeAccordion\<close>. The invariant holds for \<open>app_offset = 0\<close>;
    for a larger offset \<open>Timeline\<close> shows how opening an item breaks it. Every
    element of class \<^verbatim>\<open>timeline-item\<close> is taken to be an item of the mount, and the
    mount's other children to come before the items.
  \<^item> A click is delivered only to an element that exists (the guard of \<open>handle\<close>),
    whatever its \<^verbatim>\<open>display\<close>: whether a hidden button can be clicked is a matter
    of layout. A thumbnail's handler is modelled when its source is \<open>attr_safe\<close>;
    for other sources the handler text is a different program and the model
    leaves the overlay unchanged.
  \<^item> An object of a document is the list of its own properties in the engine's
    enumeration order.

  \<^bold>\<open>Not modelled.\<close> The charting library (a chart is the arguments of its
  constructor call), layout and style sheets (whether a hidden control can be
  clicked), the network transport and the JSON parser (their results are the
  inputs \<open>network\<close>), the fields of the item markup that no handler reads (title,
  description and summary text, which the template pastes into the markup
  without escaping), documents that do not have the shape of the record types,
  and exceptions thrown when an element of the page's own markup (a hero canvas,
  the overlay, its close control) is missing. Of \<^verbatim>\<open>console.error\<close> the model keeps
  the message of the error.
\<close>

section \<open>Shared facts\<close>

definition latest_event :: "content_item list \<Rightarrow> content_item" where
  "latest_event c = last (filter (\<lambda>e. year_num e = Max (set (map year_num c))) c)"

lemma sorted_last_Max:
  fixes xs :: "int list"
  assumes "sorted xs" and "xs \<noteq> []"
  shows "last xs = Max (set xs)"
proof -
  have "x \<le> last xs" if "x \<in> set xs" for x
    using assms(1) that
    by (induction xs) (auto split: if_splits)
  with assms(2) show ?thesis by (intro Max_eqI [symmetric]) simp_all
qed

lemma last_filter_eq: "xs \<noteq> [] \<Longrightarrow> P (last xs) \<Longrightarrow> last (filter P xs) = last xs"
  by (induction xs) (auto simp: filter_empty_conv)

text \<open>
  The last element of a stable sort is the last element of the input among
  those with the largest key.
\<close>

lemma last_sort_key:
  fixes f :: "'a \<Rightarrow> int"
  assumes "xs \<noteq> []"
  shows "last (sort_key f xs) = last (filter (\<lambda>x. f x = Max (set (map f xs))) xs)"
proof -
  let ?ys = "sort_key f xs" and ?m = "Max (set (map f xs))"
  from assms have ne: "?ys \<noteq> []" by (metis length_sort length_0_conv)
  then have "last (map f ?ys) = Max (set (map f ?ys))"
    by (intro sorted_last_Max) simp_all
  with ne have "f (last ?ys) = ?m" by (simp add: last_map)
  with ne have "last ?ys = last (filter (\<lambda>x. f x = ?m) ?ys)"
    by (simp add: last_filter_eq)
  then show ?thesis by (simp add: sort_key_stable)
qed

lemma loaded_main:
  assumes "load_document ''content.json'' (content_json net) = Inr c"
    and "load_document ''llm-interpretation.json'' (llm_json net) = Inr l"
    and "c \<noteq> []"
  shows "tl (main off m0 net) = Some (buildTimeline off (merge_data l (js_sort year_cmp c)))"
    and "hero_charts (main off m0 net) = initHeroCharts (last (merge_data l (js_sort year_cmp c)))"
  using load_data_Inr [OF assms(1,2)] assms(3) main_Inr [of net "js_sort year_cmp c" l off m0]
  by simp_all

section \<open>Properties of the whole page\<close>

text \<open>
  C1: every page the script can show is well formed. Whatever the network
  returns and whatever the user clicks afterwards, the page satisfies the page
  invariant: either nothing was built (no chart, no overlay handler, a message in
  the mount), or the timeline satisfies its invariant, has at least one item, the
  two hero charts sit on their two canvases and the overlay handlers exist.
\<close>

theorem session_keeps_page_invariant:
  "page_inv (session es (main 0 m0 net))"
  by (intro page_inv_session page_inv_main)

text \<open>
  C14: the hero charts show the latest event. When both documents load and every
  year of the events document reads as a number, the two hero charts are drawn
  from the event with the largest year, merged with the interpretation of that
  year; when several events carry the largest year, from the one that comes last
  in the document.
\<close>

theorem hero_charts_from_latest_year:
  assumes "load_document ''content.json'' (content_json net) = Inr c"
    and "load_document ''llm-interpretation.json'' (llm_json net) = Inr l"
    and "c \<noteq> []" and "numeric_years c"
  shows "hero_charts (main off m0 net) = initHeroCharts (merge_item l (latest_event c))"
proof -
  from assms(4) have "js_sort year_cmp c = sort_key year_num c"
    by (intro js_sort_eq_sort_key year_cmp_consistent)
  with assms(3) have "last (js_sort year_cmp c) = latest_event c"
    by (simp add: last_sort_key latest_event_def)
  with assms(3) have "last (merge_data l (js_sort year_cmp c)) = merge_item l (latest_event c)"
    by (simp add: merge_data_def last_map)
  with loaded_main(2) [OF assms(1-3)] show ?thesis by simp
qed

theorem hero_charts_from_latest_year_witness:
  "load_document ''content.json'' (content_json sample_network) = Inr sample_content
   \<and> load_document ''llm-interpretation.json'' (llm_json sample_network) = Inr sample_llm
   \<and> sample_content \<noteq> [] \<and> numeric_years sample_content
   \<and> latest_event sample_content = sample_item ''2021''
   \<and> map dataset_data (hero_charts
       (main 0 \<lparr>imageModal_display = Unset, modalImg_src = None\<rparr> sample_network))
     = [[80, 55], [90, 12]]"
proof -
  have c: "load_document ''content.json'' (content_json sample_network) = Inr sample_content"
    and l: "load_document ''llm-interpretation.json'' (llm_json sample_network) = Inr sample_llm"
    by (simp_all add: sample_network_def)
  have n: "sample_content \<noteq> []" by (simp add: sample_content_def)
  have e: "latest_event sample_content = sample_item ''2021''" by code_simp
  have d: "map dataset_data (initHeroCharts (merge_item sample_llm (sample_item ''2021'')))
    = [[80, 55], [90, 12]]"
    by code_simp
  from hero_charts_from_latest_year [OF c l n numeric_years_sample, of 0
      "\<lparr>imageModal_display = Unset, modalImg_src = None\<rparr>"]
    c l n e d numeric_years_sample
  show ?thesis by simp
qed

text \<open>
  C10: the page implements the abstract accordion from start-up on. When both
  documents load with \<open>n > 0\<close> events, then after any session the selection, the
  pane flag and the charted items of the timeline are those the abstract machine
  reaches from its initial state by the item clicks of the session.
\<close>

theorem page_refines_accordion:
  assumes "load_document ''content.json'' (content_json net) = Inr c"
    and "load_document ''llm-interpretation.json'' (llm_json net) = Inr l"
    and "c \<noteq> []"
  shows "map_option abs_state (tl (session es (main 0 m0 net)))
    = Some (a_run (length c) (item_clicks es) a_init)"
proof -
  let ?m = "merge_data l (js_sort year_cmp c)"
  have "abs_state (run (item_clicks es) (buildTimeline 0 ?m))
    = a_run (length ?m) (item_clicks es) a_init"
    using abs_state_run [OF tl_inv_buildTimeline, of "item_clicks es" ?m]
    by (simp add: abs_state_buildTimeline)
  with loaded_main(1) [OF assms, of 0 m0] show ?thesis by (simp add: tl_session)
qed

theorem page_refines_accordion_witness:
  "load_document ''content.json'' (content_json sample_network) = Inr sample_content
   \<and> load_document ''llm-interpretation.json'' (llm_json sample_network) = Inr sample_llm
   \<and> sample_content \<noteq> []
   \<and> map_option abs_state (tl (session
       [Click (ToggleClick 1), ThumbClick 1 0, Click (BubbleClick 2), ModalClose]
       (main 0 \<lparr>imageModal_display = Unset, modalImg_src = None\<rparr> sample_network)))
     = Some \<lparr> selected = Some 2, graph = False, charted = {1} \<rparr>"
proof -
  have c: "load_document ''content.json'' (content_json sample_network) = Inr sample_content"
    and l: "load_document ''llm-interpretation.json'' (llm_json sample_network) = Inr sample_llm"
    by (simp_all add: sample_network_def)
  have n: "sample_content \<noteq> []" by (simp add: sample_content_def)
  have a: "a_run (length sample_content) [ToggleClick 1, BubbleClick 2] a_init
    = \<lparr> selected = Some 2, graph = False, charted = {1} \<rparr>"
    by (simp add: sample_content_def a_defs a_init_def)
  from page_refines_accordion [OF c l n, of
      "[Click (ToggleClick 1), ThumbClick 1 0, Click (BubbleClick 2), ModalClose]"
      "\<lparr>imageModal_display = Unset, modalImg_src = None\<rparr>"]
    c l n a show ?thesis by simp
qed

end
